theory Spec2Isabelle
  imports Main "HOL-Library.Sublist"
begin

section \<open>Strings\<close>

text \<open>
  A JavaScript string is a sequence of UTF-16 code units and \<^verbatim>\<open>length\<close> counts them.
  The model holds the strings whose code units lie in U+0000..U+00FF, one
  \<^typ>\<open>char\<close> per code unit.  On that range \<^verbatim>\<open>String.prototype.toLowerCase\<close> maps
  A..Z and the Latin-1 capitals U+00C0..U+00DE (without the multiplication sign U+00D7) to the
  code unit 32 above and leaves every other unit alone; its results stay in the range.
\<close>

definition lower_unit :: "char \<Rightarrow> char" where
  "lower_unit c = (let n = (of_char c :: nat) in
     if (65 \<le> n \<and> n \<le> 90) \<or> (192 \<le> n \<and> n \<le> 222 \<and> n \<noteq> 215)
     then char_of (n + 32) else c)"

definition toLowerCase :: "string \<Rightarrow> string" where
  "toLowerCase s = map lower_unit s"

text \<open>
  \<^verbatim>\<open>String.prototype.toUpperCase\<close> is not called by the program; the property that
  alias lookup is case-insensitive speaks of it.  On the modelled range it maps a..z and
  U+00E0..U+00FE (without the division sign U+00F7) to the unit 32 below, the sharp s
  U+00DF to the two units \<^verbatim>\<open>SS\<close>, and the micro sign U+00B5 and U+00FF to units above U+00FF,
  which the model does not hold: there the result is \<open>None\<close>.
\<close>

definition upper_unit :: "char \<Rightarrow> string option" where
  "upper_unit c = (let n = (of_char c :: nat) in
     if (97 \<le> n \<and> n \<le> 122) \<or> (224 \<le> n \<and> n \<le> 254 \<and> n \<noteq> 247)
     then Some [char_of (n - 32)]
     else if n = 223 then Some ''SS''
     else if n = 181 \<or> n = 255 then None
     else Some [c])"

fun toUpperCase :: "string \<Rightarrow> string option" where
  "toUpperCase [] = Some []"
| "toUpperCase (c # cs) =
     (case upper_unit c of
        None \<Rightarrow> None
      | Some u \<Rightarrow> (case toUpperCase cs of None \<Rightarrow> None | Some us \<Rightarrow> Some (u @ us)))"

text \<open>
  A value that is a string or \<^verbatim>\<open>undefined\<close> is a \<^typ>\<open>string option\<close>.  It is truthy
  when it is a non-empty string; \<open>if_truthy\<close> keeps a truthy value and is the
  scrutinee of \<^verbatim>\<open>if (x)\<close>, \<^verbatim>\<open>x ? a : b\<close> and \<^verbatim>\<open>x || undefined\<close>; \<open>str\<close> is what a template
  literal prints for the value.
\<close>

fun truthy :: "string option \<Rightarrow> bool" where
  "truthy None = False"
| "truthy (Some s) = (s \<noteq> [])"

fun if_truthy :: "string option \<Rightarrow> string option" where
  "if_truthy None = None"
| "if_truthy (Some s) = (if s = [] then None else Some s)"

fun str :: "string option \<Rightarrow> string" where
  "str None = ''undefined''"
| "str (Some s) = s"

text \<open>\<^verbatim>\<open>x || ""\<close> on a string or \<^verbatim>\<open>undefined\<close>.\<close>

fun or_empty :: "string option \<Rightarrow> string" where
  "or_empty None = []"
| "or_empty (Some s) = s"

text \<open>
  \<^verbatim>\<open>/^\d+$/.test(s)\<close>: a non-empty string of the digits 0..9 (the units 48..57); without the
  multiline flag the anchors match at the two ends of the string only.
\<close>

definition digit :: "char \<Rightarrow> bool" where
  "digit c = (let n = (of_char c :: nat) in 48 \<le> n \<and> n \<le> 57)"

definition all_digits :: "string \<Rightarrow> bool" where
  "all_digits s = (s \<noteq> [] \<and> (\<forall>c\<in>set s. digit c))"

text \<open>\<^verbatim>\<open>s.replace(/^#/, "")\<close>: one leading number sign is dropped.\<close>

fun strip_hash :: "string \<Rightarrow> string" where
  "strip_hash [] = []"
| "strip_hash (c # cs) = (if c = CHR ''#'' then cs else c # cs)"

text \<open>\<^verbatim>\<open>Array.prototype.join\<close> on an array of strings.\<close>

fun join :: "string \<Rightarrow> string list \<Rightarrow> string" where
  "join sep [] = []"
| "join sep [x] = x"
| "join sep (x # y # ys) = x @ sep @ join sep (y # ys)"

text \<open>
  \<^verbatim>\<open>msg.match(/[\s\S]{1,2000}/g)\<close> on a non-empty string: the class matches any code unit and the
  quantifier is greedy, so the matches are the successive blocks of 2000 units and a shorter last
  block.
\<close>

function match_chunks :: "string \<Rightarrow> string list" where
  "match_chunks s = (if s = [] then [] else take 2000 s # match_chunks (drop 2000 s))"
  by pat_completeness auto
termination
  by (relation "measure length") auto

text \<open>\<^verbatim>\<open>args.limit || d\<close> for an integral limit: 0 and \<^verbatim>\<open>undefined\<close> are falsy.\<close>

fun or_default :: "int option \<Rightarrow> int \<Rightarrow> int" where
  "or_default None d = d"
| "or_default (Some n) d = (if n = 0 then d else n)"

section \<open>Remote entities\<close>

text \<open>
  The fields are what the program reads of the library's objects: \<open>textBased\<close> is
  \<^verbatim>\<open>c.isTextBased()\<close>, \<open>thread\<close> is \<^verbatim>\<open>c.isThread()\<close>, \<open>parent_name\<close> is \<^verbatim>\<open>c.parent?.name\<close>
  and \<open>channel_guild_name\<close> is \<^verbatim>\<open>channel.guild.name\<close>.  A channel has the methods \<^verbatim>\<open>send\<close>
  and \<^verbatim>\<open>messages\<close> exactly when it is text based.  A handle on a cached object is held as
  the value of the object: the cache is keyed by ID, so two lookups that end at the same entry
  give the same value.
\<close>

record channel =
  channel_id :: string
  channel_name :: string
  textBased :: bool
  thread :: bool
  channel_type :: nat
  parent_name :: "string option"
  channel_guild_name :: string

record guild =
  guild_id :: string
  guild_name :: string
  channels_cache :: "channel list"

record user =
  user_id :: string
  username :: string
  globalName :: "string option"
  bot :: bool

record member =
  member_id :: string
  member_user :: user
  displayName :: string

text \<open>\<open>createdAt\<close> is the creation time in milliseconds since the epoch.\<close>

record message =
  author :: user
  message_content :: string
  createdAt :: int
  attachment_urls :: "string list"

section \<open>Outbound payloads and collaborator calls\<close>

datatype attachment =
    FromBuffer string string
  | FromPath string

record embed =
  embed_image :: string
  embed_title :: "string option"

text \<open>
  \<^verbatim>\<open>channel.send\<close> takes a string or an options object.  In \<open>Options\<close> an absent
  \<^verbatim>\<open>content\<close> is \<open>None\<close> and an absent \<^verbatim>\<open>embeds\<close> or \<^verbatim>\<open>files\<close> is the empty list.
\<close>

datatype payload =
    Content string
  | Options (payload_content: "string option") (payload_embeds: "embed list")
      (payload_files: "attachment list")

text \<open>
  The calls the program makes on the connection collaborator, recorded in the order they are
  issued: \<^verbatim>\<open>channel.send(p)\<close>, \<^verbatim>\<open>guild.channels.fetch()\<close>,
  \<^verbatim>\<open>guild.members.fetch({query, limit})\<close>, \<^verbatim>\<open>channel.messages.fetch({limit})\<close>,
  \<^verbatim>\<open>discord.users.fetch(id)\<close> and \<^verbatim>\<open>user.createDM()\<close>.
\<close>

datatype call =
    Send string payload
  | ChannelsFetch string
  | MembersFetch string "string option" int
  | MessagesFetch string int
  | UsersFetch string
  | CreateDM string

text \<open>
  An exception carries a message.  \<open>Error\<close> is raised by the program's own
  \<^verbatim>\<open>throw new Error(...)\<close>, \<open>TypeError\<close> by the engine (the texts are V8's and Node's),
  \<open>RemoteError\<close> by a failing call on the connection and \<open>BuilderError\<close> by the
  embed builder when it rejects a value.
\<close>

datatype error =
    Error (message: string)
  | TypeError (message: string)
  | RemoteError (message: string)
  | BuilderError (message: string)

text \<open>Reading a property of \<^verbatim>\<open>undefined\<close>.\<close>

definition undefined_read :: "string \<Rightarrow> error" where
  "undefined_read property =
     TypeError (''Cannot read properties of undefined (reading '' @ [CHR 0x27] @ property
                @ [CHR 0x27] @ '')'')"

section \<open>Program state and environment\<close>

text \<open>
  The globals of the module.  \<open>GUILDS\<close> and \<open>USER_MAPPINGS\<close> are objects with string
  keys, held as association lists in property order; a property read is \<^const>\<open>map_of\<close>, so
  the two names every object inherits in lower case (\<^verbatim>\<open>constructor\<close>, \<^verbatim>\<open>__proto__\<close>) are
  outside the model unless they are own keys.  A mapping stored without a user id keeps the
  value \<^verbatim>\<open>undefined\<close> (\<open>None\<close>).  \<open>guilds_cache\<close> is \<^verbatim>\<open>discord.guilds.cache\<close> in
  iteration order and \<open>calls\<close> the collaborator calls issued so far.
\<close>

record state =
  discordReady :: bool
  GUILDS :: "(string \<times> string) list"
  DEFAULT_CHANNEL_ID :: "string option"
  USER_MAPPINGS :: "(string \<times> string option) list"
  guilds_cache :: "guild list"
  calls :: "call list"

text \<open>
  What the collaborators answer.  \<open>ready_in_time\<close>: the ready event fires before the
  readiness wait times out.  \<open>failure\<close>: the message a call fails with, given the calls
  issued before it.  \<open>channels_fetched\<close>: the channel cache of a guild after a refresh.
  \<open>setImage_error\<close> and \<open>setTitle_error\<close>: the message the embed builder rejects a value
  with.
\<close>

record env =
  ready_in_time :: bool
  failure :: "call list \<Rightarrow> call \<Rightarrow> string option"
  channels_fetched :: "guild \<Rightarrow> channel list"
  members_fetched :: "string \<Rightarrow> string option \<Rightarrow> int \<Rightarrow> member list"
  messages_fetched :: "string \<Rightarrow> int \<Rightarrow> message list"
  users_fetched :: "string \<Rightarrow> user"
  dm_channel_id :: "string \<Rightarrow> string"
  existsSync :: "string \<Rightarrow> bool"
  basename :: "string \<Rightarrow> string"
  setImage_error :: "string \<Rightarrow> string option"
  setTitle_error :: "string \<Rightarrow> string option"

text \<open>
  An asynchronous function is a state transformer that ends in a value or an exception; the
  state it leaves is kept in both cases, since the calls issued before a failure stay issued.
  One invocation of the handler runs from its first step to its reply; invocations interleaved
  at their suspension points are not described.
\<close>

type_synonym 'a io = "state \<Rightarrow> (error + 'a) \<times> state"

definition return_io :: "'a \<Rightarrow> 'a io" where
  "return_io x = (\<lambda>s. (Inr x, s))"

definition throw :: "error \<Rightarrow> 'a io" where
  "throw err = (\<lambda>s. (Inl err, s))"

definition bind_io :: "'a io \<Rightarrow> ('a \<Rightarrow> 'b io) \<Rightarrow> 'b io" where
  "bind_io m f = (\<lambda>s. case m s of (Inl err, s') \<Rightarrow> (Inl err, s') | (Inr x, s') \<Rightarrow> f x s')"

definition try_catch :: "'a io \<Rightarrow> (error \<Rightarrow> 'a io) \<Rightarrow> 'a io" where
  "try_catch m h = (\<lambda>s. case m s of (Inl err, s') \<Rightarrow> h err s' | (Inr x, s') \<Rightarrow> (Inr x, s'))"

text \<open>A synchronous function that reads the state and returns or throws.\<close>

definition sync :: "(state \<Rightarrow> error + 'a) \<Rightarrow> 'a io" where
  "sync f = (\<lambda>s. (f s, s))"

text \<open>A call on the collaborator: it is recorded, then fails or returns.\<close>

definition remote :: "env \<Rightarrow> call \<Rightarrow> unit io" where
  "remote e c = (\<lambda>s.
     let s' = s\<lparr>calls := calls s @ [c]\<rparr> in
     case failure e (calls s) c of
       Some m \<Rightarrow> (Inl (RemoteError m), s')
     | None \<Rightarrow> (Inr (), s'))"

section \<open>Startup\<close>

text \<open>
  The environment variables as the module reads them.  The two JSON variables are given by the
  object \<^verbatim>\<open>JSON.parse\<close> returns, with string values, in property order; \<open>None\<close> stands for
  a variable that is unset or empty (parsed from \<^verbatim>\<open>"{}"\<close>) or malformed (the \<^verbatim>\<open>catch\<close>): both
  leave the empty object.
\<close>

record config =
  DISCORD_GUILDS :: "(string \<times> string) list option"
  DISCORD_GUILD_ID :: "string option"
  DISCORD_DEFAULT_CHANNEL_ID :: "string option"
  DISCORD_USER_MAPPINGS :: "(string \<times> string) list option"

definition parsed_or_empty :: "(string \<times> 'v) list option \<Rightarrow> (string \<times> 'v) list" where
  "parsed_or_empty p = (case p of None \<Rightarrow> [] | Some obj \<Rightarrow> obj)"

definition startup_GUILDS :: "config \<Rightarrow> (string \<times> string) list" where
  "startup_GUILDS cfg =
     (let guilds = parsed_or_empty (DISCORD_GUILDS cfg) in
      case if_truthy (DISCORD_GUILD_ID cfg) of
        Some legacy \<Rightarrow> if length (map fst guilds) = 0 then [(''default'', legacy)] else guilds
      | None \<Rightarrow> guilds)"

text \<open>
  \<^verbatim>\<open>DEFAULT_GUILD_ALIAS\<close> is computed once from \<open>GUILDS\<close>, which is not assigned again.
\<close>

definition DEFAULT_GUILD_ALIAS :: "(string \<times> string) list \<Rightarrow> string" where
  "DEFAULT_GUILD_ALIAS guilds =
     (if truthy (map_of guilds ''personal'') then ''personal''
      else case map fst guilds of
             [] \<Rightarrow> ''default''
           | k # ks \<Rightarrow> if k = [] then ''default'' else k)"

definition startup :: "config \<Rightarrow> state" where
  "startup cfg =
     \<lparr>discordReady = False,
      GUILDS = startup_GUILDS cfg,
      DEFAULT_CHANNEL_ID = if_truthy (DISCORD_DEFAULT_CHANNEL_ID cfg),
      USER_MAPPINGS = map (\<lambda>(k, v). (k, Some v)) (parsed_or_empty (DISCORD_USER_MAPPINGS cfg)),
      guilds_cache = [],
      calls = []\<rparr>"

text \<open>The ready event of the connection: the flag is set; the cache holds the joined guilds.\<close>

definition on_ready :: "guild list \<Rightarrow> state \<Rightarrow> state" where
  "on_ready joined s = s\<lparr>discordReady := True, guilds_cache := joined\<rparr>"

section \<open>Readiness wait\<close>

text \<open>
  \<^verbatim>\<open>waitForDiscord\<close> returns at once when the flag is set; otherwise it polls until the flag is
  set or the timeout has passed.  The clock always passes the timeout, so the wait ends; which
  way it ends is the environment's \<open>ready_in_time\<close>.
\<close>

definition waitForDiscord :: "env \<Rightarrow> unit io" where
  "waitForDiscord e = (\<lambda>s.
     if discordReady s then (Inr (), s)
     else if ready_in_time e then (Inr (), s\<lparr>discordReady := True\<rparr>)
     else (Inl (Error ''Discord client not ready (timeout)''), s))"

section \<open>Server resolver\<close>

text \<open>\<^verbatim>\<open>discord.guilds.cache.get(id)\<close>; the key may be \<^verbatim>\<open>undefined\<close>.\<close>

definition guilds_get :: "guild list \<Rightarrow> string option \<Rightarrow> guild option" where
  "guilds_get cache k = (case k of None \<Rightarrow> None | Some i \<Rightarrow> find (\<lambda>g. guild_id g = i) cache)"

definition resolveGuild :: "state \<Rightarrow> string option \<Rightarrow> error + guild" where
  \<open>resolveGuild s serverAlias =
     (case if_truthy serverAlias of
        None \<Rightarrow>
          (let guildId = map_of (GUILDS s) (DEFAULT_GUILD_ALIAS (GUILDS s)) in
           case guilds_get (guilds_cache s) guildId of
             Some guild \<Rightarrow> Inr guild
           | None \<Rightarrow> Inl (Error (''Default guild "'' @ DEFAULT_GUILD_ALIAS (GUILDS s) @ ''" (''
                         @ str guildId @ '') not found'')))
      | Some alias \<Rightarrow>
          (let aliasLower = toLowerCase alias;
               guildId = map_of (GUILDS s) aliasLower in
           if truthy guildId then
             (case guilds_get (guilds_cache s) guildId of
                Some guild \<Rightarrow> Inr guild
              | None \<Rightarrow> Inl (Error (''Guild alias "'' @ alias @ ''" ('' @ str guildId
                            @ '') not found'')))
           else
             (case (if all_digits alias then guilds_get (guilds_cache s) (Some alias) else None) of
                Some guild \<Rightarrow> Inr guild
              | None \<Rightarrow>
                  (case find (\<lambda>g. toLowerCase (guild_name g) = aliasLower) (guilds_cache s) of
                     Some guild \<Rightarrow> Inr guild
                   | None \<Rightarrow> Inl (Error (''Server "'' @ alias @ ''" not found. Available: ''
                                 @ join '', '' (map fst (GUILDS s))))))))\<close>

section \<open>Channel resolver\<close>

text \<open>\<^verbatim>\<open>guild.channels.cache.get(id)\<close>.\<close>

definition channels_get :: "channel list \<Rightarrow> string \<Rightarrow> channel option" where
  "channels_get cache i = find (\<lambda>c. channel_id c = i) cache"

text \<open>
  \<^verbatim>\<open>guild.channels.fetch()\<close>: when the call returns, the guild's channel cache is the refreshed
  one, in the guild object the caller holds and in \<^verbatim>\<open>discord.guilds.cache\<close> alike.
\<close>

definition channels_fetch :: "env \<Rightarrow> guild \<Rightarrow> guild io" where
  "channels_fetch e guild =
     bind_io (remote e (ChannelsFetch (guild_id guild))) (\<lambda>_ s.
       let guild' = guild\<lparr>channels_cache := channels_fetched e guild\<rparr> in
       (Inr guild',
        s\<lparr>guilds_cache :=
            map (\<lambda>g. if guild_id g = guild_id guild then guild' else g) (guilds_cache s)\<rparr>))"

definition resolveChannel :: "env \<Rightarrow> string \<Rightarrow> guild \<Rightarrow> channel io" where
  \<open>resolveChannel e channelIdOrName guild =
     (case channels_get (channels_cache guild) channelIdOrName of
        Some channel \<Rightarrow> return_io channel
      | None \<Rightarrow>
          (let cleanName = toLowerCase (strip_hash channelIdOrName) in
           case find (\<lambda>c. toLowerCase (channel_name c) = cleanName \<and> textBased c)
                  (channels_cache guild) of
             Some channel \<Rightarrow> return_io channel
           | None \<Rightarrow>
               bind_io (channels_fetch e guild) (\<lambda>guild'.
                 case channels_get (channels_cache guild') channelIdOrName of
                   Some channel \<Rightarrow> return_io channel
                 | None \<Rightarrow>
                     (case find (\<lambda>c. toLowerCase (channel_name c) = cleanName \<and> textBased c)
                             (channels_cache guild') of
                        Some channel \<Rightarrow> return_io channel
                      | None \<Rightarrow> throw (Error (''Channel "'' @ channelIdOrName
                                    @ ''" not found in '' @ guild_name guild'))))))\<close>

section \<open>Routing context builder\<close>

text \<open>The loop over \<^verbatim>\<open>discord.guilds.cache.values()\<close> looking for the default channel.\<close>

fun default_channel :: "guild list \<Rightarrow> string \<Rightarrow> channel option" where
  "default_channel [] i = None"
| "default_channel (g # gs) i =
     (case channels_get (channels_cache g) i of
        Some ch \<Rightarrow> Some ch
      | None \<Rightarrow> default_channel gs i)"

definition resolveChannelWithServer :: "env \<Rightarrow> string option \<Rightarrow> string option \<Rightarrow> channel io" where
  "resolveChannelWithServer e channelArg serverArg =
     bind_io (waitForDiscord e) (\<lambda>_.
     bind_io (sync (\<lambda>s. resolveGuild s serverArg)) (\<lambda>guild.
       case if_truthy channelArg of
         Some c \<Rightarrow> resolveChannel e c guild
       | None \<Rightarrow> (\<lambda>s.
           case (case if_truthy (DEFAULT_CHANNEL_ID s) of
                   Some i \<Rightarrow> default_channel (guilds_cache s) i
                 | None \<Rightarrow> None) of
             Some ch \<Rightarrow> (Inr ch, s)
           | None \<Rightarrow> (Inl (Error ''No channel specified and no default channel set''), s))))"

section \<open>User resolver\<close>

text \<open>\<^verbatim>\<open>USER_MAPPINGS[k]\<close>, and \<^verbatim>\<open>USER_MAPPINGS[k] = v\<close>: a new key is added last.\<close>

definition mappings_get :: "(string \<times> string option) list \<Rightarrow> string \<Rightarrow> string option" where
  "mappings_get obj k = (case map_of obj k of None \<Rightarrow> None | Some v \<Rightarrow> v)"

fun mappings_set ::
  "(string \<times> string option) list \<Rightarrow> string \<Rightarrow> string option \<Rightarrow> (string \<times> string option) list" where
  "mappings_set [] k v = [(k, v)]"
| "mappings_set (p # ps) k v = (if fst p = k then (k, v) # ps else p # mappings_set ps k v)"

definition users_fetch :: "env \<Rightarrow> string \<Rightarrow> user io" where
  "users_fetch e i = bind_io (remote e (UsersFetch i)) (\<lambda>_. return_io (users_fetched e i))"

definition members_fetch :: "env \<Rightarrow> guild \<Rightarrow> string option \<Rightarrow> int \<Rightarrow> member list io" where
  "members_fetch e guild query lim =
     bind_io (remote e (MembersFetch (guild_id guild) query lim)) (\<lambda>_.
       return_io (members_fetched e (guild_id guild) query lim))"

definition member_matches :: "string \<Rightarrow> member \<Rightarrow> bool" where
  "member_matches nameOrId m =
     (toLowerCase (username (member_user m)) = toLowerCase nameOrId
      \<or> toLowerCase (displayName m) = toLowerCase nameOrId
      \<or> (case globalName (member_user m) of
            None \<Rightarrow> False
          | Some gn \<Rightarrow> toLowerCase gn = toLowerCase nameOrId))"

text \<open>The loop over \<^verbatim>\<open>Object.entries(GUILDS)\<close>, and the \<^verbatim>\<open>throw\<close> after it.\<close>

fun search_guilds :: "env \<Rightarrow> string \<Rightarrow> string list \<Rightarrow> user io" where
  \<open>search_guilds e nameOrId [] = throw (Error (''User "'' @ nameOrId @ ''" not found''))\<close>
| \<open>search_guilds e nameOrId (guildId # rest) = (\<lambda>s.
     case guilds_get (guilds_cache s) (Some guildId) of
       None \<Rightarrow> search_guilds e nameOrId rest s
     | Some guild \<Rightarrow>
         bind_io (members_fetch e guild (Some nameOrId) 5) (\<lambda>members.
           case find (member_matches nameOrId) members of
             Some m \<Rightarrow> return_io (member_user m)
           | None \<Rightarrow> search_guilds e nameOrId rest) s)\<close>

definition resolveUser :: "env \<Rightarrow> string option \<Rightarrow> user io" where
  \<open>resolveUser e nameOrId =
     bind_io (waitForDiscord e) (\<lambda>_.
       case nameOrId of
         None \<Rightarrow> throw (undefined_read ''toLowerCase'')
       | Some n \<Rightarrow> (\<lambda>s.
           case if_truthy (mappings_get (USER_MAPPINGS s) (toLowerCase n)) of
             Some mappedId \<Rightarrow>
               try_catch (users_fetch e mappedId)
                 (\<lambda>_. throw (Error (''Mapped user "'' @ n @ ''" (ID: '' @ mappedId
                                @ '') not found''))) s
           | None \<Rightarrow>
               if all_digits n then
                 try_catch (users_fetch e n)
                   (\<lambda>_. throw (Error (''User with ID '' @ n @ '' not found''))) s
               else search_guilds e n (map snd (GUILDS s)) s))\<close>

definition formatCodeBlock :: "string option \<Rightarrow> string \<Rightarrow> string" where
  "formatCodeBlock code language = ''```'' @ language @ ''\<newline>'' @ str code @ ''\<newline>```''"

section \<open>Tool dispatcher\<close>

text \<open>
  A request names a tool and may carry an arguments object.  An argument is absent
  (\<open>None\<close>) or has the type its input schema declares; a limit is an integral number.
\<close>

record args =
  arg_message :: "string option"
  arg_channel :: "string option"
  arg_server :: "string option"
  arg_code :: "string option"
  arg_language :: "string option"
  arg_title :: "string option"
  arg_file_path :: "string option"
  arg_image_path :: "string option"
  arg_user :: "string option"
  arg_alias :: "string option"
  arg_user_id :: "string option"
  arg_limit :: "int option"

record request =
  tool_name :: string
  arguments :: "args option"

text \<open>
  The records of the list tools.  \<open>toISOString t\<close> stands for the string
  \<^verbatim>\<open>Date.prototype.toISOString\<close> prints for the time \<open>t\<close>, and \<open>TextJSON p v\<close> for the text
  \<open>p\<close> followed by \<^verbatim>\<open>JSON.stringify(v, null, 2)\<close>.
\<close>

record channel_info =
  ci_id :: string
  ci_name :: string
  ci_type :: nat
  ci_category :: string

record member_info =
  mi_id :: string
  mi_username :: string
  mi_displayName :: string
  mi_globalName :: "string option"
  mi_bot :: bool

record server_info =
  si_alias :: string
  si_id :: string
  si_name :: string
  si_default :: bool

datatype iso_timestamp = toISOString int

record message_info =
  msg_author :: string
  msg_content :: string
  msg_timestamp :: iso_timestamp
  msg_attachments :: "string list"

datatype json =
    ChannelRecords "channel_info list"
  | MemberRecords "member_info list"
  | ServerRecords "server_info list"
  | MessageRecords "message_info list"

datatype reply_text =
    Text string
  | TextJSON string json

text \<open>A success reply has no \<^verbatim>\<open>isError\<close> key: the flag is \<open>False\<close>.\<close>

record reply =
  content_text :: reply_text
  isError :: bool

definition text_reply :: "string \<Rightarrow> reply" where
  "text_reply t = \<lparr>content_text = Text t, isError = False\<rparr>"

definition json_reply :: "string \<Rightarrow> json \<Rightarrow> reply" where
  "json_reply t v = \<lparr>content_text = TextJSON t v, isError = False\<rparr>"

text \<open>
  The first read of a property of \<^verbatim>\<open>args\<close> throws when the request has no arguments object.
\<close>

definition with_args :: "args option \<Rightarrow> string \<Rightarrow> (args \<Rightarrow> 'a io) \<Rightarrow> 'a io" where
  "with_args args property f =
     (case args of None \<Rightarrow> throw (undefined_read property) | Some a \<Rightarrow> f a)"

definition send :: "env \<Rightarrow> channel \<Rightarrow> payload \<Rightarrow> unit io" where
  "send e channel p =
     (if textBased channel then remote e (Send (channel_id channel) p)
      else throw (TypeError ''channel.send is not a function''))"

text \<open>The \<^verbatim>\<open>for (const chunk of chunks)\<close> loop.\<close>

fun send_each :: "env \<Rightarrow> channel \<Rightarrow> string list \<Rightarrow> unit io" where
  "send_each e channel [] = return_io ()"
| "send_each e channel (chunk # chunks) =
     bind_io (send e channel (Content chunk)) (\<lambda>_. send_each e channel chunks)"

definition sent_to :: "channel \<Rightarrow> string" where
  "sent_to channel = '' sent to #'' @ channel_name channel @ '' in '' @ channel_guild_name channel"

definition discord_send_message :: "env \<Rightarrow> args option \<Rightarrow> reply io" where
  "discord_send_message e args =
     with_args args ''channel'' (\<lambda>a.
     bind_io (resolveChannelWithServer e (arg_channel a) (arg_server a)) (\<lambda>channel.
       case arg_message a of
         None \<Rightarrow> throw (undefined_read ''length'')
       | Some msg \<Rightarrow>
           bind_io (if length msg \<le> 2000 then send e channel (Content msg)
                    else send_each e channel (match_chunks msg)) (\<lambda>_.
           return_io (text_reply (''Message'' @ sent_to channel)))))"

definition discord_send_code :: "env \<Rightarrow> args option \<Rightarrow> reply io" where
  "discord_send_code e args =
     with_args args ''channel'' (\<lambda>a.
     bind_io (resolveChannelWithServer e (arg_channel a) (arg_server a)) (\<lambda>channel.
       let codeBlock = formatCodeBlock (arg_code a) (or_empty (arg_language a));
           fullMessage = (case if_truthy (arg_title a) of
                            Some title \<Rightarrow> ''**'' @ title @ ''**\<newline>'' @ codeBlock
                          | None \<Rightarrow> codeBlock)
       in
       bind_io
         (if length fullMessage > 2000 then
            (let ext = (case if_truthy (arg_language a) of
                          Some language \<Rightarrow> ''.'' @ language
                        | None \<Rightarrow> ''.txt'')
             in
             case arg_code a of
               None \<Rightarrow> throw (TypeError (''The first argument must be of type string or an ''
                          @ ''instance of Buffer, ArrayBuffer, or Array or an Array-like Object. ''
                          @ ''Received undefined''))
             | Some code \<Rightarrow>
                 send e channel
                   (Options (case if_truthy (arg_title a) of
                               Some title \<Rightarrow> Some (''**'' @ title @ ''**'')
                             | None \<Rightarrow> None)
                      [] [FromBuffer code (''code'' @ ext)]))
          else send e channel (Content fullMessage)) (\<lambda>_.
       return_io (text_reply (''Code snippet'' @ sent_to channel)))))"

text \<open>\<^verbatim>\<open>fs.existsSync(p)\<close>, which is false for \<^verbatim>\<open>undefined\<close>.\<close>

definition fs_existsSync :: "env \<Rightarrow> string option \<Rightarrow> bool" where
  "fs_existsSync e p = (case p of None \<Rightarrow> False | Some f \<Rightarrow> existsSync e f)"

definition discord_send_file :: "env \<Rightarrow> args option \<Rightarrow> reply io" where
  \<open>discord_send_file e args =
     with_args args ''channel'' (\<lambda>a.
     bind_io (resolveChannelWithServer e (arg_channel a) (arg_server a)) (\<lambda>channel.
       let filePath = arg_file_path a in
       if \<not> fs_existsSync e filePath then throw (Error (''File not found: '' @ str filePath))
       else
         bind_io (send e channel
                    (Options (if_truthy (arg_message a)) [] [FromPath (str filePath)])) (\<lambda>_.
         return_io (text_reply (''File "'' @ basename e (str filePath) @ ''"''
                                @ sent_to channel)))))\<close>

definition discord_send_image :: "env \<Rightarrow> args option \<Rightarrow> reply io" where
  \<open>discord_send_image e args =
     with_args args ''channel'' (\<lambda>a.
     bind_io (resolveChannelWithServer e (arg_channel a) (arg_server a)) (\<lambda>channel.
       let imgPath = arg_image_path a in
       if \<not> fs_existsSync e imgPath then throw (Error (''Image not found: '' @ str imgPath))
       else
         (let image = ''attachment://'' @ basename e (str imgPath) in
          case setImage_error e image of
            Some m \<Rightarrow> throw (BuilderError m)
          | None \<Rightarrow>
              (case (case if_truthy (arg_message a) of
                       Some title \<Rightarrow> setTitle_error e title
                     | None \<Rightarrow> None) of
                 Some m \<Rightarrow> throw (BuilderError m)
               | None \<Rightarrow>
                   bind_io (send e channel
                              (Options None
                                 [\<lparr>embed_image = image, embed_title = if_truthy (arg_message a)\<rparr>]
                                 [FromPath (str imgPath)])) (\<lambda>_.
                   return_io (text_reply (''Image "'' @ basename e (str imgPath) @ ''"''
                                          @ sent_to channel)))))))\<close>

definition createDM :: "env \<Rightarrow> user \<Rightarrow> string io" where
  "createDM e user =
     bind_io (remote e (CreateDM (user_id user))) (\<lambda>_. return_io (dm_channel_id e (user_id user)))"

definition discord_send_dm :: "env \<Rightarrow> args option \<Rightarrow> reply io" where
  "discord_send_dm e args =
     with_args args ''user'' (\<lambda>a.
     bind_io (resolveUser e (arg_user a)) (\<lambda>user.
     bind_io (createDM e user) (\<lambda>dmChannel.
       let parts = (case if_truthy (arg_message a) of Some m \<Rightarrow> [m] | None \<Rightarrow> [])
                   @ (case if_truthy (arg_code a) of
                        Some code \<Rightarrow> [formatCodeBlock (Some code) (or_empty (arg_language a))]
                      | None \<Rightarrow> []);
           content = join ''\<newline>'' parts
       in
       bind_io (case if_truthy (arg_file_path a) of
                  Some f \<Rightarrow> if \<not> existsSync e f then throw (Error (''File not found: '' @ f))
                            else return_io [FromPath f]
                | None \<Rightarrow> return_io []) (\<lambda>files.
       bind_io (remote e (Send dmChannel (Options (if_truthy (Some content)) [] files))) (\<lambda>_.
       return_io (text_reply (''DM sent to '' @ username user @ '' ('' @ user_id user
                              @ '')'')))))))"

definition channel_record :: "channel \<Rightarrow> channel_info" where
  "channel_record c =
     \<lparr>ci_id = channel_id c, ci_name = channel_name c, ci_type = channel_type c,
      ci_category = (case if_truthy (parent_name c) of Some n \<Rightarrow> n | None \<Rightarrow> ''none'')\<rparr>"

definition discord_list_channels :: "env \<Rightarrow> args option \<Rightarrow> reply io" where
  "discord_list_channels e args =
     with_args args ''server'' (\<lambda>a.
     bind_io (sync (\<lambda>s. resolveGuild s (arg_server a))) (\<lambda>guild.
     bind_io (channels_fetch e guild) (\<lambda>guild'.
       let textChannels =
             map channel_record (filter (\<lambda>c. textBased c \<and> \<not> thread c) (channels_cache guild'))
       in return_io (json_reply (''Channels in '' @ guild_name guild' @ '':\<newline>'')
                       (ChannelRecords textChannels)))))"

definition member_record :: "member \<Rightarrow> member_info" where
  "member_record m =
     \<lparr>mi_id = member_id m, mi_username = username (member_user m),
      mi_displayName = displayName m, mi_globalName = globalName (member_user m),
      mi_bot = bot (member_user m)\<rparr>"

definition discord_list_members :: "env \<Rightarrow> args option \<Rightarrow> reply io" where
  "discord_list_members e args =
     with_args args ''server'' (\<lambda>a.
     bind_io (sync (\<lambda>s. resolveGuild s (arg_server a))) (\<lambda>guild.
       let limit = min (or_default (arg_limit a) 50) 100 in
       bind_io (members_fetch e guild None limit) (\<lambda>members.
       return_io (json_reply (''Members in '' @ guild_name guild @ '':\<newline>'')
                    (MemberRecords (map member_record members))))))"

definition server_record :: "state \<Rightarrow> string \<times> string \<Rightarrow> server_info" where
  "server_record s entry =
     (case entry of (alias, i) \<Rightarrow>
        \<lparr>si_alias = alias, si_id = i,
         si_name = (case guilds_get (guilds_cache s) (Some i) of
                      None \<Rightarrow> ''not connected''
                    | Some guild \<Rightarrow> (case if_truthy (Some (guild_name guild)) of
                                      Some n \<Rightarrow> n
                                    | None \<Rightarrow> ''not connected'')),
         si_default = (alias = DEFAULT_GUILD_ALIAS (GUILDS s))\<rparr>)"

definition discord_list_servers :: "reply io" where
  "discord_list_servers =
     (\<lambda>s. (Inr (json_reply [] (ServerRecords (map (server_record s) (GUILDS s)))), s))"

definition discord_add_user_mapping :: "args option \<Rightarrow> reply io" where
  \<open>discord_add_user_mapping args =
     with_args args ''alias'' (\<lambda>a.
       case arg_alias a of
         None \<Rightarrow> throw (undefined_read ''toLowerCase'')
       | Some alias \<Rightarrow> (\<lambda>s.
           (Inr (text_reply (''Mapped "'' @ alias @ ''" -> '' @ str (arg_user_id a)
                             @ '' (session only)'')),
            s\<lparr>USER_MAPPINGS :=
                mappings_set (USER_MAPPINGS s) (toLowerCase alias) (arg_user_id a)\<rparr>)))\<close>

definition messages_fetch :: "env \<Rightarrow> channel \<Rightarrow> int \<Rightarrow> message list io" where
  "messages_fetch e channel lim =
     (if textBased channel then
        bind_io (remote e (MessagesFetch (channel_id channel) lim)) (\<lambda>_.
          return_io (messages_fetched e (channel_id channel) lim))
      else throw (undefined_read ''fetch''))"

definition message_record :: "message \<Rightarrow> message_info" where
  "message_record m =
     \<lparr>msg_author = username (author m), msg_content = message_content m,
      msg_timestamp = toISOString (createdAt m), msg_attachments = attachment_urls m\<rparr>"

definition discord_read_messages :: "env \<Rightarrow> args option \<Rightarrow> reply io" where
  "discord_read_messages e args =
     with_args args ''channel'' (\<lambda>a.
     bind_io (resolveChannelWithServer e (arg_channel a) (arg_server a)) (\<lambda>channel.
       let limit = min (or_default (arg_limit a) 10) 50 in
       bind_io (messages_fetch e channel limit) (\<lambda>messages.
         let formatted = map message_record (rev messages) in
         return_io (json_reply [] (MessageRecords formatted)))))"

text \<open>The names of the catalog the list-tools handler returns.\<close>

definition tool_names :: "string list" where
  "tool_names =
     [''discord_send_message'', ''discord_send_code'', ''discord_send_file'',
      ''discord_send_image'', ''discord_send_dm'', ''discord_list_channels'',
      ''discord_list_members'', ''discord_list_servers'', ''discord_add_user_mapping'',
      ''discord_read_messages'']"

text \<open>The body of the \<^verbatim>\<open>try\<close> block: the readiness wait and the \<^verbatim>\<open>switch\<close> on the tool name.\<close>

definition tool_switch :: "env \<Rightarrow> request \<Rightarrow> reply io" where
  "tool_switch e req =
     (let name = tool_name req; args = arguments req in
      bind_io (waitForDiscord e) (\<lambda>_.
        if name = ''discord_send_message'' then discord_send_message e args
        else if name = ''discord_send_code'' then discord_send_code e args
        else if name = ''discord_send_file'' then discord_send_file e args
        else if name = ''discord_send_image'' then discord_send_image e args
        else if name = ''discord_send_dm'' then discord_send_dm e args
        else if name = ''discord_list_channels'' then discord_list_channels e args
        else if name = ''discord_list_members'' then discord_list_members e args
        else if name = ''discord_list_servers'' then discord_list_servers
        else if name = ''discord_add_user_mapping'' then discord_add_user_mapping args
        else if name = ''discord_read_messages'' then discord_read_messages e args
        else throw (Error (''Unknown tool: '' @ name))))"

text \<open>
  The request handler: the \<^verbatim>\<open>try\<close> block, and the \<^verbatim>\<open>catch\<close> that turns an exception into
  the error reply.
\<close>

definition CallTool :: "env \<Rightarrow> request \<Rightarrow> state \<Rightarrow> reply \<times> state" where
  "CallTool e req s =
     (case tool_switch e req s of
        (Inr r, s') \<Rightarrow> (r, s')
      | (Inl err, s') \<Rightarrow>
          (\<lparr>content_text = Text (''Error: '' @ message err), isError = True\<rparr>, s'))"

section \<open>Notions the properties speak of\<close>

text \<open>The handle a resolver returned, or \<open>None\<close> when it threw.\<close>

definition returned :: "error + 'a \<Rightarrow> 'a option" where
  "returned r = (case r of Inl err \<Rightarrow> None | Inr x \<Rightarrow> Some x)"

text \<open>A key is lower-cased when lower-casing leaves it as it is.\<close>

definition lower_cased :: "string \<Rightarrow> bool" where
  "lower_cased k = (toLowerCase k = k)"

text \<open>An asynchronous function that leaves the user mapping table as it found it.\<close>

definition keeps_mappings :: "'a io \<Rightarrow> bool" where
  "keeps_mappings m = (\<forall>s r s'. m s = (r, s') \<longrightarrow> USER_MAPPINGS s' = USER_MAPPINGS s)"

text \<open>The reply the \<^verbatim>\<open>catch\<close> block builds from the message of an exception.\<close>

definition error_reply :: "string \<Rightarrow> reply" where
  "error_reply m = \<lparr>content_text = Text (''Error: '' @ m), isError = True\<rparr>"

text \<open>
  A channel matches an identifier by ID, or by name up to case with one leading number sign
  of the identifier dropped, when it is text based.
\<close>

definition channel_matches :: "string \<Rightarrow> channel \<Rightarrow> bool" where
  "channel_matches idOrName c =
     (channel_id c = idOrName
      \<or> (toLowerCase (channel_name c) = toLowerCase (strip_hash idOrName) \<and> textBased c))"

text \<open>The calls issued between two states, and the \<^verbatim>\<open>send\<close> calls among a list of calls.\<close>

definition issued :: "state \<Rightarrow> state \<Rightarrow> call list" where
  "issued s s' = drop (length (calls s)) (calls s')"

fun sends :: "call list \<Rightarrow> (string \<times> payload) list" where
  "sends [] = []"
| "sends (Send c p # cs) = (c, p) # sends cs"
| "sends (ChannelsFetch g # cs) = sends cs"
| "sends (MembersFetch g q l # cs) = sends cs"
| "sends (MessagesFetch c l # cs) = sends cs"
| "sends (UsersFetch u # cs) = sends cs"
| "sends (CreateDM u # cs) = sends cs"

text \<open>
  The first call of a list that fails when the calls are issued in that order after a history
  of calls, with the message it fails with; \<open>None\<close> when none of them fails.
\<close>

fun first_failure :: "env \<Rightarrow> call list \<Rightarrow> call list \<Rightarrow> (call \<times> string) option" where
  "first_failure e history [] = None"
| "first_failure e history (c # cs) =
     (case failure e history c of
        Some m \<Rightarrow> Some (c, m)
      | None \<Rightarrow> first_failure e (history @ [c]) cs)"

text \<open>
  An asynchronous function relays the failures of the collaborator: when a call it issues
  fails, it ends in the error of that call, and it never looks a user up by ID.
\<close>

definition relays :: "env \<Rightarrow> 'a io \<Rightarrow> bool" where
  "relays e m = (\<forall>s r s'. m s = (r, s') \<longrightarrow>
     (\<exists>cs. calls s' = calls s @ cs
        \<and> (\<forall>c msg. first_failure e (calls s) cs = Some (c, msg) \<longrightarrow>
              r = Inl (RemoteError msg) \<and> (\<forall>i. c \<noteq> UsersFetch i))))"

section \<open>Example configurations\<close>

definition general :: channel where
  "general = \<lparr>channel_id = ''100'', channel_name = ''general'', textBased = True, thread = False,
     channel_type = 0, parent_name = None, channel_guild_name = ''Acme''\<rparr>"

definition acme :: guild where
  "acme = \<lparr>guild_id = ''1'', guild_name = ''Acme'', channels_cache = [general]\<rparr>"

definition john_config :: config where
  "john_config = \<lparr>DISCORD_GUILDS = Some [(''work'', ''1'')], DISCORD_GUILD_ID = None,
     DISCORD_DEFAULT_CHANNEL_ID = None, DISCORD_USER_MAPPINGS = Some [(''John'', ''42'')]\<rparr>"

definition registry_state :: "(string \<times> string) list \<Rightarrow> guild list \<Rightarrow> state" where
  "registry_state registry cache =
     \<lparr>discordReady = True, GUILDS = registry, DEFAULT_CHANNEL_ID = None, USER_MAPPINGS = [],
      guilds_cache = cache, calls = []\<rparr>"

definition announcements :: channel where
  "announcements = \<lparr>channel_id = ''200'', channel_name = ''announcements'', textBased = True,
     thread = False, channel_type = 5, parent_name = Some ''Info'', channel_guild_name = ''Acme''\<rparr>"

definition alice :: user where
  "alice = \<lparr>user_id = ''42'', username = ''alice'', globalName = Some ''Alice'', bot = False\<rparr>"

definition newer :: message where
  "newer = \<lparr>author = alice, message_content = ''second'', createdAt = 2000,
     attachment_urls = [''https://cdn.example/a.png'']\<rparr>"

definition older :: message where
  "older = \<lparr>author = alice, message_content = ''first'', createdAt = 1000, attachment_urls = []\<rparr>"

definition quiet_env :: env where
  "quiet_env =
     \<lparr>ready_in_time = True,
      failure = (\<lambda>history c. None),
      channels_fetched = (\<lambda>g. [general, announcements]),
      members_fetched = (\<lambda>g q l. [\<lparr>member_id = ''42'', member_user = alice, displayName = ''Al''\<rparr>]),
      messages_fetched = (\<lambda>c l. [newer, older]),
      users_fetched = (\<lambda>i. alice\<lparr>user_id := i\<rparr>),
      dm_channel_id = (\<lambda>u. ''dm-'' @ u),
      existsSync = (\<lambda>p. p = ''/tmp/notes.txt''),
      basename = (\<lambda>p. ''notes.txt''),
      setImage_error = (\<lambda>u. None),
      setTitle_error = (\<lambda>t. None)\<rparr>"

definition no_args :: args where
  "no_args = \<lparr>arg_message = None, arg_channel = None, arg_server = None, arg_code = None,
     arg_language = None, arg_title = None, arg_file_path = None, arg_image_path = None,
     arg_user = None, arg_alias = None, arg_user_id = None, arg_limit = None\<rparr>"

section \<open>Evaluation on the examples\<close>

text \<open>
  The definitions to unfold when a resolver (\<open>ev\<close>) or the whole handler (\<open>model\<close>) is run
  on an example.
\<close>

lemmas ev = toLowerCase_def lower_unit_def upper_unit_def char_of_def bit_0 all_digits_def
  digit_def resolveGuild_def guilds_get_def DEFAULT_GUILD_ALIAS_def Let_def
  general_def acme_def registry_state_def

lemmas model = ev issued_def
  return_io_def throw_def bind_io_def try_catch_def sync_def remote_def
  waitForDiscord_def channels_get_def channels_fetch_def resolveChannel_def
  resolveChannelWithServer_def mappings_get_def users_fetch_def members_fetch_def
  member_matches_def resolveUser_def formatCodeBlock_def undefined_read_def
  text_reply_def json_reply_def with_args_def send_def sent_to_def
  discord_send_message_def discord_send_code_def fs_existsSync_def discord_send_file_def
  discord_send_image_def createDM_def discord_send_dm_def channel_record_def
  discord_list_channels_def member_record_def discord_list_members_def server_record_def
  discord_list_servers_def discord_add_user_mapping_def messages_fetch_def message_record_def
  discord_read_messages_def tool_switch_def CallTool_def
  announcements_def alice_def newer_def older_def quiet_env_def no_args_def
  startup_def startup_GUILDS_def parsed_or_empty_def on_ready_def

section \<open>Case mapping\<close>

lemma lower_unit_idem: "lower_unit (lower_unit c) = lower_unit c"
  unfolding lower_unit_def Let_def by (auto simp: of_char_of)

lemma toLowerCase_idem: "toLowerCase (toLowerCase s) = toLowerCase s"
  by (simp add: toLowerCase_def lower_unit_idem)

lemma lower_unit_digit: "digit (lower_unit c) = digit c"
  unfolding digit_def lower_unit_def Let_def by (auto simp: of_char_of)

lemma lower_unit_of_digit: "digit c \<Longrightarrow> lower_unit c = c"
  unfolding digit_def lower_unit_def Let_def by auto

lemma all_digits_toLowerCase: "all_digits (toLowerCase s) = all_digits s"
  by (auto simp: all_digits_def toLowerCase_def lower_unit_digit)

lemma all_digits_fixed: "all_digits s \<Longrightarrow> toLowerCase s = s"
  by (simp add: all_digits_def toLowerCase_def lower_unit_of_digit map_idI)

lemma toLowerCase_Nil: "(toLowerCase s = []) = (s = [])"
  by (simp add: toLowerCase_def)

lemma resolveGuild_lower:
  assumes "toLowerCase a = toLowerCase b"
  shows "returned (resolveGuild s (Some a)) = returned (resolveGuild s (Some b))"
proof -
  have e: "(a = []) = (b = [])" using assms toLowerCase_Nil by metis
  have d: "all_digits a = all_digits b" using assms all_digits_toLowerCase by metis
  have "all_digits a \<Longrightarrow> a = b" using assms d all_digits_fixed by metis
  then show ?thesis using assms e d
    by (auto simp: resolveGuild_def returned_def Let_def split: option.splits)
qed

lemma DEFAULT_GUILD_ALIAS_nonempty: "DEFAULT_GUILD_ALIAS G \<noteq> []"
  by (auto simp: DEFAULT_GUILD_ALIAS_def split: list.splits)

lemma upper_unit_ascii:
  assumes "(of_char c :: nat) < 128"
  shows "\<exists>u. upper_unit c = Some [u] \<and> lower_unit u = lower_unit c"
  using assms unfolding upper_unit_def lower_unit_def Let_def
  by (auto simp: of_char_of)

lemma toUpperCase_ascii:
  "\<forall>c\<in>set A. (of_char c :: nat) < 128 \<Longrightarrow>
     \<exists>U. toUpperCase A = Some U \<and> toLowerCase U = toLowerCase A"
proof (induction A)
  case Nil
  then show ?case by (simp add: toLowerCase_def)
next
  case (Cons c cs)
  then obtain U where U: "toUpperCase cs = Some U" "toLowerCase U = toLowerCase cs" by auto
  from Cons.prems obtain u where u: "upper_unit c = Some [u]" "lower_unit u = lower_unit c"
    using upper_unit_ascii [of c] by auto
  show ?case using U u by (simp add: toLowerCase_def)
qed

section \<open>Server resolution\<close>

text \<open>
  Claim C4, as the code has it.  When the identifier is not empty and its lower-casing is itself
  a key of \<open>GUILDS\<close> mapped to a non-empty ID, \<open>resolveGuild\<close> returns the cached guild with
  that ID, and when the cache has none it throws at once, whatever the names and IDs of the
  cached guilds are; the message holds the identifier as supplied and the mapped ID.
\<close>

theorem C4_alias_lookup:
  assumes "alias \<noteq> []"
    and "map_of (GUILDS s) (toLowerCase alias) = Some gid"
    and "gid \<noteq> []"
  shows \<open>resolveGuild s (Some alias)
           = (case guilds_get (guilds_cache s) (Some gid) of
                Some guild \<Rightarrow> Inr guild
              | None \<Rightarrow> Inl (Error (''Guild alias "'' @ alias @ ''" ('' @ gid @ '') not found'')))
         \<and> sublist alias (''Guild alias "'' @ alias @ ''" ('' @ gid @ '') not found'')
         \<and> sublist gid (''Guild alias "'' @ alias @ ''" ('' @ gid @ '') not found'')\<close>
proof -
  have 1: \<open>sublist alias (''Guild alias "'' @ alias @ ''" ('' @ gid @ '') not found'')\<close>
    by (rule sublist_appendI)
  have \<open>sublist gid ((''Guild alias "'' @ alias @ ''" ('') @ gid @ '') not found'')\<close>
    by (rule sublist_appendI)
  then have 2: \<open>sublist gid (''Guild alias "'' @ alias @ ''" ('' @ gid @ '') not found'')\<close>
    by simp
  have 3: \<open>resolveGuild s (Some alias)
           = (case guilds_get (guilds_cache s) (Some gid) of
                Some guild \<Rightarrow> Inr guild
              | None \<Rightarrow> Inl (Error (''Guild alias "'' @ alias @ ''" ('' @ gid @ '') not found'')))\<close>
    using assms by (simp add: resolveGuild_def Let_def split: option.splits)
  from 1 2 3 show ?thesis by blast
qed

theorem C4_alias_lookup_witness:
  \<open>resolveGuild (registry_state [(''work'', ''1'')] [acme]) (Some ''Work'') = Inr acme
   \<and> resolveGuild (registry_state [(''work'', ''7'')] [acme]) (Some ''Work'')
       = Inl (Error ''Guild alias "Work" (7) not found'')\<close>
proof -
  have a: "toLowerCase ''Work'' = ''work''" by (simp add: ev)
  have "map_of (GUILDS (registry_state [(''work'', ''1'')] [acme])) (toLowerCase ''Work'')
          = Some ''1''"
    by (simp add: a registry_state_def)
  from C4_alias_lookup [OF _ this]
  have 1: "resolveGuild (registry_state [(''work'', ''1'')] [acme]) (Some ''Work'') = Inr acme"
    by (simp add: registry_state_def acme_def guilds_get_def)
  have "map_of (GUILDS (registry_state [(''work'', ''7'')] [acme])) (toLowerCase ''Work'')
          = Some ''7''"
    by (simp add: a registry_state_def)
  from C4_alias_lookup [OF _ this]
  have 2: \<open>resolveGuild (registry_state [(''work'', ''7'')] [acme]) (Some ''Work'')
             = Inl (Error ''Guild alias "Work" (7) not found'')\<close>
    by (simp add: registry_state_def acme_def guilds_get_def)
  from 1 2 show ?thesis by simp
qed

text \<open>
  The alias \<^verbatim>\<open>acme\<close> is a registry key mapped to the empty ID, which no cached guild has.  The
  guard on the mapped ID is falsy, so the lookup does not stop: the name strategy runs and
  returns the guild named \<^verbatim>\<open>Acme\<close>.
\<close>

theorem C4_counterexample:
  "map_of (GUILDS (registry_state [(''acme'', [])] [acme])) (toLowerCase ''acme'') = Some []
   \<and> guilds_get (guilds_cache (registry_state [(''acme'', [])] [acme])) (Some []) = None
   \<and> resolveGuild (registry_state [(''acme'', [])] [acme]) (Some ''acme'') = Inr acme"
  by (simp add: ev)

text \<open>
  A registry key with a capital is never found by the lower-cased query: the identifier
  \<^verbatim>\<open>work\<close> matches the key \<^verbatim>\<open>Work\<close> up to case and its guild is cached, yet the name strategy
  runs and fails.
\<close>

lemma resolveGuild_capital_key:
  \<open>toLowerCase ''work'' = toLowerCase ''Work''
   \<and> guilds_get (guilds_cache (registry_state [(''Work'', ''1'')] [acme])) (Some ''1'') = Some acme
   \<and> resolveGuild (registry_state [(''Work'', ''1'')] [acme]) (Some ''work'')
       = Inl (Error ''Server "work" not found. Available: Work'')\<close>
  by (simp add: ev)

text \<open>
  Claim C5, as the code has it.  When the default alias is its own lower-casing and \<open>GUILDS\<close>
  maps it to a non-empty ID, \<open>resolveGuild\<close> without an argument and \<open>resolveGuild\<close> on the
  default alias return the same guild, or both throw.
\<close>

theorem C5_default_alias:
  assumes "toLowerCase (DEFAULT_GUILD_ALIAS (GUILDS s)) = DEFAULT_GUILD_ALIAS (GUILDS s)"
    and "truthy (map_of (GUILDS s) (DEFAULT_GUILD_ALIAS (GUILDS s)))"
  shows "returned (resolveGuild s None)
           = returned (resolveGuild s (Some (DEFAULT_GUILD_ALIAS (GUILDS s))))"
  using assms DEFAULT_GUILD_ALIAS_nonempty [of "GUILDS s"]
  by (auto simp: resolveGuild_def returned_def Let_def split: option.splits)

theorem C5_default_alias_witness:
  "DEFAULT_GUILD_ALIAS (GUILDS (registry_state [(''work'', ''1''), (''personal'', ''2'')] [acme])) = ''personal''
   \<and> returned (resolveGuild (registry_state [(''work'', ''1''), (''personal'', ''2'')] [acme]) None) = None
   \<and> returned (resolveGuild (registry_state [(''work'', ''1''), (''personal'', ''2'')] [acme]) (Some ''personal'')) = None
   \<and> DEFAULT_GUILD_ALIAS (GUILDS (registry_state [(''work'', ''1'')] [acme])) = ''work''
   \<and> returned (resolveGuild (registry_state [(''work'', ''1'')] [acme]) None) = Some acme
   \<and> returned (resolveGuild (registry_state [(''work'', ''1'')] [acme]) (Some ''work'')) = Some acme"
  using C5_default_alias [of "registry_state [(''work'', ''1''), (''personal'', ''2'')] [acme]"]
    C5_default_alias [of "registry_state [(''work'', ''1'')] [acme]"]
  by (simp add: ev returned_def)

text \<open>
  With an empty registry the default alias is \<^verbatim>\<open>default\<close>, which is no key.  Without an
  argument the call throws; with \<^verbatim>\<open>default\<close> as the argument the name strategy runs and returns
  the guild named \<^verbatim>\<open>Default\<close>.
\<close>

theorem C5_counterexample:
  \<open>DEFAULT_GUILD_ALIAS (GUILDS (registry_state [] [acme\<lparr>guild_name := ''Default''\<rparr>]))
     = ''default''
   \<and> resolveGuild (registry_state [] [acme\<lparr>guild_name := ''Default''\<rparr>]) None
       = Inl (Error ''Default guild "default" (undefined) not found'')
   \<and> resolveGuild (registry_state [] [acme\<lparr>guild_name := ''Default''\<rparr>]) (Some ''default'')
       = Inr (acme\<lparr>guild_name := ''Default''\<rparr>)\<close>
  by (simp add: ev)

text \<open>
  With the registry key \<^verbatim>\<open>Work\<close> the default alias has a capital: without an argument its
  guild is returned, with the default alias as the argument the call throws.
\<close>

lemma resolveGuild_capital_default:
  \<open>DEFAULT_GUILD_ALIAS (GUILDS (registry_state [(''Work'', ''1'')] [acme])) = ''Work''
   \<and> resolveGuild (registry_state [(''Work'', ''1'')] [acme]) None = Inr acme
   \<and> resolveGuild (registry_state [(''Work'', ''1'')] [acme]) (Some ''Work'')
       = Inl (Error ''Server "Work" not found. Available: Work'')\<close>
  by (simp add: ev)

text \<open>
  Claim C6, as the code has it.  For an alias \<open>A\<close> that is a key of \<open>GUILDS\<close> and whose
  upper-casing has the same lower-casing as \<open>A\<close> (every alias of ASCII characters is one),
  \<open>resolveGuild\<close> on \<open>A\<close> and on the upper-casing of \<open>A\<close> return the same guild, or both
  throw.
\<close>

theorem C6_same_handle:
  assumes "A \<in> fst ` set (GUILDS s)"
    and "toUpperCase A = Some U"
    and "(\<forall>c\<in>set A. (of_char c :: nat) < 128) \<or> toLowerCase U = toLowerCase A"
  shows "returned (resolveGuild s (Some A)) = returned (resolveGuild s (Some U))"
proof -
  have "toLowerCase A = toLowerCase U"
    using assms(2,3) toUpperCase_ascii [of A] by auto
  then show ?thesis by (rule resolveGuild_lower)
qed

theorem C6_same_handle_witness:
  "toUpperCase ''work'' = Some ''WORK''
   \<and> returned (resolveGuild (registry_state [(''work'', ''1'')] [acme]) (Some ''work'')) = Some acme
   \<and> returned (resolveGuild (registry_state [(''work'', ''1'')] [acme]) (Some ''WORK'')) = Some acme"
  using C6_same_handle [of "''work''" "registry_state [(''work'', ''1'')] [acme]" "''WORK''"]
  by (simp add: ev returned_def)

text \<open>
  The alias made of the sharp s (U+00DF) is registered; its upper-casing is \<^verbatim>\<open>SS\<close>, whose
  lower-casing \<^verbatim>\<open>ss\<close> is not a key.
\<close>

theorem C6_counterexample:
  \<open>[CHR 0xDF] \<in> fst ` set (GUILDS (registry_state [([CHR 0xDF], ''1'')] [acme]))
   \<and> toUpperCase [CHR 0xDF] = Some ''SS''
   \<and> resolveGuild (registry_state [([CHR 0xDF], ''1'')] [acme]) (Some [CHR 0xDF]) = Inr acme
   \<and> resolveGuild (registry_state [([CHR 0xDF], ''1'')] [acme]) (Some ''SS'')
       = Inl (Error (''Server "SS" not found. Available: '' @ [CHR 0xDF]))\<close>
  by (simp add: ev)

section \<open>Running asynchronous functions\<close>

lemma bind_io_Inr: "m s = (Inr x, s') \<Longrightarrow> bind_io m f s = f x s'"
  by (simp add: bind_io_def)

lemma bind_io_InrE:
  assumes "bind_io m f s = (Inr y, s')"
  obtains x s1 where "m s = (Inr x, s1)" and "f x s1 = (Inr y, s')"
  using assms by (auto simp: bind_io_def split: prod.splits sum.splits)

lemma bind_io_InlE:
  assumes "bind_io m f s = (Inl err, s')"
  obtains "m s = (Inl err, s')"
  | x s1 where "m s = (Inr x, s1)" and "f x s1 = (Inl err, s')"
  using assms by (auto simp: bind_io_def split: prod.splits sum.splits)

lemma issued_append: "calls s' = calls s @ cs \<Longrightarrow> issued s s' = cs"
  by (simp add: issued_def)

lemma channels_fetch_ok:
  assumes "failure e (calls s) (ChannelsFetch (guild_id guild)) = None"
  shows "\<exists>s'. channels_fetch e guild s
           = (Inr (guild\<lparr>channels_cache := channels_fetched e guild\<rparr>), s')
         \<and> calls s' = calls s @ [ChannelsFetch (guild_id guild)]"
  using assms by (simp add: channels_fetch_def bind_io_def remote_def Let_def)

lemma channels_get_None: "(channels_get cache i = None) = (\<forall>c\<in>set cache. channel_id c \<noteq> i)"
  by (auto simp: channels_get_def find_None_iff)

lemma channels_get_Some: "channels_get cache i = Some c \<Longrightarrow> c \<in> set cache \<and> channel_id c = i"
  by (auto simp: channels_get_def find_Some_iff)

lemma find_Some_set: "find P xs = Some x \<Longrightarrow> x \<in> set xs \<and> P x"
  by (auto simp: find_Some_iff)

section \<open>Channel resolution\<close>

text \<open>
  Claim C7.  When no channel of the guild's cache matches the identifier, the refresh does not
  fail and a channel of the refreshed cache matches, one call of \<open>resolveChannel\<close> returns a
  matching channel of the refreshed cache, and the one call it issues is the refresh.
\<close>

theorem C7_refresh_then_hit:
  assumes miss: "\<forall>c\<in>set (channels_cache guild). \<not> channel_matches idOrName c"
    and fetched: "failure e (calls s) (ChannelsFetch (guild_id guild)) = None"
    and hit: "\<exists>c\<in>set (channels_fetched e guild). channel_matches idOrName c"
  shows "\<exists>c s'. resolveChannel e idOrName guild s = (Inr c, s')
           \<and> c \<in> set (channels_fetched e guild) \<and> channel_matches idOrName c
           \<and> issued s s' = [ChannelsFetch (guild_id guild)]"
proof -
  let ?named = "\<lambda>c. toLowerCase (channel_name c) = toLowerCase (strip_hash idOrName) \<and> textBased c"
  let ?fresh = "channels_fetched e guild"
  from miss have p1: "channels_get (channels_cache guild) idOrName = None"
    by (auto simp: channels_get_None channel_matches_def)
  from miss have p2: "find ?named (channels_cache guild) = None"
    by (auto simp: find_None_iff channel_matches_def)
  from channels_fetch_ok [OF fetched] obtain s1 where
    f: "channels_fetch e guild s = (Inr (guild\<lparr>channels_cache := ?fresh\<rparr>), s1)"
    and c: "calls s1 = calls s @ [ChannelsFetch (guild_id guild)]" by blast
  have i: "issued s s1 = [ChannelsFetch (guild_id guild)]" using c by (rule issued_append)
  have r: \<open>resolveChannel e idOrName guild s =
      (case channels_get ?fresh idOrName of
         Some channel \<Rightarrow> return_io channel s1
       | None \<Rightarrow> (case find ?named ?fresh of
            Some channel \<Rightarrow> return_io channel s1
          | None \<Rightarrow> throw (Error (''Channel "'' @ idOrName @ ''" not found in ''
                          @ guild_name guild)) s1))\<close>
    by (simp add: resolveChannel_def p1 p2 Let_def
          bind_io_Inr [of "channels_fetch e guild" s, OF f] split: option.splits)
  show ?thesis
  proof (cases "channels_get ?fresh idOrName")
    case (Some c)
    then have "c \<in> set ?fresh \<and> channel_matches idOrName c"
      by (auto dest: channels_get_Some simp: channel_matches_def)
    then show ?thesis using r Some i by (auto simp: return_io_def)
  next
    case None
    then have "\<exists>c\<in>set ?fresh. ?named c" using hit
      by (auto simp: channels_get_None channel_matches_def)
    then obtain c where s: "find ?named ?fresh = Some c"
      by (cases "find ?named ?fresh") (auto simp: find_None_iff)
    then have "c \<in> set ?fresh \<and> channel_matches idOrName c"
      by (auto dest: find_Some_set simp: channel_matches_def)
    then show ?thesis using r None s i by (auto simp: return_io_def)
  qed
qed

theorem C7_refresh_then_hit_witness:
  "\<exists>s'. resolveChannel quiet_env ''#Announcements'' acme (registry_state [] [acme])
           = (Inr announcements, s')
         \<and> issued (registry_state [] [acme]) s' = [ChannelsFetch ''1'']"
proof -
  have "\<exists>c s'. resolveChannel quiet_env ''#Announcements'' acme (registry_state [] [acme]) = (Inr c, s')
           \<and> c \<in> set (channels_fetched quiet_env acme) \<and> channel_matches ''#Announcements'' c
           \<and> issued (registry_state [] [acme]) s' = [ChannelsFetch (guild_id acme)]"
    by (rule C7_refresh_then_hit) (simp_all add: model channel_matches_def)
  then show ?thesis by (auto simp: model channel_matches_def)
qed

section \<open>Calls issued by the resolvers and by sending\<close>

declare match_chunks.simps [simp del]

lemma sends_append: "sends (xs @ ys) = sends xs @ sends ys"
  by (induction xs rule: sends.induct) simp_all

lemma sends_map_Send: "sends (map (\<lambda>c. Send i (f c)) cs) = map (\<lambda>c. (i, f c)) cs"
  by (induction cs) simp_all

lemma concat_match_chunks: "concat (match_chunks s) = s"
proof (induction s rule: match_chunks.induct)
  case (1 s)
  show ?case
  proof (cases "s = []")
    case True
    then show ?thesis by (simp add: match_chunks.simps)
  next
    case False
    with "1" show ?thesis by (subst match_chunks.simps) simp
  qed
qed

lemma match_chunks_bound: "c \<in> set (match_chunks s) \<Longrightarrow> length c \<le> 2000 \<and> c \<noteq> []"
proof (induction s rule: match_chunks.induct)
  case (1 s)
  show ?case
  proof (cases "s = []")
    case True
    with "1.prems" show ?thesis by (simp add: match_chunks.simps)
  next
    case False
    from "1.prems" False have "c = take 2000 s \<or> c \<in> set (match_chunks (drop 2000 s))"
      by (subst (asm) match_chunks.simps) simp
    with "1.IH" False show ?thesis by auto
  qed
qed

lemma match_chunks_two: "2000 < length s \<Longrightarrow> 2 \<le> length (match_chunks s)"
proof -
  assume l: "2000 < length s"
  then have a: "s \<noteq> []" and b: "drop 2000 s \<noteq> []" by auto
  have "match_chunks s = take 2000 s # take 2000 (drop 2000 s) # match_chunks (drop 2000 (drop 2000 s))"
    using a b by (subst match_chunks.simps, simp, subst match_chunks.simps, simp)
  then show ?thesis by simp
qed

lemma waitForDiscord_calls: "waitForDiscord e s = (r, s') \<Longrightarrow> calls s' = calls s"
  by (auto simp: waitForDiscord_def split: if_splits)

lemma channels_fetch_calls:
  "channels_fetch e guild s = (r, s') \<Longrightarrow> calls s' = calls s @ [ChannelsFetch (guild_id guild)]"
  by (auto simp: channels_fetch_def bind_io_def remote_def Let_def split: option.splits)

lemma resolveChannel_calls:
  assumes "resolveChannel e c guild s = (r, s')"
  shows "calls s' = calls s \<or> calls s' = calls s @ [ChannelsFetch (guild_id guild)]"
proof -
  obtain r1 s1 where f: "channels_fetch e guild s = (r1, s1)" by (cases "channels_fetch e guild s")
  have c1: "calls s1 = calls s @ [ChannelsFetch (guild_id guild)]"
    using f by (rule channels_fetch_calls)
  show ?thesis
  proof (cases r1)
    case (Inl err)
    then show ?thesis using assms f c1
      by (auto simp: resolveChannel_def Let_def return_io_def throw_def bind_io_def split: option.splits)
  next
    case (Inr g)
    then show ?thesis using assms f c1
      by (auto simp: resolveChannel_def Let_def return_io_def throw_def bind_io_def split: option.splits)
  qed
qed

lemma resolveChannelWithServer_calls:
  assumes "resolveChannelWithServer e channelArg serverArg s = (r, s')"
  shows "\<exists>cs. calls s' = calls s @ cs \<and> sends cs = []"
proof -
  have w: "\<And>r1 s1. waitForDiscord e s = (r1, s1) \<Longrightarrow> calls s1 = calls s"
    by (rule waitForDiscord_calls)
  have c: "\<And>c g s1 r2 s2. resolveChannel e c g s1 = (r2, s2) \<Longrightarrow>
      calls s2 = calls s1 \<or> calls s2 = calls s1 @ [ChannelsFetch (guild_id g)]"
    by (rule resolveChannel_calls)
  show ?thesis using assms
    unfolding resolveChannelWithServer_def bind_io_def sync_def
    by (auto split: prod.splits sum.splits option.splits dest!: w c)
qed

lemma send_result:
  "send e channel p s = (r, s') \<Longrightarrow>
     (calls s' = calls s \<and> (\<exists>err. r = Inl err))
     \<or> calls s' = calls s @ [Send (channel_id channel) p]"
  by (auto simp: send_def throw_def remote_def Let_def split: if_splits option.splits)

lemma send_ok:
  "send e channel p s = (Inr u, s') \<Longrightarrow> calls s' = calls s @ [Send (channel_id channel) p]"
  by (auto dest: send_result)

lemma send_each_ok:
  "send_each e channel cs s = (Inr u, s') \<Longrightarrow>
     calls s' = calls s @ map (\<lambda>c. Send (channel_id channel) (Content c)) cs"
proof (induction cs arbitrary: s)
  case Nil
  then show ?case by (simp add: return_io_def)
next
  case (Cons c cs)
  from Cons.prems obtain x s1 where
    1: "send e channel (Content c) s = (Inr x, s1)" and 2: "send_each e channel cs s1 = (Inr u, s')"
    by (auto elim: bind_io_InrE)
  from send_ok [OF 1] Cons.IH [OF 2] show ?case by simp
qed

lemma match_chunks_2001:
  "match_chunks (replicate 2001 x) = [replicate 2000 x, [x]]"
  by (subst match_chunks.simps, simp, subst match_chunks.simps, simp, subst match_chunks.simps, simp)

section \<open>The dispatch boundary\<close>

lemma CallTool_success:
  assumes "CallTool e req s = (r, s')" and "\<not> isError r"
  shows "tool_switch e req s = (Inr r, s')"
  using assms by (auto simp: CallTool_def split: prod.splits sum.splits)

lemma CallTool_failure:
  "tool_switch e req s = (Inl err, s') \<Longrightarrow>
     CallTool e req s = (\<lparr>content_text = Text (''Error: '' @ message err), isError = True\<rparr>, s')"
  by (simp add: CallTool_def)

lemma tool_switch_wait:
  assumes "waitForDiscord e s = (Inl err, s1)"
  shows "tool_switch e req s = (Inl err, s1)"
  using assms by (simp add: tool_switch_def bind_io_def Let_def)

lemma waitForDiscord_cases:
  obtains (timeout) err where "waitForDiscord e s = (Inl err, s)"
  | (ready) s1 where "waitForDiscord e s = (Inr (), s1)" and "calls s1 = calls s"
      and "discordReady s1"
proof (cases "discordReady s \<or> ready_in_time e")
  case True
  then have "\<exists>s1. waitForDiscord e s = (Inr (), s1) \<and> calls s1 = calls s \<and> discordReady s1"
    by (auto simp: waitForDiscord_def)
  then show ?thesis using ready by blast
next
  case False
  then have "waitForDiscord e s = (Inl (Error ''Discord client not ready (timeout)''), s)"
    by (simp add: waitForDiscord_def)
  then show ?thesis by (rule timeout)
qed

section \<open>Sending a message\<close>

text \<open>
  Claim C2.  When an invocation of the send-message tool with the message \<open>msg\<close> succeeds,
  the \<^verbatim>\<open>send\<close> calls it issued all go to one channel and carry, in order, the message itself
  when it has at most 2000 units and its chunks otherwise; a message of more than 2000 units
  has at least two chunks, each of at most 2000 units, and their concatenation is the message.
\<close>

theorem C2_message_chunks:
  assumes call: "CallTool e \<lparr>tool_name = ''discord_send_message'', arguments = Some a\<rparr> s = (r, s')"
    and msg: "arg_message a = Some msg"
    and ok: "\<not> isError r"
  shows "(\<exists>channel. sends (issued s s')
            = map (\<lambda>chunk. (channel, Content chunk))
                (if length msg \<le> 2000 then [msg] else match_chunks msg))
         \<and> (2000 < length msg \<longrightarrow>
              2 \<le> length (match_chunks msg)
              \<and> (\<forall>chunk\<in>set (match_chunks msg). length chunk \<le> 2000)
              \<and> concat (match_chunks msg) = msg)"
proof -
  let ?chunks = "if length msg \<le> 2000 then [msg] else match_chunks msg"
  from CallTool_success [OF call ok]
  have "bind_io (waitForDiscord e) (\<lambda>_. discord_send_message e (Some a)) s = (Inr r, s')"
    by (simp add: tool_switch_def)
  then obtain u s1 where w: "waitForDiscord e s = (Inr u, s1)"
    and t: "discord_send_message e (Some a) s1 = (Inr r, s')"
    by (rule bind_io_InrE)
  from t obtain channel s2 where
    c: "resolveChannelWithServer e (arg_channel a) (arg_server a) s1 = (Inr channel, s2)"
    and b: "bind_io (if length msg \<le> 2000 then send e channel (Content msg)
                     else send_each e channel (match_chunks msg))
              (\<lambda>_. return_io (text_reply (''Message'' @ sent_to channel))) s2 = (Inr r, s')"
    unfolding discord_send_message_def with_args_def by (auto simp: msg elim: bind_io_InrE)
  from b obtain v s3 where
    d: "(if length msg \<le> 2000 then send e channel (Content msg)
         else send_each e channel (match_chunks msg)) s2 = (Inr v, s3)"
    and "return_io (text_reply (''Message'' @ sent_to channel)) s3 = (Inr r, s')"
    by (rule bind_io_InrE)
  then have s3: "s3 = s'" by (simp add: return_io_def)
  from waitForDiscord_calls [OF w] have c1: "calls s1 = calls s" .
  from resolveChannelWithServer_calls [OF c] obtain pre where
    c2: "calls s2 = calls s1 @ pre" and pre: "sends pre = []" by blast
  have c3: "calls s3 = calls s2 @ map (\<lambda>chunk. Send (channel_id channel) (Content chunk)) ?chunks"
    using d by (auto dest: send_ok send_each_ok split: if_splits)
  have "issued s s' = pre @ map (\<lambda>chunk. Send (channel_id channel) (Content chunk)) ?chunks"
    using c1 c2 c3 s3 by (simp add: issued_def)
  then have "sends (issued s s') = map (\<lambda>chunk. (channel_id channel, Content chunk)) ?chunks"
    by (simp add: sends_append pre sends_map_Send)
  moreover have "2000 < length msg \<longrightarrow>
              2 \<le> length (match_chunks msg)
              \<and> (\<forall>chunk\<in>set (match_chunks msg). length chunk \<le> 2000)
              \<and> concat (match_chunks msg) = msg"
    by (auto simp: match_chunks_two concat_match_chunks dest: match_chunks_bound)
  ultimately show ?thesis by blast
qed

theorem C2_message_chunks_witness:
  "(\<exists>channel. sends (issued (registry_state [(''work'', ''1'')] [acme])
       (snd (CallTool quiet_env
          \<lparr>tool_name = ''discord_send_message'',
           arguments = Some (no_args\<lparr>arg_message := Some (replicate 2000 CHR ''x''),
                              arg_channel := Some ''#General''\<rparr>)\<rparr>
          (registry_state [(''work'', ''1'')] [acme]))))
     = [(channel, Content (replicate 2000 CHR ''x''))])
   \<and> (\<exists>channel. sends (issued (registry_state [(''work'', ''1'')] [acme])
       (snd (CallTool quiet_env
          \<lparr>tool_name = ''discord_send_message'',
           arguments = Some (no_args\<lparr>arg_message := Some (replicate 2001 CHR ''x''),
                              arg_channel := Some ''#General''\<rparr>)\<rparr>
          (registry_state [(''work'', ''1'')] [acme]))))
     = [(channel, Content (replicate 2000 CHR ''x'')), (channel, Content ''x'')])"
proof -
  let ?s = "registry_state [(''work'', ''1'')] [acme]"
  let ?a = "\<lambda>n. no_args\<lparr>arg_message := Some (replicate n CHR ''x''), arg_channel := Some ''#General''\<rparr>"
  let ?req = "\<lambda>n. \<lparr>tool_name = ''discord_send_message'', arguments = Some (?a n)\<rparr>"
  have r0: "\<not> isError (fst (CallTool quiet_env (?req 2000) ?s))"
    by (simp add: model)
  have r1: "\<not> isError (fst (CallTool quiet_env (?req 2001) ?s))"
    by (simp add: model match_chunks_2001)
  have m: "\<And>n. arg_message (?a n) = Some (replicate n CHR ''x'')"
    by (simp add: no_args_def)
  have p: "\<And>n. CallTool quiet_env (?req n) ?s
             = (fst (CallTool quiet_env (?req n) ?s), snd (CallTool quiet_env (?req n) ?s))"
    by simp
  from C2_message_chunks [OF p m r0] C2_message_chunks [OF p m r1]
  show ?thesis by (simp add: match_chunks_2001)
qed

section \<open>Sending code\<close>

lemma discord_send_code_long:
  assumes run: "discord_send_code e (Some a) s = (r, s')"
    and long: "2000 < length (case if_truthy (arg_title a) of
                   Some title \<Rightarrow> ''**'' @ title @ ''**\<newline>''
                                  @ formatCodeBlock (arg_code a) (or_empty (arg_language a))
                 | None \<Rightarrow> formatCodeBlock (arg_code a) (or_empty (arg_language a)))"
  shows "(\<exists>err pre. r = Inl err \<and> calls s' = calls s @ pre \<and> sends pre = [])
       \<or> (\<exists>pre channel code. arg_code a = Some code \<and> sends pre = []
            \<and> calls s' = calls s @ pre @
                 [Send channel
                    (Options (case if_truthy (arg_title a) of
                                Some title \<Rightarrow> Some (''**'' @ title @ ''**'')
                              | None \<Rightarrow> None)
                       []
                       [FromBuffer code
                          (''code'' @ (case if_truthy (arg_language a) of
                                         Some language \<Rightarrow> ''.'' @ language
                                       | None \<Rightarrow> ''.txt''))])])"
proof -
  obtain r1 s1 where c: "resolveChannelWithServer e (arg_channel a) (arg_server a) s = (r1, s1)"
    by (cases "resolveChannelWithServer e (arg_channel a) (arg_server a) s")
  from resolveChannelWithServer_calls [OF c] obtain pre where
    c1: "calls s1 = calls s @ pre" and pre: "sends pre = []" by blast
  show ?thesis
  proof (cases r1)
    case (Inl err)
    then have "discord_send_code e (Some a) s = (Inl err, s1)"
      using c by (simp add: discord_send_code_def with_args_def bind_io_def)
    then show ?thesis using run c1 pre by auto
  next
    case (Inr channel)
    show ?thesis
    proof (cases "arg_code a")
      case None
      then have "\<exists>err. discord_send_code e (Some a) s = (Inl err, s1)"
        using c Inr long
        by (simp add: discord_send_code_def with_args_def bind_io_def Let_def throw_def)
      then show ?thesis using run c1 pre by auto
    next
      case (Some code)
      let ?p = "Options (case if_truthy (arg_title a) of
                                Some title \<Rightarrow> Some (''**'' @ title @ ''**'')
                              | None \<Rightarrow> None)
                       []
                       [FromBuffer code
                          (''code'' @ (case if_truthy (arg_language a) of
                                         Some language \<Rightarrow> ''.'' @ language
                                       | None \<Rightarrow> ''.txt''))]"
      obtain r2 s2 where d: "send e channel ?p s1 = (r2, s2)"
        by (cases "send e channel ?p s1")
      have e: "discord_send_code e (Some a) s
                 = bind_io (send e channel ?p)
                     (\<lambda>_. return_io (text_reply (''Code snippet'' @ sent_to channel))) s1"
        using c Inr long Some
        by (simp add: discord_send_code_def with_args_def bind_io_def Let_def)
      from send_result [OF d] show ?thesis
      proof
        assume "calls s2 = calls s1 \<and> (\<exists>err. r2 = Inl err)"
        then show ?thesis using run e d c1 pre by (auto simp: bind_io_def)
      next
        assume f: "calls s2 = calls s1 @ [Send (channel_id channel) ?p]"
        have "s' = s2" using run e d by (cases r2) (auto simp: bind_io_def return_io_def)
        then have "calls s' = calls s @ pre @ [Send (channel_id channel) ?p]"
          using f c1 by simp
        then show ?thesis using Some pre by blast
      qed
    qed
  qed
qed

text \<open>
  Claim C3.  In an invocation of the send-code tool whose formatted message (the fenced code
  with its language tag, after the bolded title when one is given) has more than 2000 units,
  either no \<^verbatim>\<open>send\<close> call is issued and the reply is an error, or exactly one is issued, and it
  carries the title as content and a single attachment holding the raw code, named
  \<^verbatim>\<open>code.\<close> followed by the language, or \<^verbatim>\<open>code.txt\<close> without one.  A reply that is not an
  error therefore comes with exactly that one call.
\<close>

theorem C3_long_code_is_one_attachment:
  assumes call: "CallTool e \<lparr>tool_name = ''discord_send_code'', arguments = Some a\<rparr> s = (r, s')"
    and long: "2000 < length (case if_truthy (arg_title a) of
                   Some title \<Rightarrow> ''**'' @ title @ ''**\<newline>''
                                  @ formatCodeBlock (arg_code a) (or_empty (arg_language a))
                 | None \<Rightarrow> formatCodeBlock (arg_code a) (or_empty (arg_language a)))"
  shows "(isError r \<and> sends (issued s s') = [])
       \<or> (\<exists>channel code. arg_code a = Some code
            \<and> sends (issued s s') =
                 [(channel,
                   Options (case if_truthy (arg_title a) of
                              Some title \<Rightarrow> Some (''**'' @ title @ ''**'')
                            | None \<Rightarrow> None)
                     []
                     [FromBuffer code
                        (''code'' @ (case if_truthy (arg_language a) of
                                       Some language \<Rightarrow> ''.'' @ language
                                     | None \<Rightarrow> ''.txt''))])])"
proof (cases e s rule: waitForDiscord_cases)
  case (timeout err)
  from tool_switch_wait [OF this]
  have "tool_switch e \<lparr>tool_name = ''discord_send_code'', arguments = Some a\<rparr> s = (Inl err, s)" .
  with call have "isError r \<and> s' = s" by (auto simp: CallTool_def)
  then show ?thesis by (simp add: issued_def)
next
  case (ready s1)
  let ?p = "\<lambda>code. Options (case if_truthy (arg_title a) of
                              Some title \<Rightarrow> Some (''**'' @ title @ ''**'')
                            | None \<Rightarrow> None)
                     []
                     [FromBuffer code
                        (''code'' @ (case if_truthy (arg_language a) of
                                       Some language \<Rightarrow> ''.'' @ language
                                     | None \<Rightarrow> ''.txt''))]"
  from ready have sw: "tool_switch e \<lparr>tool_name = ''discord_send_code'', arguments = Some a\<rparr> s
                  = discord_send_code e (Some a) s1"
    by (simp add: tool_switch_def bind_io_def Let_def)
  obtain r1 s2 where run: "discord_send_code e (Some a) s1 = (r1, s2)"
    by (cases "discord_send_code e (Some a) s1")
  have s2: "s' = s2" using call sw run by (auto simp: CallTool_def split: sum.splits)
  from discord_send_code_long [OF run long] show ?thesis
  proof
    assume "\<exists>err pre. r1 = Inl err \<and> calls s2 = calls s1 @ pre \<and> sends pre = []"
    then obtain err pre where "r1 = Inl err" and p: "calls s2 = calls s1 @ pre" "sends pre = []"
      by blast
    then have "isError r" using call sw run by (auto simp: CallTool_def)
    moreover have "issued s s' = pre" using p ready s2 by (simp add: issued_def)
    ultimately show ?thesis using p by simp
  next
    assume "\<exists>pre channel code. arg_code a = Some code \<and> sends pre = []
            \<and> calls s2 = calls s1 @ pre @ [Send channel (?p code)]"
    then obtain pre channel code where c: "arg_code a = Some code" and p: "sends pre = []"
      and k: "calls s2 = calls s1 @ pre @ [Send channel (?p code)]"
      by blast
    have "issued s s' = pre @ [Send channel (?p code)]"
      using k ready s2 by (simp add: issued_def)
    then show ?thesis using c p by (simp add: sends_append)
  qed
qed

theorem C3_long_code_is_one_attachment_witness:
  "sends (issued (registry_state [(''work'', ''1'')] [acme])
       (snd (CallTool quiet_env
          \<lparr>tool_name = ''discord_send_code'',
           arguments = Some (no_args\<lparr>arg_code := Some (replicate 2001 CHR ''x''),
                              arg_language := Some ''py'', arg_title := Some ''T'',
                              arg_channel := Some ''general''\<rparr>)\<rparr>
          (registry_state [(''work'', ''1'')] [acme]))))
     = [(''100'', Options (Some ''**T**'') [] [FromBuffer (replicate 2001 CHR ''x'') ''code.py''])]
   \<and> \<not> isError (fst (CallTool quiet_env
          \<lparr>tool_name = ''discord_send_code'',
           arguments = Some (no_args\<lparr>arg_code := Some (replicate 2001 CHR ''x''),
                              arg_language := Some ''py'', arg_title := Some ''T'',
                              arg_channel := Some ''general''\<rparr>)\<rparr>
          (registry_state [(''work'', ''1'')] [acme])))"
proof -
  let ?s = "registry_state [(''work'', ''1'')] [acme]"
  let ?a = "no_args\<lparr>arg_code := Some (replicate 2001 CHR ''x''), arg_language := Some ''py'',
              arg_title := Some ''T'', arg_channel := Some ''general''\<rparr>"
  let ?req = "\<lparr>tool_name = ''discord_send_code'', arguments = Some ?a\<rparr>"
  have p: "CallTool quiet_env ?req ?s
             = (fst (CallTool quiet_env ?req ?s), snd (CallTool quiet_env ?req ?s))"
    by simp
  have l: "2000 < length (case if_truthy (arg_title ?a) of
                   Some title \<Rightarrow> ''**'' @ title @ ''**\<newline>''
                                  @ formatCodeBlock (arg_code ?a) (or_empty (arg_language ?a))
                 | None \<Rightarrow> formatCodeBlock (arg_code ?a) (or_empty (arg_language ?a)))"
    by (simp add: no_args_def formatCodeBlock_def)
  have r: "\<not> isError (fst (CallTool quiet_env ?req ?s))"
    by (simp add: model)
  have "sends (issued ?s (snd (CallTool quiet_env ?req ?s)))
          = [(''100'', Options (Some ''**T**'') [] [FromBuffer (replicate 2001 CHR ''x'') ''code.py''])]"
    by (simp add: model)
  with C3_long_code_is_one_attachment [OF p l] r show ?thesis by simp
qed

section \<open>Reading messages and listing members\<close>

lemma resolveChannelWithServer_fetches:
  assumes "resolveChannelWithServer e channelArg serverArg s = (r, s')"
  shows "calls s' = calls s \<or> (\<exists>g. calls s' = calls s @ [ChannelsFetch g])"
proof -
  have w: "\<And>r1 s1. waitForDiscord e s = (r1, s1) \<Longrightarrow> calls s1 = calls s"
    by (rule waitForDiscord_calls)
  have c: "\<And>c g s1 r2 s2. resolveChannel e c g s1 = (r2, s2) \<Longrightarrow>
      calls s2 = calls s1 \<or> calls s2 = calls s1 @ [ChannelsFetch (guild_id g)]"
    by (rule resolveChannel_calls)
  show ?thesis using assms
    unfolding resolveChannelWithServer_def bind_io_def sync_def
    by (auto split: prod.splits sum.splits option.splits dest!: w c)
qed

lemma discord_read_messages_ok:
  assumes "discord_read_messages e (Some a) s = (Inr r, s')"
  shows "\<exists>channel pre. (pre = [] \<or> (\<exists>g. pre = [ChannelsFetch g]))
           \<and> calls s' = calls s @ pre @ [MessagesFetch channel (min (or_default (arg_limit a) 10) 50)]
           \<and> r = json_reply []
                 (MessageRecords (map message_record
                    (rev (messages_fetched e channel (min (or_default (arg_limit a) 10) 50)))))"
proof -
  let ?lim = "min (or_default (arg_limit a) 10) 50"
  from assms obtain channel s1 where
    c: "resolveChannelWithServer e (arg_channel a) (arg_server a) s = (Inr channel, s1)"
    and b: "bind_io (messages_fetch e channel ?lim)
              (\<lambda>messages. return_io (json_reply [] (MessageRecords (map message_record (rev messages)))))
              s1 = (Inr r, s')"
    unfolding discord_read_messages_def with_args_def Let_def by (auto elim: bind_io_InrE)
  from b obtain messages s2 where
    f: "messages_fetch e channel ?lim s1 = (Inr messages, s2)"
    and r: "return_io (json_reply [] (MessageRecords (map message_record (rev messages)))) s2 = (Inr r, s')"
    by (rule bind_io_InrE)
  from f have m: "messages = messages_fetched e (channel_id channel) ?lim"
    and c2: "calls s2 = calls s1 @ [MessagesFetch (channel_id channel) ?lim]"
    by (auto simp: messages_fetch_def bind_io_def remote_def return_io_def throw_def Let_def
             split: if_splits option.splits)
  from resolveChannelWithServer_fetches [OF c]
  obtain pre where p: "pre = [] \<or> (\<exists>g. pre = [ChannelsFetch g])" and c1: "calls s1 = calls s @ pre"
    by auto
  from r have "s' = s2" and "r = json_reply [] (MessageRecords (map message_record (rev messages)))"
    by (auto simp: return_io_def)
  then show ?thesis using m c1 c2 p by auto
qed

lemma discord_list_members_ok:
  assumes "discord_list_members e (Some a) s = (Inr r, s')"
  shows "\<exists>guild. calls s' = calls s @ [MembersFetch guild None (min (or_default (arg_limit a) 50) 100)]"
  using assms
  unfolding discord_list_members_def with_args_def Let_def members_fetch_def
  by (auto simp: bind_io_def sync_def remote_def return_io_def Let_def
           split: prod.splits sum.splits option.splits)

lemma tool_switch_ready:
  assumes "waitForDiscord e s = (Inr u, s1)"
  shows "tool_switch e req s
           = (let name = tool_name req; args = arguments req in
              if name = ''discord_send_message'' then discord_send_message e args s1
              else if name = ''discord_send_code'' then discord_send_code e args s1
              else if name = ''discord_send_file'' then discord_send_file e args s1
              else if name = ''discord_send_image'' then discord_send_image e args s1
              else if name = ''discord_send_dm'' then discord_send_dm e args s1
              else if name = ''discord_list_channels'' then discord_list_channels e args s1
              else if name = ''discord_list_members'' then discord_list_members e args s1
              else if name = ''discord_list_servers'' then discord_list_servers s1
              else if name = ''discord_add_user_mapping'' then discord_add_user_mapping args s1
              else if name = ''discord_read_messages'' then discord_read_messages e args s1
              else throw (Error (''Unknown tool: '' @ name)) s1)"
  using assms by (simp add: tool_switch_def bind_io_def Let_def)

lemma tool_switch_InrE:
  assumes "tool_switch e req s = (Inr r, s')"
  obtains s1 where "waitForDiscord e s = (Inr (), s1)" and "calls s1 = calls s"
    and "tool_switch e req s = tool_switch e req s1" and "discordReady s1"
proof (cases e s rule: waitForDiscord_cases)
  case (timeout err)
  from tool_switch_wait [OF this] assms show ?thesis by simp
next
  case (ready s1)
  then have "waitForDiscord e s1 = (Inr (), s1)" by (simp add: waitForDiscord_def)
  then have "tool_switch e req s = tool_switch e req s1"
    using ready(1) by (simp add: tool_switch_ready)
  then show ?thesis using that ready by blast
qed

text \<open>
  Claim C8.  When an invocation of the read-messages tool succeeds, its last collaborator call
  is the message fetch, and the reply is the serialisation of the records of the fetched
  messages in reverse order, each holding the author's user name, the content, the ISO
  timestamp and the attachment URLs.  The fetch returns the newest message first, so the
  records are in ascending order of time.
\<close>

theorem C8_oldest_first:
  assumes call: "CallTool e \<lparr>tool_name = ''discord_read_messages'', arguments = Some a\<rparr> s = (r, s')"
    and ok: "\<not> isError r"
  shows "\<exists>channel limit fetched.
           last (issued s s') = MessagesFetch channel limit
           \<and> fetched = messages_fetched e channel limit
           \<and> content_text r = TextJSON []
               (MessageRecords
                  (map (\<lambda>m. \<lparr>msg_author = username (author m), msg_content = message_content m,
                              msg_timestamp = toISOString (createdAt m),
                              msg_attachments = attachment_urls m\<rparr>)
                     (rev fetched)))
           \<and> (sorted_wrt (\<lambda>m n. createdAt m \<ge> createdAt n) fetched \<longrightarrow>
                sorted_wrt (\<lambda>m n. createdAt m \<le> createdAt n) (rev fetched))"
proof -
  from CallTool_success [OF call ok]
  have t: "tool_switch e \<lparr>tool_name = ''discord_read_messages'', arguments = Some a\<rparr> s = (Inr r, s')" .
  then obtain s1 where w: "waitForDiscord e s = (Inr (), s1)" and c1: "calls s1 = calls s"
    by (rule tool_switch_InrE)
  from t have "discord_read_messages e (Some a) s1 = (Inr r, s')"
    by (simp add: tool_switch_ready [OF w])
  from discord_read_messages_ok [OF this] obtain channel pre where
    c2: "calls s' = calls s1 @ pre @ [MessagesFetch channel (min (or_default (arg_limit a) 10) 50)]"
    and r: "r = json_reply []
                 (MessageRecords (map message_record
                    (rev (messages_fetched e channel (min (or_default (arg_limit a) 10) 50)))))"
    by blast
  have "issued s s' = pre @ [MessagesFetch channel (min (or_default (arg_limit a) 10) 50)]"
    using c1 c2 by (simp add: issued_def)
  then have "last (issued s s') = MessagesFetch channel (min (or_default (arg_limit a) 10) 50)"
    by simp
  moreover have "content_text r = TextJSON []
               (MessageRecords
                  (map (\<lambda>m. \<lparr>msg_author = username (author m), msg_content = message_content m,
                              msg_timestamp = toISOString (createdAt m),
                              msg_attachments = attachment_urls m\<rparr>)
                     (rev (messages_fetched e channel (min (or_default (arg_limit a) 10) 50)))))"
    using r by (simp add: json_reply_def message_record_def)
  moreover have "\<And>fetched. sorted_wrt (\<lambda>m n. createdAt m \<ge> createdAt n) fetched \<longrightarrow>
                sorted_wrt (\<lambda>m n. createdAt m \<le> createdAt n) (rev fetched)"
    by (simp add: sorted_wrt_rev)
  ultimately show ?thesis by blast
qed

theorem C8_oldest_first_witness:
  "content_text (fst (CallTool quiet_env
       \<lparr>tool_name = ''discord_read_messages'',
        arguments = Some (no_args\<lparr>arg_channel := Some ''general''\<rparr>)\<rparr>
       (registry_state [(''work'', ''1'')] [acme])))
     = TextJSON []
         (MessageRecords
            [\<lparr>msg_author = ''alice'', msg_content = ''first'', msg_timestamp = toISOString 1000,
              msg_attachments = []\<rparr>,
             \<lparr>msg_author = ''alice'', msg_content = ''second'', msg_timestamp = toISOString 2000,
              msg_attachments = [''https://cdn.example/a.png'']\<rparr>])
   \<and> messages_fetched quiet_env ''100'' 10 = [newer, older]
   \<and> createdAt older < createdAt newer"
proof -
  let ?s = "registry_state [(''work'', ''1'')] [acme]"
  let ?req = "\<lparr>tool_name = ''discord_read_messages'',
                arguments = Some (no_args\<lparr>arg_channel := Some ''general''\<rparr>)\<rparr>"
  have p: "CallTool quiet_env ?req ?s
             = (fst (CallTool quiet_env ?req ?s), snd (CallTool quiet_env ?req ?s))"
    by simp
  have r: "\<not> isError (fst (CallTool quiet_env ?req ?s))"
    by (simp add: model)
  have i: "issued ?s (snd (CallTool quiet_env ?req ?s)) = [MessagesFetch ''100'' 10]"
    by (simp add: model)
  from C8_oldest_first [OF p r] obtain channel limit where
    "last (issued ?s (snd (CallTool quiet_env ?req ?s))) = MessagesFetch channel limit"
    and c: "content_text (fst (CallTool quiet_env ?req ?s)) = TextJSON []
               (MessageRecords
                  (map (\<lambda>m. \<lparr>msg_author = username (author m), msg_content = message_content m,
                              msg_timestamp = toISOString (createdAt m),
                              msg_attachments = attachment_urls m\<rparr>)
                     (rev (messages_fetched quiet_env channel limit))))"
    by blast
  then have "channel = ''100''" and "limit = 10" using i by simp_all
  with c show ?thesis by (simp add: quiet_env_def newer_def older_def alice_def)
qed

text \<open>
  Claim C10.  For the list-members and the read-messages tool, an invocation with the limit 0
  gives the reply and the state of the invocation without a limit; when it succeeds, the member
  fetch it issued has the limit 50 and the message fetch the limit 10.
\<close>

theorem C10_zero_limit_is_default:
  "CallTool e \<lparr>tool_name = ''discord_list_members'', arguments = Some (a\<lparr>arg_limit := Some 0\<rparr>)\<rparr> s
     = CallTool e \<lparr>tool_name = ''discord_list_members'', arguments = Some (a\<lparr>arg_limit := None\<rparr>)\<rparr> s
   \<and> CallTool e \<lparr>tool_name = ''discord_read_messages'', arguments = Some (a\<lparr>arg_limit := Some 0\<rparr>)\<rparr> s
     = CallTool e \<lparr>tool_name = ''discord_read_messages'', arguments = Some (a\<lparr>arg_limit := None\<rparr>)\<rparr> s
   \<and> (\<forall>r s'. CallTool e \<lparr>tool_name = ''discord_list_members'',
                         arguments = Some (a\<lparr>arg_limit := Some 0\<rparr>)\<rparr> s = (r, s')
               \<and> \<not> isError r
         \<longrightarrow> (\<exists>guild. issued s s' = [MembersFetch guild None 50]))
   \<and> (\<forall>r s'. CallTool e \<lparr>tool_name = ''discord_read_messages'',
                         arguments = Some (a\<lparr>arg_limit := Some 0\<rparr>)\<rparr> s = (r, s')
               \<and> \<not> isError r
         \<longrightarrow> (\<exists>channel. last (issued s s') = MessagesFetch channel 10))"
proof -
  have m: "discord_list_members e (Some (a\<lparr>arg_limit := Some 0\<rparr>))
             = discord_list_members e (Some (a\<lparr>arg_limit := None\<rparr>))"
    by (simp add: discord_list_members_def with_args_def)
  have d: "discord_read_messages e (Some (a\<lparr>arg_limit := Some 0\<rparr>))
             = discord_read_messages e (Some (a\<lparr>arg_limit := None\<rparr>))"
    by (simp add: discord_read_messages_def with_args_def)
  have 1: "CallTool e \<lparr>tool_name = ''discord_list_members'', arguments = Some (a\<lparr>arg_limit := Some 0\<rparr>)\<rparr> s
     = CallTool e \<lparr>tool_name = ''discord_list_members'', arguments = Some (a\<lparr>arg_limit := None\<rparr>)\<rparr> s"
    by (simp add: CallTool_def tool_switch_def m)
  have 2: "CallTool e \<lparr>tool_name = ''discord_read_messages'', arguments = Some (a\<lparr>arg_limit := Some 0\<rparr>)\<rparr> s
     = CallTool e \<lparr>tool_name = ''discord_read_messages'', arguments = Some (a\<lparr>arg_limit := None\<rparr>)\<rparr> s"
    by (simp add: CallTool_def tool_switch_def d)
  have 3: "\<exists>guild. issued s s' = [MembersFetch guild None 50]"
    if call: "CallTool e \<lparr>tool_name = ''discord_list_members'',
                         arguments = Some (a\<lparr>arg_limit := Some 0\<rparr>)\<rparr> s = (r, s')"
      and ok: "\<not> isError r" for r s'
  proof -
    from CallTool_success [OF call ok]
    have t: "tool_switch e \<lparr>tool_name = ''discord_list_members'',
                         arguments = Some (a\<lparr>arg_limit := Some 0\<rparr>)\<rparr> s = (Inr r, s')" .
    then obtain s1 where w: "waitForDiscord e s = (Inr (), s1)" and c1: "calls s1 = calls s"
      by (rule tool_switch_InrE)
    from t have "discord_list_members e (Some (a\<lparr>arg_limit := Some 0\<rparr>)) s1 = (Inr r, s')"
      by (simp add: tool_switch_ready [OF w])
    from discord_list_members_ok [OF this] c1 show ?thesis by (auto simp: issued_def)
  qed
  have 4: "\<exists>channel. last (issued s s') = MessagesFetch channel 10"
    if call: "CallTool e \<lparr>tool_name = ''discord_read_messages'',
                         arguments = Some (a\<lparr>arg_limit := Some 0\<rparr>)\<rparr> s = (r, s')"
      and ok: "\<not> isError r" for r s'
  proof -
    from CallTool_success [OF call ok]
    have t: "tool_switch e \<lparr>tool_name = ''discord_read_messages'',
                         arguments = Some (a\<lparr>arg_limit := Some 0\<rparr>)\<rparr> s = (Inr r, s')" .
    then obtain s1 where w: "waitForDiscord e s = (Inr (), s1)" and c1: "calls s1 = calls s"
      by (rule tool_switch_InrE)
    from t have "discord_read_messages e (Some (a\<lparr>arg_limit := Some 0\<rparr>)) s1 = (Inr r, s')"
      by (simp add: tool_switch_ready [OF w])
    from discord_read_messages_ok [OF this] c1 show ?thesis by (auto simp: issued_def)
  qed
  from 1 2 3 4 show ?thesis by blast
qed

theorem C10_zero_limit_is_default_witness:
  "issued (registry_state [(''work'', ''1'')] [acme])
     (snd (CallTool quiet_env
        \<lparr>tool_name = ''discord_list_members'', arguments = Some (no_args\<lparr>arg_limit := Some 0\<rparr>)\<rparr>
        (registry_state [(''work'', ''1'')] [acme])))
     = [MembersFetch ''1'' None 50]
   \<and> issued (registry_state [(''work'', ''1'')] [acme])
     (snd (CallTool quiet_env
        \<lparr>tool_name = ''discord_read_messages'',
         arguments = Some (no_args\<lparr>arg_channel := Some ''general'', arg_limit := Some 0\<rparr>)\<rparr>
        (registry_state [(''work'', ''1'')] [acme])))
     = [MessagesFetch ''100'' 10]"
proof -
  let ?s = "registry_state [(''work'', ''1'')] [acme]"
  let ?m = "\<lparr>tool_name = ''discord_list_members'', arguments = Some (no_args\<lparr>arg_limit := Some 0\<rparr>)\<rparr>"
  let ?d = "\<lparr>tool_name = ''discord_read_messages'',
         arguments = Some (no_args\<lparr>arg_channel := Some ''general'', arg_limit := Some 0\<rparr>)\<rparr>"
  have pm: "CallTool quiet_env ?m ?s = (fst (CallTool quiet_env ?m ?s), snd (CallTool quiet_env ?m ?s))"
    by simp
  have pd: "CallTool quiet_env ?d ?s = (fst (CallTool quiet_env ?d ?s), snd (CallTool quiet_env ?d ?s))"
    by simp
  have rm: "\<not> isError (fst (CallTool quiet_env ?m ?s))" by (simp add: model)
  have rd: "\<not> isError (fst (CallTool quiet_env ?d ?s))" by (simp add: model)
  have im: "length (issued ?s (snd (CallTool quiet_env ?m ?s))) = 1
            \<and> (\<forall>g. issued ?s (snd (CallTool quiet_env ?m ?s)) = [MembersFetch g None 50] \<longrightarrow> g = ''1'')"
    by (simp add: model)
  have id: "issued ?s (snd (CallTool quiet_env ?d ?s)) = [MessagesFetch ''100'' 10]"
    by (simp add: model)
  from C10_zero_limit_is_default [of quiet_env no_args ?s] pm rm
  have "\<exists>guild. issued ?s (snd (CallTool quiet_env ?m ?s)) = [MembersFetch guild None 50]"
    by blast
  with im id show ?thesis by auto
qed

section \<open>Errors at the dispatch boundary\<close>

lemma resolveGuild_errors:
  assumes "resolveGuild s (Some alias) = Inl err" and "alias \<noteq> []"
  shows \<open>(\<exists>g. err = Error (''Guild alias "'' @ alias @ ''" ('' @ g @ '') not found''))
         \<or> err = Error (''Server "'' @ alias @ ''" not found. Available: ''
                         @ join '', '' (map fst (GUILDS s)))\<close>
  using assms by (auto simp: resolveGuild_def Let_def split: option.splits if_splits)

lemma resolveGuild_error_names_alias:
  assumes "resolveGuild s (Some alias) = Inl err"
  shows "sublist alias (message err)"
proof (cases "alias = []")
  case True
  then show ?thesis by simp
next
  case False
  from resolveGuild_errors [OF assms False] show ?thesis
  proof (elim disjE exE)
    fix g
    assume \<open>err = Error (''Guild alias "'' @ alias @ ''" ('' @ g @ '') not found'')\<close>
    then have \<open>message err = ''Guild alias "'' @ alias @ ''" ('' @ g @ '') not found''\<close> by simp
    then show ?thesis by (simp only: sublist_appendI)
  next
    assume \<open>err = Error (''Server "'' @ alias @ ''" not found. Available: ''
                         @ join '', '' (map fst (GUILDS s)))\<close>
    then have \<open>message err = ''Server "'' @ alias @ ''" not found. Available: ''
                         @ join '', '' (map fst (GUILDS s))\<close> by simp
    then show ?thesis by (simp only: sublist_appendI)
  qed
qed

lemma resolveChannel_errors:
  assumes "resolveChannel e c guild s = (Inl err, s')"
  shows \<open>err = Error (''Channel "'' @ c @ ''" not found in '' @ guild_name guild)
         \<or> (\<exists>m. err = RemoteError m \<and> failure e (calls s) (ChannelsFetch (guild_id guild)) = Some m)\<close>
  using assms
  by (auto simp: resolveChannel_def channels_fetch_def remote_def Let_def return_io_def throw_def
        bind_io_def split: option.splits prod.splits sum.splits)

lemma try_catch_users_fetch:
  "try_catch (users_fetch e i) (\<lambda>_. throw err0) s = (Inl err, s') \<Longrightarrow> err = err0"
  by (auto simp: try_catch_def throw_def users_fetch_def bind_io_def return_io_def
        split: prod.splits sum.splits)

lemma resolveUser_ready:
  assumes "discordReady s"
  shows \<open>resolveUser e (Some n) s =
     (case if_truthy (mappings_get (USER_MAPPINGS s) (toLowerCase n)) of
        Some mappedId \<Rightarrow>
          try_catch (users_fetch e mappedId)
            (\<lambda>_. throw (Error (''Mapped user "'' @ n @ ''" (ID: '' @ mappedId
                           @ '') not found''))) s
      | None \<Rightarrow>
          if all_digits n then
            try_catch (users_fetch e n)
              (\<lambda>_. throw (Error (''User with ID '' @ n @ '' not found''))) s
          else search_guilds e n (map snd (GUILDS s)) s)\<close>
proof -
  have "waitForDiscord e s = (Inr (), s)" using assms by (simp add: waitForDiscord_def)
  then show ?thesis unfolding resolveUser_def by (simp only: bind_io_Inr option.case)
qed

lemma bind_io_returns:
  assumes "bind_io m f s = (Inr r, s')" and "\<And>x s1. f x s1 = (Inr r, s') \<Longrightarrow> P"
  shows P
  using assms by (auto elim: bind_io_InrE)

lemma with_args_returns:
  assumes "with_args args p f s = (Inr r, s')" and "\<And>a. f a s = (Inr r, s') \<Longrightarrow> P"
  shows P
  using assms by (cases args) (auto simp: with_args_def throw_def)

lemma return_io_text: "return_io (text_reply t) s = (Inr r, s') \<Longrightarrow> \<not> isError r"
  by (auto simp: return_io_def text_reply_def)

lemma return_io_json: "return_io (json_reply t v) s = (Inr r, s') \<Longrightarrow> \<not> isError r"
  by (auto simp: return_io_def json_reply_def)

lemma discord_send_message_reply:
  "discord_send_message e args s = (Inr r, s') \<Longrightarrow> \<not> isError r"
  unfolding discord_send_message_def
  by (erule with_args_returns, erule bind_io_returns)
     (auto simp: throw_def split: option.splits elim!: bind_io_returns dest: return_io_text)

lemma discord_send_code_reply:
  "discord_send_code e args s = (Inr r, s') \<Longrightarrow> \<not> isError r"
  unfolding discord_send_code_def Let_def
  by (erule with_args_returns, erule bind_io_returns, erule bind_io_returns)
     (rule return_io_text)

lemma discord_send_file_reply:
  "discord_send_file e args s = (Inr r, s') \<Longrightarrow> \<not> isError r"
  unfolding discord_send_file_def Let_def
  by (erule with_args_returns, erule bind_io_returns)
     (auto simp: throw_def split: if_splits elim!: bind_io_returns dest: return_io_text)

lemma discord_send_image_reply:
  "discord_send_image e args s = (Inr r, s') \<Longrightarrow> \<not> isError r"
  unfolding discord_send_image_def Let_def
  by (erule with_args_returns, erule bind_io_returns)
     (auto simp: throw_def split: if_splits option.splits elim!: bind_io_returns
           dest: return_io_text)

lemma discord_send_dm_reply:
  "discord_send_dm e args s = (Inr r, s') \<Longrightarrow> \<not> isError r"
  unfolding discord_send_dm_def Let_def
  by (erule with_args_returns, (erule bind_io_returns)+) (rule return_io_text)

lemma discord_list_channels_reply:
  "discord_list_channels e args s = (Inr r, s') \<Longrightarrow> \<not> isError r"
  unfolding discord_list_channels_def Let_def
  by (erule with_args_returns, (erule bind_io_returns)+) (rule return_io_json)

lemma discord_list_members_reply:
  "discord_list_members e args s = (Inr r, s') \<Longrightarrow> \<not> isError r"
  unfolding discord_list_members_def Let_def
  by (erule with_args_returns, (erule bind_io_returns)+) (rule return_io_json)

lemma discord_list_servers_reply:
  "discord_list_servers s = (Inr r, s') \<Longrightarrow> \<not> isError r"
  by (auto simp: discord_list_servers_def json_reply_def)

lemma discord_add_user_mapping_reply:
  "discord_add_user_mapping args s = (Inr r, s') \<Longrightarrow> \<not> isError r"
  unfolding discord_add_user_mapping_def
  by (erule with_args_returns) (auto simp: throw_def text_reply_def split: option.splits)

lemma discord_read_messages_reply:
  "discord_read_messages e args s = (Inr r, s') \<Longrightarrow> \<not> isError r"
  unfolding discord_read_messages_def Let_def
  by (erule with_args_returns, (erule bind_io_returns)+) (rule return_io_json)

lemmas tool_replies = discord_send_message_reply discord_send_code_reply discord_send_file_reply
  discord_send_image_reply discord_send_dm_reply discord_list_channels_reply
  discord_list_members_reply discord_list_servers_reply discord_add_user_mapping_reply
  discord_read_messages_reply

lemma tool_switch_reply:
  assumes "tool_switch e req s = (Inr r, s')"
  shows "\<not> isError r"
proof -
  from assms obtain s1 where w: "waitForDiscord e s = (Inr (), s1)"
    by (rule tool_switch_InrE)
  from assms show ?thesis
    unfolding tool_switch_ready [OF w] Let_def
    by (auto simp: throw_def split: if_splits dest: tool_replies)
qed

lemma CallTool_isError_iff:
  "isError (fst (CallTool e req s)) = (\<exists>err. fst (tool_switch e req s) = Inl err)"
proof (cases "tool_switch e req s")
  case (Pair r0 s')
  show ?thesis
  proof (cases r0)
    case (Inl err)
    with Pair show ?thesis by (simp add: CallTool_def)
  next
    case (Inr r)
    with Pair tool_switch_reply [of e req s r s'] show ?thesis by (simp add: CallTool_def)
  qed
qed

lemma tool_switch_timeout:
  assumes "\<not> discordReady s" and "\<not> ready_in_time e"
  shows "tool_switch e req s = (Inl (Error ''Discord client not ready (timeout)''), s)"
  by (rule tool_switch_wait) (simp add: waitForDiscord_def assms)

lemma tool_switch_unknown:
  assumes "discordReady s \<or> ready_in_time e" and "tool_name req \<notin> set tool_names"
  shows "fst (tool_switch e req s) = Inl (Error (''Unknown tool: '' @ tool_name req))"
proof -
  from assms(1) have "\<exists>s1. waitForDiscord e s = (Inr (), s1)"
    by (auto simp: waitForDiscord_def)
  then obtain s1 where w: "waitForDiscord e s = (Inr (), s1)" by blast
  from assms(2) show ?thesis
    unfolding tool_switch_ready [OF w] Let_def by (simp add: tool_names_def throw_def)
qed

text \<open>
  The tools relay the failures of the calls they issue.  The user resolver does not: it catches
  the error of the user lookup by ID and throws its own, which names the user queried.
\<close>

lemma first_failure_append:
  "first_failure e h cs = None \<Longrightarrow> first_failure e h (cs @ ds) = first_failure e (h @ cs) ds"
  by (induction cs arbitrary: h) (auto split: option.splits)

lemma relaysD:
  assumes "relays e m" and "m s = (r, s')"
  obtains cs where "calls s' = calls s @ cs"
    and "\<And>c msg. first_failure e (calls s) cs = Some (c, msg) \<Longrightarrow>
           r = Inl (RemoteError msg) \<and> (\<forall>i. c \<noteq> UsersFetch i)"
  using assms unfolding relays_def by blast

lemma relaysI:
  assumes "\<And>s r s'. m s = (r, s') \<Longrightarrow>
     \<exists>cs. calls s' = calls s @ cs
        \<and> (\<forall>c msg. first_failure e (calls s) cs = Some (c, msg) \<longrightarrow>
              r = Inl (RemoteError msg) \<and> (\<forall>i. c \<noteq> UsersFetch i))"
  shows "relays e m"
  using assms unfolding relays_def by blast

lemma relays_silent:
  assumes "\<And>s r s'. m s = (r, s') \<Longrightarrow> calls s' = calls s"
  shows "relays e m"
proof (rule relaysI)
  fix s r s'
  assume "m s = (r, s')"
  then have "calls s' = calls s @ []" using assms by simp
  moreover have "\<forall>c msg. first_failure e (calls s) [] = Some (c, msg) \<longrightarrow>
              r = Inl (RemoteError msg) \<and> (\<forall>i. c \<noteq> UsersFetch i)" by simp
  ultimately show "\<exists>cs. calls s' = calls s @ cs
        \<and> (\<forall>c msg. first_failure e (calls s) cs = Some (c, msg) \<longrightarrow>
              r = Inl (RemoteError msg) \<and> (\<forall>i. c \<noteq> UsersFetch i))" by blast
qed

lemma relays_return: "relays e (return_io x)"
  by (rule relays_silent) (simp add: return_io_def)

lemma relays_throw: "relays e (throw err)"
  by (rule relays_silent) (simp add: throw_def)

lemma relays_sync: "relays e (sync f)"
  by (rule relays_silent) (auto simp: sync_def)

lemma relays_wait: "relays e (waitForDiscord e)"
  by (rule relays_silent) (rule waitForDiscord_calls)

lemma relays_remote:
  assumes "(\<forall>i. c \<noteq> UsersFetch i)"
  shows "relays e (remote e c)"
proof (rule relaysI)
  fix s r s'
  assume "remote e c s = (r, s')"
  then have "calls s' = calls s @ [c]"
    and "\<forall>c' msg. first_failure e (calls s) [c] = Some (c', msg) \<longrightarrow>
              r = Inl (RemoteError msg) \<and> (\<forall>i. c' \<noteq> UsersFetch i)"
    using assms by (auto simp: remote_def Let_def split: option.splits)
  then show "\<exists>cs. calls s' = calls s @ cs
        \<and> (\<forall>c msg. first_failure e (calls s) cs = Some (c, msg) \<longrightarrow>
              r = Inl (RemoteError msg) \<and> (\<forall>i. c \<noteq> UsersFetch i))" by blast
qed

lemma relays_bind:
  assumes "relays e m" and "\<And>x. relays e (f x)"
  shows "relays e (bind_io m f)"
proof (rule relaysI)
  fix s r s'
  assume b: "bind_io m f s = (r, s')"
  obtain r1 s1 where m: "m s = (r1, s1)" by (cases "m s")
  from relaysD [OF assms(1) m] obtain cs where
    c1: "calls s1 = calls s @ cs"
    and f1: "\<And>c msg. first_failure e (calls s) cs = Some (c, msg) \<Longrightarrow>
           r1 = Inl (RemoteError msg) \<and> (\<forall>i. c \<noteq> UsersFetch i)" by blast
  show "\<exists>cs. calls s' = calls s @ cs
        \<and> (\<forall>c msg. first_failure e (calls s) cs = Some (c, msg) \<longrightarrow>
              r = Inl (RemoteError msg) \<and> (\<forall>i. c \<noteq> UsersFetch i))"
  proof (cases r1)
    case (Inl err)
    with b m have r: "r = Inl err" and "s' = s1" by (simp_all add: bind_io_def)
    moreover have "r = Inl (RemoteError msg) \<and> (\<forall>i. c \<noteq> UsersFetch i)"
      if "first_failure e (calls s) cs = Some (c, msg)" for c msg
      using f1 [OF that] Inl r by simp
    ultimately show ?thesis using c1 by blast
  next
    case (Inr x)
    with b m have fx: "f x s1 = (r, s')" by (simp add: bind_io_def)
    from relaysD [OF assms(2) fx] obtain ds where
      c2: "calls s' = calls s1 @ ds"
      and f2: "\<And>c msg. first_failure e (calls s1) ds = Some (c, msg) \<Longrightarrow>
           r = Inl (RemoteError msg) \<and> (\<forall>i. c \<noteq> UsersFetch i)" by blast
    have "first_failure e (calls s) cs = None"
    proof (cases "first_failure e (calls s) cs")
      case None
      then show ?thesis .
    next
      case (Some p)
      then have "first_failure e (calls s) cs = Some (fst p, snd p)" by simp
      from f1 [OF this] Inr show ?thesis by simp
    qed
    then have "first_failure e (calls s) (cs @ ds) = first_failure e (calls s1) ds"
      using c1 by (simp add: first_failure_append)
    moreover have "calls s' = calls s @ (cs @ ds)" using c1 c2 by simp
    ultimately show ?thesis using f2 by metis
  qed
qed

lemma relays_with_args: "(\<And>a. relays e (f a)) \<Longrightarrow> relays e (with_args args p f)"
  by (cases args) (simp_all add: with_args_def relays_throw)

lemma relays_if: "relays e a \<Longrightarrow> relays e b \<Longrightarrow> relays e (if c then a else b)"
  by simp

lemma relays_option:
  "relays e a \<Longrightarrow> (\<And>x. relays e (b x)) \<Longrightarrow> relays e (case v of None \<Rightarrow> a | Some x \<Rightarrow> b x)"
  by (cases v) simp_all

lemma relays_state: "(\<And>s0. relays e (f s0)) \<Longrightarrow> relays e (\<lambda>s. f s s)"
  by (simp add: relays_def)

lemmas rl = relays_return relays_throw relays_bind relays_sync relays_wait relays_with_args
  relays_if relays_option

lemma relays_channels_fetch: "relays e (channels_fetch e guild)"
  unfolding channels_fetch_def
  by (rule relays_bind [OF relays_remote])
     (simp_all, rule relays_silent, simp add: Let_def)

lemma relays_resolveChannel: "relays e (resolveChannel e c guild)"
  unfolding resolveChannel_def Let_def by (intro rl relays_channels_fetch)

lemma relays_resolveChannelWithServer: "relays e (resolveChannelWithServer e c v)"
  unfolding resolveChannelWithServer_def
  by (intro rl relays_resolveChannel, rule relays_silent) (auto split: option.splits)

lemma relays_members_fetch: "relays e (members_fetch e g q l)"
  unfolding members_fetch_def by (intro rl relays_remote) simp

lemma relays_search_guilds: "relays e (search_guilds e n gs)"
proof (induction gs)
  case Nil
  show ?case by (simp add: relays_throw)
next
  case (Cons g gs)
  have "relays e (\<lambda>s. (case guilds_get (guilds_cache s) (Some g) of
       None \<Rightarrow> search_guilds e n gs
     | Some guild \<Rightarrow>
         bind_io (members_fetch e guild (Some n) 5) (\<lambda>members.
           case find (member_matches n) members of
             Some m \<Rightarrow> return_io (member_user m)
           | None \<Rightarrow> search_guilds e n gs)) s)"
    by (rule relays_state) (intro rl relays_members_fetch Cons.IH)
  moreover have "search_guilds e n (g # gs) = (\<lambda>s. (case guilds_get (guilds_cache s) (Some g) of
       None \<Rightarrow> search_guilds e n gs
     | Some guild \<Rightarrow>
         bind_io (members_fetch e guild (Some n) 5) (\<lambda>members.
           case find (member_matches n) members of
             Some m \<Rightarrow> return_io (member_user m)
           | None \<Rightarrow> search_guilds e n gs)) s)"
    by (auto simp: fun_eq_iff split: option.splits)
  ultimately show ?case by simp
qed

lemma relays_send: "relays e (send e channel p)"
  unfolding send_def by (intro rl relays_remote) simp

lemma relays_send_each: "relays e (send_each e channel cs)"
  by (induction cs) (auto intro!: rl relays_send)

lemma relays_createDM: "relays e (createDM e u)"
  unfolding createDM_def by (intro rl relays_remote) simp

lemma relays_messages_fetch: "relays e (messages_fetch e c l)"
  unfolding messages_fetch_def by (intro rl relays_remote) simp

lemmas rl_all = rl relays_channels_fetch relays_resolveChannel relays_resolveChannelWithServer
  relays_members_fetch relays_search_guilds relays_send relays_send_each relays_createDM
  relays_messages_fetch

lemma relays_send_message: "relays e (discord_send_message e args)"
  unfolding discord_send_message_def by (intro rl_all)

lemma relays_send_code: "relays e (discord_send_code e args)"
  unfolding discord_send_code_def Let_def by (intro rl_all)

lemma relays_send_file: "relays e (discord_send_file e args)"
  unfolding discord_send_file_def Let_def by (intro rl_all)

lemma relays_send_image: "relays e (discord_send_image e args)"
  unfolding discord_send_image_def Let_def by (intro rl_all)

lemma relays_list_channels: "relays e (discord_list_channels e args)"
  unfolding discord_list_channels_def Let_def by (intro rl_all)

lemma relays_list_members: "relays e (discord_list_members e args)"
  unfolding discord_list_members_def Let_def by (intro rl_all)

lemma relays_list_servers: "relays e discord_list_servers"
  by (rule relays_silent) (auto simp: discord_list_servers_def)

lemma relays_add_user_mapping: "relays e (discord_add_user_mapping args)"
  by (rule relays_silent)
     (auto simp: discord_add_user_mapping_def with_args_def throw_def split: option.splits)

lemma relays_read_messages: "relays e (discord_read_messages e args)"
  unfolding discord_read_messages_def Let_def by (intro rl_all)

lemma try_catch_users_fetch_run:
  assumes "try_catch (users_fetch e i) (\<lambda>_. throw err0) s = (r, s')"
  shows "calls s' = calls s @ [UsersFetch i]
         \<and> (\<forall>m. failure e (calls s) (UsersFetch i) = Some m \<longrightarrow> r = Inl err0)"
  using assms
  by (auto simp: try_catch_def throw_def users_fetch_def bind_io_def return_io_def remote_def
        Let_def split: option.splits)

lemma waitForDiscord_ready:
  assumes "waitForDiscord e s = (Inr u, s1)"
  shows "discordReady s1" and "calls s1 = calls s" and "USER_MAPPINGS s1 = USER_MAPPINGS s"
    and "waitForDiscord e s1 = (Inr (), s1)"
  using assms by (auto simp: waitForDiscord_def split: if_splits)

lemma resolveUser_failures:
  assumes run: "resolveUser e (Some n) s = (r, s')"
  shows \<open>\<exists>cs. calls s' = calls s @ cs
     \<and> (\<forall>c msg. first_failure e (calls s) cs = Some (c, msg) \<longrightarrow>
          (if (\<exists>i. c = UsersFetch i)
           then r = Inl (Error
                  (case if_truthy (mappings_get (USER_MAPPINGS s) (toLowerCase n)) of
                     Some mappedId \<Rightarrow> ''Mapped user "'' @ n @ ''" (ID: '' @ mappedId
                                       @ '') not found''
                   | None \<Rightarrow> ''User with ID '' @ n @ '' not found''))
           else r = Inl (RemoteError msg)))\<close>
  (is "\<exists>cs. calls s' = calls s @ cs \<and> ?P cs")
proof (cases e s rule: waitForDiscord_cases)
  case (timeout err)
  with run have "s' = s" by (simp add: resolveUser_def bind_io_def)
  then have "calls s' = calls s @ []" and "?P []" by simp_all
  then show ?thesis by blast
next
  case (ready s1)
  note w = waitForDiscord_ready [OF ready(1)]
  from run have body: \<open>resolveUser e (Some n) s1 = (r, s')\<close>
    by (simp add: resolveUser_def bind_io_def ready(1) w(4))
  show ?thesis
  proof (cases "if_truthy (mappings_get (USER_MAPPINGS s) (toLowerCase n))")
    case (Some i)
    with body w have \<open>try_catch (users_fetch e i)
            (\<lambda>_. throw (Error (''Mapped user "'' @ n @ ''" (ID: '' @ i
                           @ '') not found''))) s1 = (r, s')\<close>
      by (simp only: resolveUser_ready option.case)
    from try_catch_users_fetch_run [OF this] w(2) Some
    have "calls s' = calls s @ [UsersFetch i]" and "?P [UsersFetch i]"
      by (auto split: option.splits)
    then show ?thesis by blast
  next
    case None
    show ?thesis
    proof (cases "all_digits n")
      case True
      with body None w have "try_catch (users_fetch e n)
              (\<lambda>_. throw (Error (''User with ID '' @ n @ '' not found''))) s1 = (r, s')"
        by (simp only: resolveUser_ready option.case if_True)
      from try_catch_users_fetch_run [OF this] w(2) None
      have "calls s' = calls s @ [UsersFetch n]" and "?P [UsersFetch n]"
        by (auto split: option.splits)
      then show ?thesis by blast
    next
      case False
      with body None w have "search_guilds e n (map snd (GUILDS s1)) s1 = (r, s')"
        by (simp only: resolveUser_ready option.case if_False)
      from relaysD [OF relays_search_guilds this] obtain cs where
        "calls s' = calls s1 @ cs"
        and "\<And>c msg. first_failure e (calls s1) cs = Some (c, msg) \<Longrightarrow>
           r = Inl (RemoteError msg) \<and> (\<forall>i. c \<noteq> UsersFetch i)" by blast
      with w(2) have "calls s' = calls s @ cs" and "?P cs" by auto
      then show ?thesis by blast
    qed
  qed
qed

lemma bind_failures:
  assumes b: "bind_io m f s = (r, s')"
    and m: "\<And>r1 s1. m s = (r1, s1) \<Longrightarrow>
       \<exists>cs. calls s1 = calls s @ cs
          \<and> (\<forall>c msg. first_failure e (calls s) cs = Some (c, msg) \<longrightarrow>
                (\<exists>err. r1 = Inl err \<and> Q c msg err))"
    and f: "\<And>x. relays e (f x)"
    and q: "\<And>c msg. \<forall>i. c \<noteq> UsersFetch i \<Longrightarrow> Q c msg (RemoteError msg)"
  shows "\<exists>cs. calls s' = calls s @ cs
          \<and> (\<forall>c msg. first_failure e (calls s) cs = Some (c, msg) \<longrightarrow>
                (\<exists>err. r = Inl err \<and> Q c msg err))"
proof -
  obtain r1 s1 where ms: "m s = (r1, s1)" by (cases "m s")
  from m [OF ms] obtain cs where
    c1: "calls s1 = calls s @ cs"
    and f1: "\<And>c msg. first_failure e (calls s) cs = Some (c, msg) \<Longrightarrow>
                \<exists>err. r1 = Inl err \<and> Q c msg err" by blast
  show ?thesis
  proof (cases r1)
    case (Inl err)
    with b ms have r: "r = Inl err" and "s' = s1" by (simp_all add: bind_io_def)
    moreover have "\<exists>err. r = Inl err \<and> Q c msg err"
      if "first_failure e (calls s) cs = Some (c, msg)" for c msg
      using f1 [OF that] Inl r by simp
    ultimately show ?thesis using c1 by blast
  next
    case (Inr x)
    with b ms have fx: "f x s1 = (r, s')" by (simp add: bind_io_def)
    from relaysD [OF f fx] obtain ds where
      c2: "calls s' = calls s1 @ ds"
      and f2: "\<And>c msg. first_failure e (calls s1) ds = Some (c, msg) \<Longrightarrow>
           r = Inl (RemoteError msg) \<and> (\<forall>i. c \<noteq> UsersFetch i)" by blast
    have "first_failure e (calls s) cs = None"
    proof (cases "first_failure e (calls s) cs")
      case None
      then show ?thesis .
    next
      case (Some p)
      then have "first_failure e (calls s) cs = Some (fst p, snd p)" by simp
      from f1 [OF this] Inr show ?thesis by simp
    qed
    then have ff: "first_failure e (calls s) (cs @ ds) = first_failure e (calls s1) ds"
      using c1 by (simp add: first_failure_append)
    have "\<exists>err. r = Inl err \<and> Q c msg err"
      if "first_failure e (calls s) (cs @ ds) = Some (c, msg)" for c msg
      using f2 [of c msg] that ff q [of c msg] by simp
    moreover have "calls s' = calls s @ (cs @ ds)" using c1 c2 by simp
    ultimately show ?thesis by blast
  qed
qed

lemma resolveUser_undefined:
  "resolveUser e None s = (r, s') \<Longrightarrow> calls s' = calls s"
  by (auto simp: resolveUser_def bind_io_def throw_def waitForDiscord_def split: if_splits)

lemma discord_send_dm_steps:
  "\<exists>rest. discord_send_dm e (Some a) = bind_io (resolveUser e (arg_user a)) rest
          \<and> (\<forall>user. relays e (rest user))"
  unfolding discord_send_dm_def with_args_def option.case Let_def
  by (rule exI, rule conjI, rule refl) (intro allI rl_all relays_remote, simp)

lemma discord_send_dm_failures:
  assumes run: "discord_send_dm e args s = (r, s')"
  shows \<open>\<exists>cs. calls s' = calls s @ cs
     \<and> (\<forall>c msg. first_failure e (calls s) cs = Some (c, msg) \<longrightarrow>
          (\<exists>err. r = Inl err \<and>
            (if (\<exists>i. c = UsersFetch i)
             then \<exists>a n. args = Some a \<and> arg_user a = Some n \<and> err = Error
                    (case if_truthy (mappings_get (USER_MAPPINGS s) (toLowerCase n)) of
                       Some mappedId \<Rightarrow> ''Mapped user "'' @ n @ ''" (ID: '' @ mappedId
                                         @ '') not found''
                     | None \<Rightarrow> ''User with ID '' @ n @ '' not found'')
             else err = RemoteError msg)))\<close>
proof (cases args)
  case None
  with run have "calls s' = calls s @ []"
    by (simp add: discord_send_dm_def with_args_def throw_def)
  then show ?thesis by force
next
  case (Some a)
  from discord_send_dm_steps obtain rest where
    eq: "discord_send_dm e (Some a) = bind_io (resolveUser e (arg_user a)) rest"
    and rest: "\<And>user. relays e (rest user)" by blast
  from run Some eq have b: "bind_io (resolveUser e (arg_user a)) rest s = (r, s')" by simp
  show ?thesis
  proof (rule bind_failures [OF b _ rest])
    fix r1 s1
    assume u: "resolveUser e (arg_user a) s = (r1, s1)"
    show \<open>\<exists>cs. calls s1 = calls s @ cs
     \<and> (\<forall>c msg. first_failure e (calls s) cs = Some (c, msg) \<longrightarrow>
          (\<exists>err. r1 = Inl err \<and>
            (if (\<exists>i. c = UsersFetch i)
             then \<exists>a n. args = Some a \<and> arg_user a = Some n \<and> err = Error
                    (case if_truthy (mappings_get (USER_MAPPINGS s) (toLowerCase n)) of
                       Some mappedId \<Rightarrow> ''Mapped user "'' @ n @ ''" (ID: '' @ mappedId
                                         @ '') not found''
                     | None \<Rightarrow> ''User with ID '' @ n @ '' not found'')
             else err = RemoteError msg)))\<close>
    proof (cases "arg_user a")
      case None
      with u have "calls s1 = calls s @ []" by (simp add: resolveUser_undefined)
      then show ?thesis by force
    next
      case (Some n)
      with u have "resolveUser e (Some n) s = (r1, s1)" by simp
      from resolveUser_failures [OF this] obtain cs where
        c: "calls s1 = calls s @ cs"
        and p: \<open>\<And>c msg. first_failure e (calls s) cs = Some (c, msg) \<Longrightarrow>
          (if (\<exists>i. c = UsersFetch i)
           then r1 = Inl (Error
                  (case if_truthy (mappings_get (USER_MAPPINGS s) (toLowerCase n)) of
                     Some mappedId \<Rightarrow> ''Mapped user "'' @ n @ ''" (ID: '' @ mappedId
                                       @ '') not found''
                   | None \<Rightarrow> ''User with ID '' @ n @ '' not found''))
           else r1 = Inl (RemoteError msg))\<close> by blast
      have \<open>\<exists>err. r1 = Inl err \<and>
            (if (\<exists>i. c = UsersFetch i)
             then \<exists>a n. args = Some a \<and> arg_user a = Some n \<and> err = Error
                    (case if_truthy (mappings_get (USER_MAPPINGS s) (toLowerCase n)) of
                       Some mappedId \<Rightarrow> ''Mapped user "'' @ n @ ''" (ID: '' @ mappedId
                                         @ '') not found''
                     | None \<Rightarrow> ''User with ID '' @ n @ '' not found'')
             else err = RemoteError msg)\<close>
        if "first_failure e (calls s) cs = Some (c, msg)" for c msg
        using p [OF that] Some \<open>args = Some a\<close>
        by (cases "\<exists>i. c = UsersFetch i") simp_all
      with c show ?thesis by blast
    qed
  next
    fix c :: call and msg
    assume "\<forall>i. c \<noteq> UsersFetch i"
    then show \<open>if (\<exists>i. c = UsersFetch i)
             then \<exists>a n. args = Some a \<and> arg_user a = Some n \<and> RemoteError msg = Error
                    (case if_truthy (mappings_get (USER_MAPPINGS s) (toLowerCase n)) of
                       Some mappedId \<Rightarrow> ''Mapped user "'' @ n @ ''" (ID: '' @ mappedId
                                         @ '') not found''
                     | None \<Rightarrow> ''User with ID '' @ n @ '' not found'')
             else RemoteError msg = RemoteError msg\<close> by simp
  qed
qed

lemma relays_failures:
  assumes "relays e t" and "t s = (r, s')"
  shows "\<exists>cs. calls s' = calls s @ cs
     \<and> (\<forall>c msg. first_failure e (calls s) cs = Some (c, msg) \<longrightarrow>
          (\<exists>err. r = Inl err \<and> (if (\<exists>i. c = UsersFetch i) then Q err else err = RemoteError msg)))"
proof -
  from relaysD [OF assms] obtain cs where
    "calls s' = calls s @ cs"
    and "\<And>c msg. first_failure e (calls s) cs = Some (c, msg) \<Longrightarrow>
           r = Inl (RemoteError msg) \<and> (\<forall>i. c \<noteq> UsersFetch i)" by blast
  then show ?thesis by (intro exI [of _ cs]) auto
qed

lemma tool_switch_failures:
  assumes run: "tool_switch e req s = (r, s')"
  shows \<open>\<exists>cs. calls s' = calls s @ cs
     \<and> (\<forall>c msg. first_failure e (calls s) cs = Some (c, msg) \<longrightarrow>
          (\<exists>err. r = Inl err \<and>
            (if (\<exists>i. c = UsersFetch i)
             then \<exists>a n. arguments req = Some a \<and> arg_user a = Some n \<and> err = Error
                    (case if_truthy (mappings_get (USER_MAPPINGS s) (toLowerCase n)) of
                       Some mappedId \<Rightarrow> ''Mapped user "'' @ n @ ''" (ID: '' @ mappedId
                                         @ '') not found''
                     | None \<Rightarrow> ''User with ID '' @ n @ '' not found'')
             else err = RemoteError msg)))\<close>
proof (cases e s rule: waitForDiscord_cases)
  case (timeout err)
  from tool_switch_wait [OF this] run have "calls s' = calls s @ []" by simp
  then show ?thesis by force
next
  case (ready s1)
  note w = waitForDiscord_ready [OF ready(1)]
  consider (dm) "discord_send_dm e (arguments req) s1 = (r, s')"
    | (other) t where "relays e t" and "t s1 = (r, s')"
    using run unfolding tool_switch_ready [OF ready(1)] Let_def
    by (auto split: if_splits
          intro: relays_send_message relays_send_code relays_send_file relays_send_image
            relays_list_channels relays_list_members relays_list_servers
            relays_add_user_mapping relays_read_messages relays_throw)
  then show ?thesis
  proof cases
    case dm
    from discord_send_dm_failures [OF dm] show ?thesis by (simp only: w(2) w(3))
  next
    case other
    from relays_failures [OF other] show ?thesis by (simp only: w(2))
  qed
qed

text \<open>
  Each kind of failure, when it arises in a tool that can meet it, is what the body of the
  \<^verbatim>\<open>try\<close> block ends in.
\<close>

lemma search_guilds_error_kinds:
  \<open>search_guilds e n gs s = (Inl err, s') \<Longrightarrow>
     err = Error (''User "'' @ n @ ''" not found'')
     \<or> (\<exists>h g m. failure e h (MembersFetch g (Some n) 5) = Some m \<and> err = RemoteError m)\<close>
proof (induction gs arbitrary: s)
  case Nil
  then show ?case by (simp add: throw_def)
next
  case (Cons g gs)
  show ?case
  proof (cases "guilds_get (guilds_cache s) (Some g)")
    case None
    with Cons.prems have "search_guilds e n gs s = (Inl err, s')" by simp
    then show ?thesis by (rule Cons.IH)
  next
    case (Some guild)
    with Cons.prems have b: "bind_io (members_fetch e guild (Some n) 5) (\<lambda>members.
           case find (member_matches n) members of
             Some m \<Rightarrow> return_io (member_user m)
           | None \<Rightarrow> search_guilds e n gs) s = (Inl err, s')" by simp
    then show ?thesis
    proof (rule bind_io_InlE)
      assume "members_fetch e guild (Some n) 5 s = (Inl err, s')"
      then have "\<exists>m. failure e (calls s) (MembersFetch (guild_id guild) (Some n) 5) = Some m
                   \<and> err = RemoteError m"
        by (auto simp: members_fetch_def bind_io_def remote_def return_io_def Let_def
              split: option.splits)
      then show ?thesis by blast
    next
      fix members s1
      assume "(case find (member_matches n) members of
             Some m \<Rightarrow> return_io (member_user m)
           | None \<Rightarrow> search_guilds e n gs) s1 = (Inl err, s')"
      then have "search_guilds e n gs s1 = (Inl err, s')"
        by (cases "find (member_matches n) members") (auto simp: return_io_def)
      then show ?thesis by (rule Cons.IH)
    qed
  qed
qed

lemma resolveUser_error_kinds:
  assumes "discordReady s" and "resolveUser e (Some n) s = (Inl err, s')"
  shows \<open>(\<exists>i. err = Error (''Mapped user "'' @ n @ ''" (ID: '' @ i @ '') not found''))
         \<or> err = Error (''User with ID '' @ n @ '' not found'')
         \<or> err = Error (''User "'' @ n @ ''" not found'')
         \<or> (\<exists>h g m. failure e h (MembersFetch g (Some n) 5) = Some m \<and> err = RemoteError m)\<close>
proof (cases "if_truthy (mappings_get (USER_MAPPINGS s) (toLowerCase n))")
  case (Some i)
  with assms have \<open>try_catch (users_fetch e i)
            (\<lambda>_. throw (Error (''Mapped user "'' @ n @ ''" (ID: '' @ i
                           @ '') not found''))) s = (Inl err, s')\<close>
    by (simp only: resolveUser_ready option.case)
  from try_catch_users_fetch [OF this] show ?thesis by blast
next
  case None
  show ?thesis
  proof (cases "all_digits n")
    case True
    with assms None have "try_catch (users_fetch e n)
              (\<lambda>_. throw (Error (''User with ID '' @ n @ '' not found''))) s = (Inl err, s')"
      by (simp only: resolveUser_ready option.case if_True)
    from try_catch_users_fetch [OF this] show ?thesis by blast
  next
    case False
    with assms None have "search_guilds e n (map snd (GUILDS s)) s = (Inl err, s')"
      by (simp only: resolveUser_ready option.case if_False)
    from search_guilds_error_kinds [OF this] show ?thesis by blast
  qed
qed

lemma resolveUser_error_names:
  assumes "discordReady s" and "resolveUser e (Some n) s = (Inl err, s')"
  shows "sublist n (message err)
         \<or> (\<exists>h g m. failure e h (MembersFetch g (Some n) 5) = Some m \<and> err = RemoteError m)"
proof -
  from resolveUser_error_kinds [OF assms] show ?thesis
  proof (elim disjE exE)
    fix i
    assume \<open>err = Error (''Mapped user "'' @ n @ ''" (ID: '' @ i @ '') not found'')\<close>
    then have \<open>message err = ''Mapped user "'' @ n @ ''" (ID: '' @ i @ '') not found''\<close> by simp
    then have "sublist n (message err)" by (simp only: sublist_appendI)
    then show ?thesis ..
  next
    assume \<open>err = Error (''User with ID '' @ n @ '' not found'')\<close>
    then have \<open>message err = ''User with ID '' @ n @ '' not found''\<close> by simp
    then have "sublist n (message err)" by (simp only: sublist_appendI)
    then show ?thesis ..
  next
    assume \<open>err = Error (''User "'' @ n @ ''" not found'')\<close>
    then have \<open>message err = ''User "'' @ n @ ''" not found''\<close> by simp
    then have "sublist n (message err)" by (simp only: sublist_appendI)
    then show ?thesis ..
  next
    fix h g m
    assume "failure e h (MembersFetch g (Some n) 5) = Some m \<and> err = RemoteError m"
    then show ?thesis by blast
  qed
qed

lemma resolveChannel_error_names:
  assumes "resolveChannel e c guild s = (Inl err, s')"
  shows "sublist c (message err)
         \<or> (\<exists>m. failure e (calls s) (ChannelsFetch (guild_id guild)) = Some m \<and> err = RemoteError m)"
proof -
  from resolveChannel_errors [OF assms] show ?thesis
  proof
    assume \<open>err = Error (''Channel "'' @ c @ ''" not found in '' @ guild_name guild)\<close>
    then have \<open>message err = ''Channel "'' @ c @ ''" not found in '' @ guild_name guild\<close> by simp
    then have "sublist c (message err)" by (simp only: sublist_appendI)
    then show ?thesis ..
  next
    assume "\<exists>m. err = RemoteError m \<and> failure e (calls s) (ChannelsFetch (guild_id guild)) = Some m"
    then show ?thesis by blast
  qed
qed

lemma routing_server_error:
  assumes "discordReady s1" and "resolveGuild s1 v = Inl err"
  shows "resolveChannelWithServer e c v s1 = (Inl err, s1)"
  using assms by (simp add: resolveChannelWithServer_def bind_io_def sync_def waitForDiscord_def)

lemma routing_channel:
  assumes "discordReady s1" and "resolveGuild s1 v = Inr guild" and "if_truthy c = Some x"
  shows "resolveChannelWithServer e c v s1 = resolveChannel e x guild s1"
  using assms by (simp add: resolveChannelWithServer_def bind_io_def sync_def waitForDiscord_def)

lemma routing_no_channel:
  assumes "discordReady s1" and "resolveGuild s1 v = Inr guild" and "if_truthy c = None"
    and "(case if_truthy (DEFAULT_CHANNEL_ID s1) of
            Some i \<Rightarrow> default_channel (guilds_cache s1) i
          | None \<Rightarrow> None) = None"
  shows "resolveChannelWithServer e c v s1
           = (Inl (Error ''No channel specified and no default channel set''), s1)"
  using assms by (simp add: resolveChannelWithServer_def bind_io_def sync_def waitForDiscord_def)

lemma routing_error_reaches_the_switch:
  assumes w: "waitForDiscord e s = (Inr (), s1)" and a: "arguments req = Some a"
    and t: "tool_name req \<in> {''discord_send_message'', ''discord_send_code'',
              ''discord_send_file'', ''discord_send_image'', ''discord_read_messages''}"
    and c: "resolveChannelWithServer e (arg_channel a) (arg_server a) s1 = (Inl err, s2)"
  shows "tool_switch e req s = (Inl err, s2)"
  unfolding tool_switch_ready [OF w] Let_def using t a c
  by (auto simp: discord_send_message_def discord_send_code_def discord_send_file_def
        discord_send_image_def discord_read_messages_def with_args_def bind_io_def)

lemma server_error_reaches_the_switch:
  assumes w: "waitForDiscord e s = (Inr (), s1)" and a: "arguments req = Some a"
    and t: "tool_name req \<in> {''discord_send_message'', ''discord_send_code'',
              ''discord_send_file'', ''discord_send_image'', ''discord_read_messages'',
              ''discord_list_channels'', ''discord_list_members''}"
    and g: "resolveGuild s1 (arg_server a) = Inl err"
  shows "tool_switch e req s = (Inl err, s1)"
proof (cases "tool_name req \<in> {''discord_list_channels'', ''discord_list_members''}")
  case True
  then show ?thesis unfolding tool_switch_ready [OF w] Let_def using a g
    by (auto simp: discord_list_channels_def discord_list_members_def with_args_def bind_io_def
          sync_def)
next
  case False
  with t have t': "tool_name req \<in> {''discord_send_message'', ''discord_send_code'',
              ''discord_send_file'', ''discord_send_image'', ''discord_read_messages''}" by auto
  from waitForDiscord_ready(1) [OF w] g
  have "resolveChannelWithServer e (arg_channel a) (arg_server a) s1 = (Inl err, s1)"
    by (rule routing_server_error)
  from routing_error_reaches_the_switch [OF w a t' this] show ?thesis .
qed

lemma user_error_reaches_the_switch:
  assumes w: "waitForDiscord e s = (Inr (), s1)" and a: "arguments req = Some a"
    and t: "tool_name req = ''discord_send_dm''"
    and u: "resolveUser e (arg_user a) s1 = (Inl err, s2)"
  shows "tool_switch e req s = (Inl err, s2)"
  unfolding tool_switch_ready [OF w] Let_def using t a u
  by (simp add: discord_send_dm_def with_args_def bind_io_def)

lemma missing_file_reaches_the_switch:
  assumes w: "waitForDiscord e s = (Inr (), s1)" and a: "arguments req = Some a"
    and t: "tool_name req = ''discord_send_file''"
    and c: "resolveChannelWithServer e (arg_channel a) (arg_server a) s1 = (Inr channel, s2)"
    and f: "\<not> fs_existsSync e (arg_file_path a)"
  shows "tool_switch e req s = (Inl (Error (''File not found: '' @ str (arg_file_path a))), s2)"
  unfolding tool_switch_ready [OF w] Let_def using t a c f
  by (simp add: discord_send_file_def with_args_def bind_io_def throw_def Let_def)

lemma missing_image_reaches_the_switch:
  assumes w: "waitForDiscord e s = (Inr (), s1)" and a: "arguments req = Some a"
    and t: "tool_name req = ''discord_send_image''"
    and c: "resolveChannelWithServer e (arg_channel a) (arg_server a) s1 = (Inr channel, s2)"
    and f: "\<not> fs_existsSync e (arg_image_path a)"
  shows "tool_switch e req s = (Inl (Error (''Image not found: '' @ str (arg_image_path a))), s2)"
  unfolding tool_switch_ready [OF w] Let_def using t a c f
  by (simp add: discord_send_image_def with_args_def bind_io_def throw_def Let_def)

lemma missing_dm_file_reaches_the_switch:
  assumes w: "waitForDiscord e s = (Inr (), s1)" and a: "arguments req = Some a"
    and t: "tool_name req = ''discord_send_dm''"
    and u: "resolveUser e (arg_user a) s1 = (Inr user, s2)"
    and d: "createDM e user s2 = (Inr dm, s3)"
    and p: "if_truthy (arg_file_path a) = Some f"
    and f: "\<not> existsSync e f"
  shows "tool_switch e req s = (Inl (Error (''File not found: '' @ f)), s3)"
  unfolding tool_switch_ready [OF w] Let_def using t a u d p f
  by (simp add: discord_send_dm_def with_args_def bind_io_def throw_def Let_def)

text \<open>
  Claim C1, as the code has it.  The handler always returns a reply.  Whatever exception the
  body of the \<^verbatim>\<open>try\<close> block ends in, the reply is tagged as an error and its text is
  \<^verbatim>\<open>Error: \<close> followed by the message of that exception, and a reply is tagged as an error
  only then.  Every kind of failure gives the reply of its own error: the readiness timeout; an
  unknown tool name; a server, a channel or a user that does not resolve, in every tool that
  resolves one, with a message that holds the identifier queried unless a remote call made
  while resolving is what failed; no channel given and none set as default; a missing local
  file or image.  When a remote call of the invocation fails, the reply carries the message
  the collaborator gave, unless the call is the user lookup by ID: the user resolver catches
  that error, and the reply carries the resolver's message, which names the user queried.
\<close>

theorem C1_failures_become_error_replies:
  \<open>(\<forall>err s'. tool_switch e req s = (Inl err, s') \<longrightarrow>
       CallTool e req s = (error_reply (message err), s'))
   \<and> isError (fst (CallTool e req s)) = (\<exists>err. fst (tool_switch e req s) = Inl err)
   \<and> (\<not> discordReady s \<and> \<not> ready_in_time e \<longrightarrow>
        CallTool e req s = (error_reply ''Discord client not ready (timeout)'', s))
   \<and> ((discordReady s \<or> ready_in_time e) \<and> tool_name req \<notin> set tool_names \<longrightarrow>
        fst (CallTool e req s) = error_reply (''Unknown tool: '' @ tool_name req))
   \<and> (\<forall>a s1 err.
        waitForDiscord e s = (Inr (), s1) \<and> arguments req = Some a
        \<and> tool_name req \<in> {''discord_send_message'', ''discord_send_code'',
              ''discord_send_file'', ''discord_send_image'', ''discord_read_messages'',
              ''discord_list_channels'', ''discord_list_members''}
        \<and> resolveGuild s1 (arg_server a) = Inl err \<longrightarrow>
        CallTool e req s = (error_reply (message err), s1)
        \<and> (\<forall>alias. arg_server a = Some alias \<longrightarrow> sublist alias (message err)))
   \<and> (\<forall>a s1 guild c err s2.
        waitForDiscord e s = (Inr (), s1) \<and> arguments req = Some a
        \<and> tool_name req \<in> {''discord_send_message'', ''discord_send_code'',
              ''discord_send_file'', ''discord_send_image'', ''discord_read_messages''}
        \<and> resolveGuild s1 (arg_server a) = Inr guild
        \<and> if_truthy (arg_channel a) = Some c
        \<and> resolveChannel e c guild s1 = (Inl err, s2) \<longrightarrow>
        CallTool e req s = (error_reply (message err), s2)
        \<and> (sublist c (message err)
            \<or> (\<exists>m. failure e (calls s) (ChannelsFetch (guild_id guild)) = Some m
                    \<and> err = RemoteError m)))
   \<and> (\<forall>a s1 guild.
        waitForDiscord e s = (Inr (), s1) \<and> arguments req = Some a
        \<and> tool_name req \<in> {''discord_send_message'', ''discord_send_code'',
              ''discord_send_file'', ''discord_send_image'', ''discord_read_messages''}
        \<and> resolveGuild s1 (arg_server a) = Inr guild
        \<and> if_truthy (arg_channel a) = None
        \<and> (case if_truthy (DEFAULT_CHANNEL_ID s1) of
              Some i \<Rightarrow> default_channel (guilds_cache s1) i
            | None \<Rightarrow> None) = None \<longrightarrow>
        CallTool e req s
          = (error_reply ''No channel specified and no default channel set'', s1))
   \<and> (\<forall>a s1 n err s2.
        waitForDiscord e s = (Inr (), s1) \<and> arguments req = Some a
        \<and> tool_name req = ''discord_send_dm'' \<and> arg_user a = Some n
        \<and> resolveUser e (Some n) s1 = (Inl err, s2) \<longrightarrow>
        CallTool e req s = (error_reply (message err), s2)
        \<and> (sublist n (message err)
            \<or> (\<exists>h g m. failure e h (MembersFetch g (Some n) 5) = Some m
                    \<and> err = RemoteError m)))
   \<and> (\<forall>a s1 channel s2.
        waitForDiscord e s = (Inr (), s1) \<and> arguments req = Some a
        \<and> tool_name req = ''discord_send_file''
        \<and> resolveChannelWithServer e (arg_channel a) (arg_server a) s1 = (Inr channel, s2)
        \<and> \<not> fs_existsSync e (arg_file_path a) \<longrightarrow>
        CallTool e req s = (error_reply (''File not found: '' @ str (arg_file_path a)), s2))
   \<and> (\<forall>a s1 channel s2.
        waitForDiscord e s = (Inr (), s1) \<and> arguments req = Some a
        \<and> tool_name req = ''discord_send_image''
        \<and> resolveChannelWithServer e (arg_channel a) (arg_server a) s1 = (Inr channel, s2)
        \<and> \<not> fs_existsSync e (arg_image_path a) \<longrightarrow>
        CallTool e req s = (error_reply (''Image not found: '' @ str (arg_image_path a)), s2))
   \<and> (\<forall>a s1 user s2 dm s3 f.
        waitForDiscord e s = (Inr (), s1) \<and> arguments req = Some a
        \<and> tool_name req = ''discord_send_dm''
        \<and> resolveUser e (arg_user a) s1 = (Inr user, s2)
        \<and> createDM e user s2 = (Inr dm, s3)
        \<and> if_truthy (arg_file_path a) = Some f \<and> \<not> existsSync e f \<longrightarrow>
        CallTool e req s = (error_reply (''File not found: '' @ f), s3))
   \<and> (\<forall>c msg.
        first_failure e (calls s) (issued s (snd (CallTool e req s))) = Some (c, msg) \<longrightarrow>
        (if (\<exists>i. c = UsersFetch i)
         then \<exists>a n. arguments req = Some a \<and> arg_user a = Some n
                \<and> fst (CallTool e req s) = error_reply
                     (case if_truthy (mappings_get (USER_MAPPINGS s) (toLowerCase n)) of
                        Some mappedId \<Rightarrow> ''Mapped user "'' @ n @ ''" (ID: '' @ mappedId
                                          @ '') not found''
                      | None \<Rightarrow> ''User with ID '' @ n @ '' not found'')
         else fst (CallTool e req s) = error_reply msg))\<close>
proof -
  have caught: "CallTool e req s = (error_reply (message err), s')"
    if "tool_switch e req s = (Inl err, s')" for err s'
    using CallTool_failure [OF that] by (simp add: error_reply_def)
  have caught': "fst (CallTool e req s) = error_reply (message err)"
    if "fst (tool_switch e req s) = Inl err" for err
    using that caught [of err "snd (tool_switch e req s)"]
    by (cases "tool_switch e req s") simp
  have 1: "\<forall>err s'. tool_switch e req s = (Inl err, s') \<longrightarrow>
       CallTool e req s = (error_reply (message err), s')"
    using caught by blast
  have 2: "isError (fst (CallTool e req s)) = (\<exists>err. fst (tool_switch e req s) = Inl err)"
    by (rule CallTool_isError_iff)
  have 3: "\<not> discordReady s \<and> \<not> ready_in_time e \<longrightarrow>
        CallTool e req s = (error_reply ''Discord client not ready (timeout)'', s)"
    using caught [OF tool_switch_timeout] by simp
  have 4: "(discordReady s \<or> ready_in_time e) \<and> tool_name req \<notin> set tool_names \<longrightarrow>
        fst (CallTool e req s) = error_reply (''Unknown tool: '' @ tool_name req)"
    using caught' [OF tool_switch_unknown] by simp
  have 5: "CallTool e req s = (error_reply (message err), s1)
        \<and> (\<forall>alias. arg_server a = Some alias \<longrightarrow> sublist alias (message err))"
    if "waitForDiscord e s = (Inr (), s1) \<and> arguments req = Some a
        \<and> tool_name req \<in> {''discord_send_message'', ''discord_send_code'',
              ''discord_send_file'', ''discord_send_image'', ''discord_read_messages'',
              ''discord_list_channels'', ''discord_list_members''}
        \<and> resolveGuild s1 (arg_server a) = Inl err" for a s1 err
  proof -
    from that have w: "waitForDiscord e s = (Inr (), s1)" and a: "arguments req = Some a"
      and t: "tool_name req \<in> {''discord_send_message'', ''discord_send_code'',
              ''discord_send_file'', ''discord_send_image'', ''discord_read_messages'',
              ''discord_list_channels'', ''discord_list_members''}"
      and g: "resolveGuild s1 (arg_server a) = Inl err" by blast+
    from caught [OF server_error_reaches_the_switch [OF w a t g]] g
    show ?thesis by (auto dest: resolveGuild_error_names_alias)
  qed
  have 6: "CallTool e req s = (error_reply (message err), s2)
        \<and> (sublist c (message err)
            \<or> (\<exists>m. failure e (calls s) (ChannelsFetch (guild_id guild)) = Some m
                    \<and> err = RemoteError m))"
    if "waitForDiscord e s = (Inr (), s1) \<and> arguments req = Some a
        \<and> tool_name req \<in> {''discord_send_message'', ''discord_send_code'',
              ''discord_send_file'', ''discord_send_image'', ''discord_read_messages''}
        \<and> resolveGuild s1 (arg_server a) = Inr guild
        \<and> if_truthy (arg_channel a) = Some c
        \<and> resolveChannel e c guild s1 = (Inl err, s2)" for a s1 guild c err s2
  proof -
    from that have w: "waitForDiscord e s = (Inr (), s1)" and a: "arguments req = Some a"
      and t: "tool_name req \<in> {''discord_send_message'', ''discord_send_code'',
              ''discord_send_file'', ''discord_send_image'', ''discord_read_messages''}"
      and g: "resolveGuild s1 (arg_server a) = Inr guild"
      and c: "if_truthy (arg_channel a) = Some c"
      and r: "resolveChannel e c guild s1 = (Inl err, s2)" by blast+
    note ready = waitForDiscord_ready [OF w]
    have "resolveChannelWithServer e (arg_channel a) (arg_server a) s1 = (Inl err, s2)"
      using routing_channel [OF ready(1) g c] r by simp
    from caught [OF routing_error_reaches_the_switch [OF w a t this]]
      resolveChannel_error_names [OF r] ready(2)
    show ?thesis by simp
  qed
  have 7: "CallTool e req s
          = (error_reply ''No channel specified and no default channel set'', s1)"
    if "waitForDiscord e s = (Inr (), s1) \<and> arguments req = Some a
        \<and> tool_name req \<in> {''discord_send_message'', ''discord_send_code'',
              ''discord_send_file'', ''discord_send_image'', ''discord_read_messages''}
        \<and> resolveGuild s1 (arg_server a) = Inr guild
        \<and> if_truthy (arg_channel a) = None
        \<and> (case if_truthy (DEFAULT_CHANNEL_ID s1) of
              Some i \<Rightarrow> default_channel (guilds_cache s1) i
            | None \<Rightarrow> None) = None" for a s1 guild
  proof -
    from that have w: "waitForDiscord e s = (Inr (), s1)" and a: "arguments req = Some a"
      and t: "tool_name req \<in> {''discord_send_message'', ''discord_send_code'',
              ''discord_send_file'', ''discord_send_image'', ''discord_read_messages''}"
      and g: "resolveGuild s1 (arg_server a) = Inr guild"
      and c: "if_truthy (arg_channel a) = None"
      and d: "(case if_truthy (DEFAULT_CHANNEL_ID s1) of
              Some i \<Rightarrow> default_channel (guilds_cache s1) i
            | None \<Rightarrow> None) = None" by blast+
    from caught [OF routing_error_reaches_the_switch [OF w a t
          routing_no_channel [OF waitForDiscord_ready(1) [OF w] g c d]]]
    show ?thesis by simp
  qed
  have 8: "CallTool e req s = (error_reply (message err), s2)
        \<and> (sublist n (message err)
            \<or> (\<exists>h g m. failure e h (MembersFetch g (Some n) 5) = Some m
                    \<and> err = RemoteError m))"
    if "waitForDiscord e s = (Inr (), s1) \<and> arguments req = Some a
        \<and> tool_name req = ''discord_send_dm'' \<and> arg_user a = Some n
        \<and> resolveUser e (Some n) s1 = (Inl err, s2)" for a s1 n err s2
  proof -
    from that have w: "waitForDiscord e s = (Inr (), s1)" and a: "arguments req = Some a"
      and t: "tool_name req = ''discord_send_dm''" and n: "arg_user a = Some n"
      and r: "resolveUser e (Some n) s1 = (Inl err, s2)" by blast+
    from r n have "resolveUser e (arg_user a) s1 = (Inl err, s2)" by simp
    from caught [OF user_error_reaches_the_switch [OF w a t this]]
      resolveUser_error_names [OF waitForDiscord_ready(1) [OF w] r]
    show ?thesis by simp
  qed
  have 9: "\<forall>a s1 channel s2.
        waitForDiscord e s = (Inr (), s1) \<and> arguments req = Some a
        \<and> tool_name req = ''discord_send_file''
        \<and> resolveChannelWithServer e (arg_channel a) (arg_server a) s1 = (Inr channel, s2)
        \<and> \<not> fs_existsSync e (arg_file_path a) \<longrightarrow>
        CallTool e req s = (error_reply (''File not found: '' @ str (arg_file_path a)), s2)"
    using caught missing_file_reaches_the_switch by fastforce
  have 10: "\<forall>a s1 channel s2.
        waitForDiscord e s = (Inr (), s1) \<and> arguments req = Some a
        \<and> tool_name req = ''discord_send_image''
        \<and> resolveChannelWithServer e (arg_channel a) (arg_server a) s1 = (Inr channel, s2)
        \<and> \<not> fs_existsSync e (arg_image_path a) \<longrightarrow>
        CallTool e req s = (error_reply (''Image not found: '' @ str (arg_image_path a)), s2)"
    using caught missing_image_reaches_the_switch by fastforce
  have 11: "\<forall>a s1 user s2 dm s3 f.
        waitForDiscord e s = (Inr (), s1) \<and> arguments req = Some a
        \<and> tool_name req = ''discord_send_dm''
        \<and> resolveUser e (arg_user a) s1 = (Inr user, s2)
        \<and> createDM e user s2 = (Inr dm, s3)
        \<and> if_truthy (arg_file_path a) = Some f \<and> \<not> existsSync e f \<longrightarrow>
        CallTool e req s = (error_reply (''File not found: '' @ f), s3)"
    using caught missing_dm_file_reaches_the_switch by fastforce
  have 12: \<open>if (\<exists>i. c = UsersFetch i)
         then \<exists>a n. arguments req = Some a \<and> arg_user a = Some n
                \<and> fst (CallTool e req s) = error_reply
                     (case if_truthy (mappings_get (USER_MAPPINGS s) (toLowerCase n)) of
                        Some mappedId \<Rightarrow> ''Mapped user "'' @ n @ ''" (ID: '' @ mappedId
                                          @ '') not found''
                      | None \<Rightarrow> ''User with ID '' @ n @ '' not found'')
         else fst (CallTool e req s) = error_reply msg\<close>
    if ff: "first_failure e (calls s) (issued s (snd (CallTool e req s))) = Some (c, msg)"
    for c msg
  proof -
    obtain r s' where run: "tool_switch e req s = (r, s')" by (cases "tool_switch e req s")
    then have s': "snd (CallTool e req s) = s'"
      by (cases r) (simp_all add: CallTool_def)
    from tool_switch_failures [OF run] obtain cs where
      cs: "calls s' = calls s @ cs"
      and p: \<open>\<And>c msg. first_failure e (calls s) cs = Some (c, msg) \<Longrightarrow>
          (\<exists>err. r = Inl err \<and>
            (if (\<exists>i. c = UsersFetch i)
             then \<exists>a n. arguments req = Some a \<and> arg_user a = Some n \<and> err = Error
                    (case if_truthy (mappings_get (USER_MAPPINGS s) (toLowerCase n)) of
                       Some mappedId \<Rightarrow> ''Mapped user "'' @ n @ ''" (ID: '' @ mappedId
                                         @ '') not found''
                     | None \<Rightarrow> ''User with ID '' @ n @ '' not found'')
             else err = RemoteError msg))\<close> by blast
    from ff s' cs have "first_failure e (calls s) cs = Some (c, msg)"
      by (simp add: issued_def)
    from p [OF this] obtain err where err: "r = Inl err"
      and q: \<open>if (\<exists>i. c = UsersFetch i)
             then \<exists>a n. arguments req = Some a \<and> arg_user a = Some n \<and> err = Error
                    (case if_truthy (mappings_get (USER_MAPPINGS s) (toLowerCase n)) of
                       Some mappedId \<Rightarrow> ''Mapped user "'' @ n @ ''" (ID: '' @ mappedId
                                         @ '') not found''
                     | None \<Rightarrow> ''User with ID '' @ n @ '' not found'')
             else err = RemoteError msg\<close> by blast
    from run err have reply: "fst (CallTool e req s) = error_reply (message err)"
      by (simp add: caught)
    show ?thesis
    proof (cases "\<exists>i. c = UsersFetch i")
      case True
      with q obtain a n where "arguments req = Some a" and "arg_user a = Some n"
        and \<open>err = Error
                    (case if_truthy (mappings_get (USER_MAPPINGS s) (toLowerCase n)) of
                       Some mappedId \<Rightarrow> ''Mapped user "'' @ n @ ''" (ID: '' @ mappedId
                                         @ '') not found''
                     | None \<Rightarrow> ''User with ID '' @ n @ '' not found'')\<close> by auto
      with reply True show ?thesis by auto
    next
      case False
      with q reply show ?thesis by simp
    qed
  qed
  show ?thesis
    apply (intro conjI)
    apply (rule 1)
    apply (rule 2)
    apply (rule 3)
    apply (rule 4)
    using 5 apply blast
    using 6 apply blast
    using 7 apply blast
    using 8 apply blast
    apply (rule 9)
    apply (rule 10)
    apply (rule 11)
    using 12 apply blast
    done
qed

theorem C1_failures_become_error_replies_witness:
  \<open>fst (CallTool (quiet_env\<lparr>ready_in_time := False\<rparr>)
          \<lparr>tool_name = ''discord_list_servers'', arguments = None\<rparr>
          ((registry_state [(''work'', ''1'')] [acme])\<lparr>discordReady := False\<rparr>))
     = error_reply ''Discord client not ready (timeout)''
   \<and> fst (CallTool quiet_env \<lparr>tool_name = ''discord_ping'', arguments = None\<rparr>
          (registry_state [(''work'', ''1'')] [acme]))
     = error_reply ''Unknown tool: discord_ping''
   \<and> fst (CallTool quiet_env
          \<lparr>tool_name = ''discord_list_members'',
           arguments = Some (no_args\<lparr>arg_server := Some ''nowhere''\<rparr>)\<rparr>
          (registry_state [(''work'', ''1'')] [acme]))
     = error_reply ''Server "nowhere" not found. Available: work''
   \<and> fst (CallTool quiet_env
          \<lparr>tool_name = ''discord_send_message'',
           arguments = Some (no_args\<lparr>arg_message := Some ''hi'', arg_channel := Some ''lobby''\<rparr>)\<rparr>
          (registry_state [(''work'', ''1'')] [acme]))
     = error_reply ''Channel "lobby" not found in Acme''
   \<and> fst (CallTool quiet_env
          \<lparr>tool_name = ''discord_read_messages'', arguments = Some no_args\<rparr>
          (registry_state [(''work'', ''1'')] [acme]))
     = error_reply ''No channel specified and no default channel set''
   \<and> fst (CallTool quiet_env
          \<lparr>tool_name = ''discord_send_dm'',
           arguments = Some (no_args\<lparr>arg_user := Some ''bob'', arg_message := Some ''hi''\<rparr>)\<rparr>
          (registry_state [(''work'', ''1'')] [acme]))
     = error_reply ''User "bob" not found''
   \<and> fst (CallTool quiet_env
          \<lparr>tool_name = ''discord_send_file'',
           arguments = Some (no_args\<lparr>arg_file_path := Some ''/tmp/gone.txt'',
                              arg_channel := Some ''general''\<rparr>)\<rparr>
          (registry_state [(''work'', ''1'')] [acme]))
     = error_reply ''File not found: /tmp/gone.txt''
   \<and> fst (CallTool quiet_env
          \<lparr>tool_name = ''discord_send_image'',
           arguments = Some (no_args\<lparr>arg_image_path := Some ''/tmp/gone.png'',
                              arg_channel := Some ''general''\<rparr>)\<rparr>
          (registry_state [(''work'', ''1'')] [acme]))
     = error_reply ''Image not found: /tmp/gone.png''
   \<and> fst (CallTool quiet_env
          \<lparr>tool_name = ''discord_send_dm'',
           arguments = Some (no_args\<lparr>arg_user := Some ''Alice'',
                              arg_file_path := Some ''/tmp/gone.txt''\<rparr>)\<rparr>
          (registry_state [(''work'', ''1'')] [acme]))
     = error_reply ''File not found: /tmp/gone.txt''
   \<and> fst (CallTool (quiet_env\<lparr>failure := (\<lambda>history c. Some ''Missing Permissions'')\<rparr>)
          \<lparr>tool_name = ''discord_send_message'',
           arguments = Some (no_args\<lparr>arg_message := Some ''hi'', arg_channel := Some ''general''\<rparr>)\<rparr>
          (registry_state [(''work'', ''1'')] [acme]))
     = error_reply ''Missing Permissions''
   \<and> fst (CallTool (quiet_env\<lparr>failure := (\<lambda>history c. Some ''Missing Access'')\<rparr>)
          \<lparr>tool_name = ''discord_send_dm'',
           arguments = Some (no_args\<lparr>arg_user := Some ''Al'', arg_message := Some ''hi''\<rparr>)\<rparr>
          ((registry_state [(''work'', ''1'')] [acme])\<lparr>USER_MAPPINGS := [(''al'', Some ''42'')]\<rparr>))
     = error_reply ''Mapped user "Al" (ID: 42) not found''\<close>
proof -
  let ?s = "registry_state [(''work'', ''1'')] [acme]"
  let ?mapped = "?s\<lparr>USER_MAPPINGS := [(''al'', Some ''42'')]\<rparr>"
  let ?denied = "quiet_env\<lparr>failure := (\<lambda>history c. Some ''Missing Permissions'')\<rparr>"
  let ?hidden = "quiet_env\<lparr>failure := (\<lambda>history c. Some ''Missing Access'')\<rparr>"
  let ?nowhere = "no_args\<lparr>arg_server := Some ''nowhere''\<rparr>"
  let ?members = "\<lparr>tool_name = ''discord_list_members'', arguments = Some ?nowhere\<rparr>"
  let ?to_lobby = "no_args\<lparr>arg_message := Some ''hi'', arg_channel := Some ''lobby''\<rparr>"
  let ?lobby = "\<lparr>tool_name = ''discord_send_message'', arguments = Some ?to_lobby\<rparr>"
  let ?read = "\<lparr>tool_name = ''discord_read_messages'', arguments = Some no_args\<rparr>"
  let ?to_bob = "no_args\<lparr>arg_user := Some ''bob'', arg_message := Some ''hi''\<rparr>"
  let ?bob = "\<lparr>tool_name = ''discord_send_dm'', arguments = Some ?to_bob\<rparr>"
  let ?gone = "no_args\<lparr>arg_file_path := Some ''/tmp/gone.txt'', arg_channel := Some ''general''\<rparr>"
  let ?missing = "\<lparr>tool_name = ''discord_send_file'', arguments = Some ?gone\<rparr>"
  let ?gone_png = "no_args\<lparr>arg_image_path := Some ''/tmp/gone.png'', arg_channel := Some ''general''\<rparr>"
  let ?picture = "\<lparr>tool_name = ''discord_send_image'', arguments = Some ?gone_png\<rparr>"
  let ?to_alice = "no_args\<lparr>arg_user := Some ''Alice'', arg_file_path := Some ''/tmp/gone.txt''\<rparr>"
  let ?alice = "\<lparr>tool_name = ''discord_send_dm'', arguments = Some ?to_alice\<rparr>"
  let ?to_general = "no_args\<lparr>arg_message := Some ''hi'', arg_channel := Some ''general''\<rparr>"
  let ?general = "\<lparr>tool_name = ''discord_send_message'', arguments = Some ?to_general\<rparr>"
  let ?to_al = "no_args\<lparr>arg_user := Some ''Al'', arg_message := Some ''hi''\<rparr>"
  let ?al = "\<lparr>tool_name = ''discord_send_dm'', arguments = Some ?to_al\<rparr>"
  have on_timeout: "fst (CallTool (quiet_env\<lparr>ready_in_time := False\<rparr>)
          \<lparr>tool_name = ''discord_list_servers'', arguments = None\<rparr> (?s\<lparr>discordReady := False\<rparr>))
     = error_reply ''Discord client not ready (timeout)''"
    using C1_failures_become_error_replies [of "quiet_env\<lparr>ready_in_time := False\<rparr>"
        "\<lparr>tool_name = ''discord_list_servers'', arguments = None\<rparr>" "?s\<lparr>discordReady := False\<rparr>"]
    by (simp add: quiet_env_def registry_state_def)
  have on_unknown: "fst (CallTool quiet_env \<lparr>tool_name = ''discord_ping'', arguments = None\<rparr> ?s)
     = error_reply ''Unknown tool: discord_ping''"
    using C1_failures_become_error_replies
      [of quiet_env "\<lparr>tool_name = ''discord_ping'', arguments = None\<rparr>" ?s]
    by (simp add: quiet_env_def registry_state_def tool_names_def)
  have on_server: \<open>fst (CallTool quiet_env ?members ?s)
     = error_reply ''Server "nowhere" not found. Available: work''\<close>
  proof -
    have \<open>waitForDiscord quiet_env ?s = (Inr (), ?s) \<and> arguments ?members = Some ?nowhere
        \<and> tool_name ?members \<in> {''discord_send_message'', ''discord_send_code'',
              ''discord_send_file'', ''discord_send_image'', ''discord_read_messages'',
              ''discord_list_channels'', ''discord_list_members''}
        \<and> resolveGuild ?s (arg_server ?nowhere)
            = Inl (Error ''Server "nowhere" not found. Available: work'')\<close>
      by (simp add: model)
    from C1_failures_become_error_replies [of quiet_env ?members ?s, THEN conjunct2,
        THEN conjunct2, THEN conjunct2, THEN conjunct2, THEN conjunct1, rule_format, OF this]
    show ?thesis by simp
  qed
  have on_channel: \<open>fst (CallTool quiet_env ?lobby ?s)
     = error_reply ''Channel "lobby" not found in Acme''\<close>
  proof -
    have \<open>\<exists>s2. waitForDiscord quiet_env ?s = (Inr (), ?s) \<and> arguments ?lobby = Some ?to_lobby
        \<and> tool_name ?lobby \<in> {''discord_send_message'', ''discord_send_code'',
              ''discord_send_file'', ''discord_send_image'', ''discord_read_messages''}
        \<and> resolveGuild ?s (arg_server ?to_lobby) = Inr acme
        \<and> if_truthy (arg_channel ?to_lobby) = Some ''lobby''
        \<and> resolveChannel quiet_env ''lobby'' acme ?s
            = (Inl (Error ''Channel "lobby" not found in Acme''), s2)\<close>
      by (simp add: model)
    then obtain s2 where \<open>waitForDiscord quiet_env ?s = (Inr (), ?s) \<and> arguments ?lobby = Some ?to_lobby
        \<and> tool_name ?lobby \<in> {''discord_send_message'', ''discord_send_code'',
              ''discord_send_file'', ''discord_send_image'', ''discord_read_messages''}
        \<and> resolveGuild ?s (arg_server ?to_lobby) = Inr acme
        \<and> if_truthy (arg_channel ?to_lobby) = Some ''lobby''
        \<and> resolveChannel quiet_env ''lobby'' acme ?s
            = (Inl (Error ''Channel "lobby" not found in Acme''), s2)\<close> ..
    from C1_failures_become_error_replies [of quiet_env ?lobby ?s, THEN conjunct2,
        THEN conjunct2, THEN conjunct2, THEN conjunct2, THEN conjunct2, THEN conjunct1,
        rule_format, OF this]
    show ?thesis by simp
  qed
  have on_no_channel: \<open>fst (CallTool quiet_env ?read ?s)
     = error_reply ''No channel specified and no default channel set''\<close>
  proof -
    have \<open>waitForDiscord quiet_env ?s = (Inr (), ?s) \<and> arguments ?read = Some no_args
        \<and> tool_name ?read \<in> {''discord_send_message'', ''discord_send_code'',
              ''discord_send_file'', ''discord_send_image'', ''discord_read_messages''}
        \<and> resolveGuild ?s (arg_server no_args) = Inr acme
        \<and> if_truthy (arg_channel no_args) = None
        \<and> (case if_truthy (DEFAULT_CHANNEL_ID ?s) of
              Some i \<Rightarrow> default_channel (guilds_cache ?s) i
            | None \<Rightarrow> None) = None\<close>
      by (simp add: model)
    from C1_failures_become_error_replies [of quiet_env ?read ?s, THEN conjunct2,
        THEN conjunct2, THEN conjunct2, THEN conjunct2, THEN conjunct2, THEN conjunct2,
        THEN conjunct1, rule_format, OF this]
    show ?thesis by simp
  qed
  have on_user: \<open>fst (CallTool quiet_env ?bob ?s) = error_reply ''User "bob" not found''\<close>
  proof -
    have \<open>\<exists>s2. waitForDiscord quiet_env ?s = (Inr (), ?s) \<and> arguments ?bob = Some ?to_bob
        \<and> tool_name ?bob = ''discord_send_dm'' \<and> arg_user ?to_bob = Some ''bob''
        \<and> resolveUser quiet_env (Some ''bob'') ?s = (Inl (Error ''User "bob" not found''), s2)\<close>
      by (simp add: model)
    then obtain s2 where \<open>waitForDiscord quiet_env ?s = (Inr (), ?s) \<and> arguments ?bob = Some ?to_bob
        \<and> tool_name ?bob = ''discord_send_dm'' \<and> arg_user ?to_bob = Some ''bob''
        \<and> resolveUser quiet_env (Some ''bob'') ?s = (Inl (Error ''User "bob" not found''), s2)\<close> ..
    from C1_failures_become_error_replies [of quiet_env ?bob ?s, THEN conjunct2,
        THEN conjunct2, THEN conjunct2, THEN conjunct2, THEN conjunct2, THEN conjunct2,
        THEN conjunct2, THEN conjunct1, rule_format, OF this]
    show ?thesis by simp
  qed
  have on_file: \<open>fst (CallTool quiet_env ?missing ?s) = error_reply ''File not found: /tmp/gone.txt''\<close>
  proof -
    have \<open>waitForDiscord quiet_env ?s = (Inr (), ?s) \<and> arguments ?missing = Some ?gone
        \<and> tool_name ?missing = ''discord_send_file''
        \<and> resolveChannelWithServer quiet_env (arg_channel ?gone) (arg_server ?gone) ?s
            = (Inr general, ?s)
        \<and> \<not> fs_existsSync quiet_env (arg_file_path ?gone)\<close>
      by (simp add: model)
    from C1_failures_become_error_replies [of quiet_env ?missing ?s, THEN conjunct2,
        THEN conjunct2, THEN conjunct2, THEN conjunct2, THEN conjunct2, THEN conjunct2,
        THEN conjunct2, THEN conjunct2, THEN conjunct1, rule_format, OF this]
    show ?thesis by (simp add: no_args_def)
  qed
  have on_image: \<open>fst (CallTool quiet_env ?picture ?s) = error_reply ''Image not found: /tmp/gone.png''\<close>
  proof -
    have \<open>waitForDiscord quiet_env ?s = (Inr (), ?s) \<and> arguments ?picture = Some ?gone_png
        \<and> tool_name ?picture = ''discord_send_image''
        \<and> resolveChannelWithServer quiet_env (arg_channel ?gone_png) (arg_server ?gone_png) ?s
            = (Inr general, ?s)
        \<and> \<not> fs_existsSync quiet_env (arg_image_path ?gone_png)\<close>
      by (simp add: model)
    from C1_failures_become_error_replies [of quiet_env ?picture ?s, THEN conjunct2,
        THEN conjunct2, THEN conjunct2, THEN conjunct2, THEN conjunct2, THEN conjunct2,
        THEN conjunct2, THEN conjunct2, THEN conjunct2, THEN conjunct1, rule_format, OF this]
    show ?thesis by (simp add: no_args_def)
  qed
  have on_dm_file: \<open>fst (CallTool quiet_env ?alice ?s) = error_reply ''File not found: /tmp/gone.txt''\<close>
  proof -
    have \<open>\<exists>s2 s3. waitForDiscord quiet_env ?s = (Inr (), ?s) \<and> arguments ?alice = Some ?to_alice
        \<and> tool_name ?alice = ''discord_send_dm''
        \<and> resolveUser quiet_env (arg_user ?to_alice) ?s = (Inr alice, s2)
        \<and> createDM quiet_env alice s2 = (Inr ''dm-42'', s3)
        \<and> if_truthy (arg_file_path ?to_alice) = Some ''/tmp/gone.txt''
        \<and> \<not> existsSync quiet_env ''/tmp/gone.txt''\<close>
      by (simp add: model)
    then obtain s2 s3 where \<open>waitForDiscord quiet_env ?s = (Inr (), ?s) \<and> arguments ?alice = Some ?to_alice
        \<and> tool_name ?alice = ''discord_send_dm''
        \<and> resolveUser quiet_env (arg_user ?to_alice) ?s = (Inr alice, s2)
        \<and> createDM quiet_env alice s2 = (Inr ''dm-42'', s3)
        \<and> if_truthy (arg_file_path ?to_alice) = Some ''/tmp/gone.txt''
        \<and> \<not> existsSync quiet_env ''/tmp/gone.txt''\<close> by blast
    from C1_failures_become_error_replies [of quiet_env ?alice ?s, THEN conjunct2,
        THEN conjunct2, THEN conjunct2, THEN conjunct2, THEN conjunct2, THEN conjunct2,
        THEN conjunct2, THEN conjunct2, THEN conjunct2, THEN conjunct2, THEN conjunct1,
        rule_format, OF this]
    show ?thesis by simp
  qed
  have on_relayed: \<open>fst (CallTool ?denied ?general ?s) = error_reply ''Missing Permissions''\<close>
  proof -
    have \<open>first_failure ?denied (calls ?s) (issued ?s (snd (CallTool ?denied ?general ?s)))
            = Some (Send ''100'' (Content ''hi''), ''Missing Permissions'')\<close>
      by (simp add: model)
    from C1_failures_become_error_replies [of ?denied ?general ?s, THEN conjunct2,
        THEN conjunct2, THEN conjunct2, THEN conjunct2, THEN conjunct2, THEN conjunct2,
        THEN conjunct2, THEN conjunct2, THEN conjunct2, THEN conjunct2, THEN conjunct2,
        rule_format, OF this]
    show ?thesis by simp
  qed
  have on_replaced: \<open>fst (CallTool ?hidden ?al ?mapped)
     = error_reply ''Mapped user "Al" (ID: 42) not found''\<close>
  proof -
    have \<open>first_failure ?hidden (calls ?mapped) (issued ?mapped (snd (CallTool ?hidden ?al ?mapped)))
            = Some (UsersFetch ''42'', ''Missing Access'')\<close>
      by (simp add: model)
    from C1_failures_become_error_replies [of ?hidden ?al ?mapped, THEN conjunct2,
        THEN conjunct2, THEN conjunct2, THEN conjunct2, THEN conjunct2, THEN conjunct2,
        THEN conjunct2, THEN conjunct2, THEN conjunct2, THEN conjunct2, THEN conjunct2,
        rule_format, OF this]
    show ?thesis by (simp add: model)
  qed
  from on_timeout on_unknown on_server on_channel on_no_channel on_user on_file on_image on_dm_file on_relayed on_replaced
  show ?thesis by simp
qed

text \<open>
  Claim C1 as it is worded, at the user lookup.  The lookup of the ID 42 fails with the message
  \<^verbatim>\<open>Unknown User\<close>.  The user resolver catches the error and throws its own, so the reply is
  tagged as an error with the resolver's message, and the message of the call that failed does
  not occur in its text.
\<close>

theorem C1_counterexample:
  \<open>first_failure
      (quiet_env\<lparr>failure := (\<lambda>history c. if c = UsersFetch ''42'' then Some ''Unknown User''
                                         else None)\<rparr>)
      (calls (registry_state [(''work'', ''1'')] [acme]))
      (issued (registry_state [(''work'', ''1'')] [acme])
         (snd (CallTool
            (quiet_env\<lparr>failure := (\<lambda>history c. if c = UsersFetch ''42''
                                               then Some ''Unknown User'' else None)\<rparr>)
            \<lparr>tool_name = ''discord_send_dm'',
             arguments = Some (no_args\<lparr>arg_user := Some ''42'', arg_message := Some ''hi''\<rparr>)\<rparr>
            (registry_state [(''work'', ''1'')] [acme]))))
     = Some (UsersFetch ''42'', ''Unknown User'')
   \<and> fst (CallTool
        (quiet_env\<lparr>failure := (\<lambda>history c. if c = UsersFetch ''42''
                                           then Some ''Unknown User'' else None)\<rparr>)
        \<lparr>tool_name = ''discord_send_dm'',
         arguments = Some (no_args\<lparr>arg_user := Some ''42'', arg_message := Some ''hi''\<rparr>)\<rparr>
        (registry_state [(''work'', ''1'')] [acme]))
     = \<lparr>content_text = Text ''Error: User with ID 42 not found'', isError = True\<rparr>
   \<and> \<not> sublist ''Unknown User'' ''Error: User with ID 42 not found''\<close>
proof -
  have "\<not> sublist ''Unknown User'' ''Error: User with ID 42 not found''"
    by (simp add: sublist_Cons_right)
  then show ?thesis by (simp add: model)
qed

section \<open>Sending a message when a call fails\<close>

text \<open>
  When a \<^verbatim>\<open>send\<close> call fails, or the channel cannot be resolved, the invocation stops
  there: whatever its outcome, the \<^verbatim>\<open>send\<close> calls it issued go to one channel and carry an
  initial segment of the chunk list, in order.
\<close>

lemma send_each_result:
  "send_each e channel cs s = (r, s') \<Longrightarrow>
     \<exists>k\<le>length cs. calls s' = calls s @ map (\<lambda>c. Send (channel_id channel) (Content c)) (take k cs)"
proof (induction cs arbitrary: s)
  case Nil
  then show ?case by (simp add: return_io_def)
next
  case (Cons c cs)
  obtain r1 s1 where 1: "send e channel (Content c) s = (r1, s1)"
    by (cases "send e channel (Content c) s")
  show ?case
  proof (cases r1)
    case (Inl err)
    with Cons.prems 1 have "s' = s1" by (simp add: bind_io_def)
    with send_result [OF 1] show ?thesis
    proof (elim disjE)
      assume "calls s1 = calls s \<and> (\<exists>err. r1 = Inl err)"
      with \<open>s' = s1\<close> have "calls s' = calls s @ map (\<lambda>c. Send (channel_id channel) (Content c)) (take 0 (c # cs))"
        by simp
      then show ?thesis by blast
    next
      assume "calls s1 = calls s @ [Send (channel_id channel) (Content c)]"
      with \<open>s' = s1\<close> have "calls s' = calls s @ map (\<lambda>c. Send (channel_id channel) (Content c)) (take 1 (c # cs))"
        by simp
      moreover have "1 \<le> length (c # cs)" by simp
      ultimately show ?thesis by blast
    qed
  next
    case (Inr u)
    with Cons.prems 1 have 2: "send_each e channel cs s1 = (r, s')" by (simp add: bind_io_def)
    from Inr 1 have 3: "calls s1 = calls s @ [Send (channel_id channel) (Content c)]"
      by (auto dest: send_ok)
    from Cons.IH [OF 2] obtain k where "k \<le> length cs"
      and "calls s' = calls s1 @ map (\<lambda>c. Send (channel_id channel) (Content c)) (take k cs)"
      by blast
    with 3 have "Suc k \<le> length (c # cs)"
      and "calls s' = calls s @ map (\<lambda>c. Send (channel_id channel) (Content c)) (take (Suc k) (c # cs))"
      by simp_all
    then show ?thesis by blast
  qed
qed

lemma discord_send_message_sends:
  assumes run: "discord_send_message e (Some a) s = (r, s')"
    and msg: "arg_message a = Some msg"
  shows "\<exists>pre channel k. sends pre = []
           \<and> calls s' = calls s @ pre @ map (\<lambda>c. Send channel (Content c))
                (take k (if length msg \<le> 2000 then [msg] else match_chunks msg))"
proof -
  let ?chunks = "if length msg \<le> 2000 then [msg] else match_chunks msg"
  obtain r1 s1 where c: "resolveChannelWithServer e (arg_channel a) (arg_server a) s = (r1, s1)"
    by (cases "resolveChannelWithServer e (arg_channel a) (arg_server a) s")
  from resolveChannelWithServer_calls [OF c] obtain pre where
    c1: "calls s1 = calls s @ pre" and pre: "sends pre = []" by blast
  show ?thesis
  proof (cases r1)
    case (Inl err)
    then have "discord_send_message e (Some a) s = (Inl err, s1)"
      using c by (simp add: discord_send_message_def with_args_def bind_io_def)
    with run c1 have "calls s' = calls s @ pre @ map (\<lambda>c. Send [] (Content c)) (take 0 ?chunks)"
      by simp
    with pre show ?thesis by blast
  next
    case (Inr channel)
    obtain r2 s2 where d: "send_each e channel ?chunks s1 = (r2, s2)"
      by (cases "send_each e channel ?chunks s1")
    have one: "send e channel (Content msg) = send_each e channel [msg]"
      by (auto simp: fun_eq_iff bind_io_def return_io_def split: prod.splits sum.splits)
    have "discord_send_message e (Some a) s
            = bind_io (send_each e channel ?chunks)
                (\<lambda>_. return_io (text_reply (''Message'' @ sent_to channel))) s1"
      using c Inr msg one
      by (simp add: discord_send_message_def with_args_def bind_io_def)
    with run d have "s' = s2" by (cases r2) (auto simp: bind_io_def return_io_def)
    moreover from send_each_result [OF d] obtain k where
      "calls s2 = calls s1 @ map (\<lambda>c. Send (channel_id channel) (Content c)) (take k ?chunks)"
      by blast
    ultimately have "calls s' = calls s @ pre
        @ map (\<lambda>c. Send (channel_id channel) (Content c)) (take k ?chunks)"
      using c1 by simp
    with pre show ?thesis by blast
  qed
qed

lemma send_message_sends_initial_chunks:
  assumes call: "CallTool e \<lparr>tool_name = ''discord_send_message'', arguments = Some a\<rparr> s = (r, s')"
    and msg: "arg_message a = Some msg"
  shows "\<exists>channel k. sends (issued s s')
           = map (\<lambda>chunk. (channel, Content chunk))
               (take k (if length msg \<le> 2000 then [msg] else match_chunks msg))"
proof (cases e s rule: waitForDiscord_cases)
  case (timeout err)
  from tool_switch_wait [OF this]
  have "tool_switch e \<lparr>tool_name = ''discord_send_message'', arguments = Some a\<rparr> s = (Inl err, s)" .
  with call have "s' = s" by (auto simp: CallTool_def)
  then have "sends (issued s s') = map (\<lambda>chunk. ([], Content chunk))
               (take 0 (if length msg \<le> 2000 then [msg] else match_chunks msg))"
    by (simp add: issued_def)
  then show ?thesis by blast
next
  case (ready s1)
  then have sw: "tool_switch e \<lparr>tool_name = ''discord_send_message'', arguments = Some a\<rparr> s
                  = discord_send_message e (Some a) s1"
    by (simp add: tool_switch_ready)
  obtain r1 s2 where run: "discord_send_message e (Some a) s1 = (r1, s2)"
    by (cases "discord_send_message e (Some a) s1")
  have "s' = s2" using call sw run by (auto simp: CallTool_def split: sum.splits)
  moreover from discord_send_message_sends [OF run msg] obtain pre channel k where
    "sends pre = []" and "calls s2 = calls s1 @ pre @ map (\<lambda>c. Send channel (Content c))
                (take k (if length msg \<le> 2000 then [msg] else match_chunks msg))"
    by blast
  ultimately have "sends (issued s s') = map (\<lambda>chunk. (channel, Content chunk))
               (take k (if length msg \<le> 2000 then [msg] else match_chunks msg))"
    using ready(2) by (simp add: issued_def sends_append sends_map_Send)
  then show ?thesis by blast
qed

section \<open>The user mapping table\<close>

text \<open>
  Claim C9 does not hold of the table the program starts with.  The keys read from the
  configuration are stored as they are written: with the mapping of \<^verbatim>\<open>John\<close> to 42 configured,
  the table has the key \<^verbatim>\<open>John\<close>, which is not lower-cased; the lookup lower-cases its query,
  so resolving \<^verbatim>\<open>John\<close> misses the mapping, no user is fetched and the search over the
  registry's guilds ends in the error.
\<close>

theorem C9_configured_key_keeps_capital:
  \<open>map fst (USER_MAPPINGS (startup john_config)) = [''John'']
   \<and> \<not> lower_cased ''John''
   \<and> mappings_get (USER_MAPPINGS (startup john_config)) (toLowerCase ''John'') = None
   \<and> resolveUser quiet_env (Some ''John'') (on_ready [] (startup john_config))
       = (Inl (Error ''User "John" not found''), on_ready [] (startup john_config))\<close>
  by (simp add: model john_config_def lower_cased_def)

text \<open>
  The same mapping added through the add-user-alias tool is stored under the lower-cased key and
  is found.
\<close>

lemma added_key_is_found:
  \<open>map fst (USER_MAPPINGS (snd (CallTool quiet_env
       \<lparr>tool_name = ''discord_add_user_mapping'',
        arguments = Some (no_args\<lparr>arg_alias := Some ''John'', arg_user_id := Some ''42''\<rparr>)\<rparr>
       (on_ready [] (startup (john_config\<lparr>DISCORD_USER_MAPPINGS := None\<rparr>))))))
     = [''john'']
   \<and> fst (resolveUser quiet_env (Some ''John'')
        (snd (CallTool quiet_env
           \<lparr>tool_name = ''discord_add_user_mapping'',
            arguments = Some (no_args\<lparr>arg_alias := Some ''John'', arg_user_id := Some ''42''\<rparr>)\<rparr>
           (on_ready [] (startup (john_config\<lparr>DISCORD_USER_MAPPINGS := None\<rparr>))))))
     = Inr (alice\<lparr>user_id := ''42''\<rparr>)\<close>
  by (simp add: model john_config_def)

text \<open>
  The runtime side of the invariant holds: the only tool that writes the table adds the
  lower-casing of the alias as a key, so an invocation keeps every key lower-cased when every
  key was.
\<close>

lemma keeps_mappingsD:
  "keeps_mappings m \<Longrightarrow> m s = (r, s') \<Longrightarrow> USER_MAPPINGS s' = USER_MAPPINGS s"
  by (simp add: keeps_mappings_def)

lemma km_return: "keeps_mappings (return_io x)"
  by (simp add: keeps_mappings_def return_io_def)

lemma km_throw: "keeps_mappings (throw err)"
  by (simp add: keeps_mappings_def throw_def)

lemma km_bind:
  assumes "keeps_mappings m" and "\<And>x. keeps_mappings (f x)"
  shows "keeps_mappings (bind_io m f)"
proof (unfold keeps_mappings_def, intro allI impI)
  fix s r s'
  assume b: "bind_io m f s = (r, s')"
  obtain r1 s1 where m: "m s = (r1, s1)" by (cases "m s")
  have 1: "USER_MAPPINGS s1 = USER_MAPPINGS s" using assms(1) m by (rule keeps_mappingsD)
  show "USER_MAPPINGS s' = USER_MAPPINGS s"
  proof (cases r1)
    case (Inl err)
    with b m have "s' = s1" by (simp add: bind_io_def)
    with 1 show ?thesis by simp
  next
    case (Inr x)
    with b m have "f x s1 = (r, s')" by (simp add: bind_io_def)
    from keeps_mappingsD [OF assms(2) this] 1 show ?thesis by simp
  qed
qed

lemma km_try_catch:
  assumes "keeps_mappings m" and "\<And>x. keeps_mappings (h x)"
  shows "keeps_mappings (try_catch m h)"
proof (unfold keeps_mappings_def, intro allI impI)
  fix s r s'
  assume b: "try_catch m h s = (r, s')"
  obtain r1 s1 where m: "m s = (r1, s1)" by (cases "m s")
  have 1: "USER_MAPPINGS s1 = USER_MAPPINGS s" using assms(1) m by (rule keeps_mappingsD)
  show "USER_MAPPINGS s' = USER_MAPPINGS s"
  proof (cases r1)
    case (Inr x)
    with b m have "s' = s1" by (simp add: try_catch_def)
    with 1 show ?thesis by simp
  next
    case (Inl err)
    with b m have "h err s1 = (r, s')" by (simp add: try_catch_def)
    from keeps_mappingsD [OF assms(2) this] 1 show ?thesis by simp
  qed
qed

lemma km_sync: "keeps_mappings (sync f)"
  by (simp add: keeps_mappings_def sync_def)

lemma km_remote: "keeps_mappings (remote e c)"
  by (auto simp: keeps_mappings_def remote_def Let_def split: option.splits)

lemma km_wait: "keeps_mappings (waitForDiscord e)"
  by (auto simp: keeps_mappings_def waitForDiscord_def split: if_splits)

lemma km_with_args: "(\<And>a. keeps_mappings (f a)) \<Longrightarrow> keeps_mappings (with_args args p f)"
  by (cases args) (simp_all add: with_args_def km_throw)

lemma km_if: "keeps_mappings a \<Longrightarrow> keeps_mappings b \<Longrightarrow> keeps_mappings (if c then a else b)"
  by simp

lemma km_option:
  "keeps_mappings a \<Longrightarrow> (\<And>x. keeps_mappings (b x)) \<Longrightarrow>
     keeps_mappings (case v of None \<Rightarrow> a | Some x \<Rightarrow> b x)"
  by (cases v) simp_all

lemma km_state: "(\<And>s0. keeps_mappings (f s0)) \<Longrightarrow> keeps_mappings (\<lambda>s. f s s)"
  by (simp add: keeps_mappings_def)

lemmas km = km_return km_throw km_bind km_try_catch km_sync km_remote km_wait km_with_args km_if
  km_option

lemma km_channels_fetch: "keeps_mappings (channels_fetch e guild)"
  unfolding channels_fetch_def
  by (rule km_bind [OF km_remote]) (simp add: keeps_mappings_def Let_def)

lemma km_resolveChannel: "keeps_mappings (resolveChannel e c guild)"
  unfolding resolveChannel_def Let_def by (intro km km_channels_fetch)

lemma km_resolveChannelWithServer: "keeps_mappings (resolveChannelWithServer e c v)"
  unfolding resolveChannelWithServer_def
  by (intro km km_resolveChannel) (auto simp: keeps_mappings_def split: option.splits)

lemma km_users_fetch: "keeps_mappings (users_fetch e i)"
  unfolding users_fetch_def by (intro km)

lemma km_members_fetch: "keeps_mappings (members_fetch e g q l)"
  unfolding members_fetch_def by (intro km)

lemma km_search_guilds: "keeps_mappings (search_guilds e n gs)"
proof (induction gs)
  case Nil
  show ?case by (simp add: km_throw)
next
  case (Cons g gs)
  have "keeps_mappings (\<lambda>s. (case guilds_get (guilds_cache s) (Some g) of
       None \<Rightarrow> search_guilds e n gs
     | Some guild \<Rightarrow>
         bind_io (members_fetch e guild (Some n) 5) (\<lambda>members.
           case find (member_matches n) members of
             Some m \<Rightarrow> return_io (member_user m)
           | None \<Rightarrow> search_guilds e n gs)) s)"
    by (rule km_state) (intro km km_members_fetch Cons.IH)
  moreover have "search_guilds e n (g # gs) = (\<lambda>s. (case guilds_get (guilds_cache s) (Some g) of
       None \<Rightarrow> search_guilds e n gs
     | Some guild \<Rightarrow>
         bind_io (members_fetch e guild (Some n) 5) (\<lambda>members.
           case find (member_matches n) members of
             Some m \<Rightarrow> return_io (member_user m)
           | None \<Rightarrow> search_guilds e n gs)) s)"
    by (auto simp: fun_eq_iff split: option.splits)
  ultimately show ?case by simp
qed

lemma km_resolveUser_body:
  "keeps_mappings (\<lambda>s.
     case if_truthy (mappings_get (USER_MAPPINGS s) (toLowerCase x)) of
       Some mappedId \<Rightarrow> try_catch (users_fetch e mappedId) (\<lambda>_. throw (err1 mappedId)) s
     | None \<Rightarrow>
         if all_digits x then try_catch (users_fetch e x) (\<lambda>_. throw err2) s
         else search_guilds e x (map snd (GUILDS s)) s)"
proof (unfold keeps_mappings_def, intro allI impI)
  fix s r s'
  assume a: "(case if_truthy (mappings_get (USER_MAPPINGS s) (toLowerCase x)) of
       Some mappedId \<Rightarrow> try_catch (users_fetch e mappedId) (\<lambda>_. throw (err1 mappedId)) s
     | None \<Rightarrow>
         if all_digits x then try_catch (users_fetch e x) (\<lambda>_. throw err2) s
         else search_guilds e x (map snd (GUILDS s)) s) = (r, s')"
  show "USER_MAPPINGS s' = USER_MAPPINGS s"
  proof (cases "if_truthy (mappings_get (USER_MAPPINGS s) (toLowerCase x))")
    case (Some i)
    with a have "try_catch (users_fetch e i) (\<lambda>_. throw (err1 i)) s = (r, s')" by simp
    then show ?thesis by (rule keeps_mappingsD [OF km_try_catch [OF km_users_fetch km_throw]])
  next
    case None
    show ?thesis
    proof (cases "all_digits x")
      case True
      with a None have "try_catch (users_fetch e x) (\<lambda>_. throw err2) s = (r, s')" by simp
      then show ?thesis by (rule keeps_mappingsD [OF km_try_catch [OF km_users_fetch km_throw]])
    next
      case False
      with a None have "search_guilds e x (map snd (GUILDS s)) s = (r, s')" by simp
      then show ?thesis by (rule keeps_mappingsD [OF km_search_guilds])
    qed
  qed
qed

lemma km_resolveUser: "keeps_mappings (resolveUser e n)"
  unfolding resolveUser_def
  by (rule km_bind [OF km_wait], rule km_option [OF km_throw], rule km_resolveUser_body)

lemma km_send: "keeps_mappings (send e channel p)"
  unfolding send_def by (intro km)

lemma km_send_each: "keeps_mappings (send_each e channel cs)"
  by (induction cs) (auto intro!: km km_send)

lemma km_createDM: "keeps_mappings (createDM e u)"
  unfolding createDM_def by (intro km)

lemma km_messages_fetch: "keeps_mappings (messages_fetch e c l)"
  unfolding messages_fetch_def by (intro km)

lemmas km_all = km km_channels_fetch km_resolveChannel km_resolveChannelWithServer km_users_fetch
  km_members_fetch km_search_guilds km_resolveUser km_send km_send_each km_createDM
  km_messages_fetch

lemma km_send_message: "keeps_mappings (discord_send_message e args)"
  unfolding discord_send_message_def by (intro km_all)

lemma km_send_code: "keeps_mappings (discord_send_code e args)"
  unfolding discord_send_code_def Let_def by (intro km_all)

lemma km_send_file: "keeps_mappings (discord_send_file e args)"
  unfolding discord_send_file_def Let_def by (intro km_all)

lemma km_send_image: "keeps_mappings (discord_send_image e args)"
  unfolding discord_send_image_def Let_def by (intro km_all)

lemma km_send_dm: "keeps_mappings (discord_send_dm e args)"
  unfolding discord_send_dm_def Let_def by (intro km_all)

lemma km_list_channels: "keeps_mappings (discord_list_channels e args)"
  unfolding discord_list_channels_def Let_def by (intro km_all)

lemma km_list_members: "keeps_mappings (discord_list_members e args)"
  unfolding discord_list_members_def Let_def by (intro km_all)

lemma km_list_servers: "keeps_mappings discord_list_servers"
  by (simp add: keeps_mappings_def discord_list_servers_def)

lemma km_read_messages: "keeps_mappings (discord_read_messages e args)"
  unfolding discord_read_messages_def Let_def by (intro km_all)

lemma mappings_set_keys: "fst ` set (mappings_set obj k v) = insert k (fst ` set obj)"
  by (induction obj) auto

lemma add_user_mapping_keys:
  assumes "discord_add_user_mapping args s = (r, s')"
  shows "USER_MAPPINGS s' = USER_MAPPINGS s
       \<or> (\<exists>a. fst ` set (USER_MAPPINGS s') = insert (toLowerCase a) (fst ` set (USER_MAPPINGS s)))"
proof (cases args)
  case None
  with assms show ?thesis by (simp add: discord_add_user_mapping_def with_args_def throw_def)
next
  case (Some a)
  show ?thesis
  proof (cases "arg_alias a")
    case None
    with assms Some show ?thesis
      by (simp add: discord_add_user_mapping_def with_args_def throw_def)
  next
    case (Some x)
    with assms \<open>args = Some a\<close>
    have "s' = s\<lparr>USER_MAPPINGS := mappings_set (USER_MAPPINGS s) (toLowerCase x) (arg_user_id a)\<rparr>"
      by (simp add: discord_add_user_mapping_def with_args_def)
    then have "fst ` set (USER_MAPPINGS s') = insert (toLowerCase x) (fst ` set (USER_MAPPINGS s))"
      by (simp add: mappings_set_keys)
    then show ?thesis by blast
  qed
qed

lemma tool_switch_keys:
  assumes "tool_switch e req s = (r, s')"
  shows "USER_MAPPINGS s' = USER_MAPPINGS s
       \<or> (\<exists>a. fst ` set (USER_MAPPINGS s') = insert (toLowerCase a) (fst ` set (USER_MAPPINGS s)))"
proof (cases e s rule: waitForDiscord_cases)
  case (timeout err)
  from tool_switch_wait [OF this] assms show ?thesis by simp
next
  case (ready s1)
  have m: "USER_MAPPINGS s1 = USER_MAPPINGS s"
    using ready(1) by (rule keeps_mappingsD [OF km_wait])
  have k: "USER_MAPPINGS s' = USER_MAPPINGS s1" if "keeps_mappings t" and "t s1 = (r, s')" for t
    using that by (rule keeps_mappingsD)
  consider (add) "discord_add_user_mapping (arguments req) s1 = (r, s')"
    | (other) t where "keeps_mappings t" and "t s1 = (r, s')"
    using assms unfolding tool_switch_ready [OF ready(1)] Let_def
    by (auto split: if_splits
          intro: km_send_message km_send_code km_send_file km_send_image km_send_dm
            km_list_channels km_list_members km_list_servers km_read_messages km_throw)
  then show ?thesis
  proof cases
    case add
    from add_user_mapping_keys [OF this] m show ?thesis by simp
  next
    case other
    from k [OF other] m show ?thesis by simp
  qed
qed

lemma CallTool_keeps_keys_lower_cased:
  assumes inv: "\<forall>k\<in>fst ` set (USER_MAPPINGS s). lower_cased k"
    and call: "CallTool e req s = (r, s')"
  shows "\<forall>k\<in>fst ` set (USER_MAPPINGS s'). lower_cased k"
proof -
  obtain r0 where "tool_switch e req s = (r0, s')"
    using call by (auto simp: CallTool_def split: prod.splits sum.splits)
  from tool_switch_keys [OF this] show ?thesis
  proof
    assume "USER_MAPPINGS s' = USER_MAPPINGS s"
    with inv show ?thesis by simp
  next
    assume "\<exists>a. fst ` set (USER_MAPPINGS s') = insert (toLowerCase a) (fst ` set (USER_MAPPINGS s))"
    then obtain a where
      "fst ` set (USER_MAPPINGS s') = insert (toLowerCase a) (fst ` set (USER_MAPPINGS s))" ..
    moreover have "lower_cased (toLowerCase a)" by (simp add: lower_cased_def toLowerCase_idem)
    ultimately show ?thesis using inv by simp
  qed
qed

end
